(* ===== verification/Prelude.thy ===== *)
theory Prelude
  imports Main "HOL-Library.Word" "HOL-Library.AList"
begin

text \<open>
  The part of the Python run-time the tools rely on, and the automation the components share.

  \<^item> Exceptions are values: an \<open>exn\<close> carries its class and its text (\<open>str(e)\<close>), and the
    predicates \<open>is_exception\<close> and \<open>is_os_error\<close> say which \<open>except\<close> clauses catch it.  Texts the
    repository's code raises are verbatim; those of the interpreter and its library are not.
  \<^item> A statement of a script is a \<open>('w, 'a) py\<close>: it takes the state of the world and gives
    \<open>None\<close> (it never returns), or a result together with the new world.  The result is
    \<open>Inl e\<close> for an exception that leaves the statement and \<open>Inr x\<close> for a value.  The world
    is returned in both cases, because an exception does not undo effects.
  \<^item> Python dictionaries keep insertion order, so they are association lists; assignment to a
    key updates in place or appends, \<open>pop\<close> removes.
  \<^item> Bytes are 8-bit words, and \<open>struct\<close>'s big-endian integers are \<open>be_bytes\<close>/\<open>be_int\<close>.
\<close>

unbundle bit_operations_syntax

named_theorems py_simps \<open>evaluation of the statement combinators\<close>
named_theorems frame_simps \<open>byte-level facts used by the wire format\<close>
named_theorems inv_intros \<open>preservation lemmas of component invariants\<close>

subsection \<open>Exceptions\<close>

datatype exn_kind =
    KeyboardInterrupt | SystemExit int
  | ValueError | TypeError | KeyError | IndexError | AttributeError | ZeroDivisionError
  | AssertionError | EOFError | RuntimeError | StructError | CanError | CalledProcessError
  | OSError | TimeoutError | ConnectionError | ImportError

datatype exn = Exn (exn_kind: exn_kind) (exn_str: string)

text \<open>\<open>except Exception\<close> does not catch the two classes that derive from \<open>BaseException\<close> only.\<close>

fun is_exception :: "exn \<Rightarrow> bool" where
  "is_exception (Exn KeyboardInterrupt _) = False"
| "is_exception (Exn (SystemExit _) _) = False"
| "is_exception _ = True"

text \<open>\<open>TimeoutError\<close> (also known as \<open>socket.timeout\<close>) and \<open>ConnectionError\<close> derive from \<open>OSError\<close>.\<close>

fun is_os_error :: "exn \<Rightarrow> bool" where
  "is_os_error (Exn OSError _) = True"
| "is_os_error (Exn TimeoutError _) = True"
| "is_os_error (Exn ConnectionError _) = True"
| "is_os_error _ = False"

fun is_timeout :: "exn \<Rightarrow> bool" where
  "is_timeout (Exn TimeoutError _) = True"
| "is_timeout _ = False"

fun is_can_error :: "exn \<Rightarrow> bool" where
  "is_can_error (Exn CanError _) = True"
| "is_can_error _ = False"

lemma is_os_error_exception: "is_os_error e \<Longrightarrow> is_exception e"
  by (cases e rule: is_os_error.cases) auto

lemma is_timeout_os_error: "is_timeout e \<Longrightarrow> is_os_error e"
  by (cases e rule: is_timeout.cases) auto

lemma is_can_error_exception: "is_can_error e \<Longrightarrow> is_exception e"
  by (cases e rule: is_can_error.cases) auto

subsection \<open>Statements\<close>

type_synonym ('w, 'a) py = "'w \<Rightarrow> ((exn + 'a) \<times> 'w) option"

definition py_return :: "'a \<Rightarrow> ('w, 'a) py" where
  "py_return x w = Some (Inr x, w)"

definition py_raise :: "exn \<Rightarrow> ('w, 'a) py" where
  "py_raise e w = Some (Inl e, w)"

definition py_bind :: "('w, 'a) py \<Rightarrow> ('a \<Rightarrow> ('w, 'b) py) \<Rightarrow> ('w, 'b) py" where
  "py_bind m f w =
     (case m w of
        None \<Rightarrow> None
      | Some (Inl e, w') \<Rightarrow> Some (Inl e, w')
      | Some (Inr x, w') \<Rightarrow> f x w')"

text \<open>\<open>try: m / except Exception as e: h(e)\<close>.\<close>

definition py_except :: "('w, 'a) py \<Rightarrow> (exn \<Rightarrow> ('w, 'a) py) \<Rightarrow> ('w, 'a) py" where
  "py_except m h w =
     (case m w of
        None \<Rightarrow> None
      | Some (Inl e, w') \<Rightarrow> (if is_exception e then h e w' else Some (Inl e, w'))
      | Some (Inr x, w') \<Rightarrow> Some (Inr x, w'))"

text \<open>\<open>try: m / finally: c\<close>; an exception of \<open>c\<close> replaces the outcome of \<open>m\<close>.\<close>

definition py_finally :: "('w, 'a) py \<Rightarrow> ('w, unit) py \<Rightarrow> ('w, 'a) py" where
  "py_finally m c w =
     (case m w of
        None \<Rightarrow> None
      | Some (r, w') \<Rightarrow>
          (case c w' of
             None \<Rightarrow> None
           | Some (Inl e, w'') \<Rightarrow> Some (Inl e, w'')
           | Some (Inr _, w'') \<Rightarrow> Some (r, w'')))"

text \<open>A block of statements run in order, and a statement under a condition.\<close>

fun py_block :: "('w, unit) py list \<Rightarrow> ('w, unit) py" where
  "py_block [] = py_return ()"
| "py_block (s # ss) = py_bind s (\<lambda>_. py_block ss)"

definition py_when :: "bool \<Rightarrow> ('w, unit) py \<Rightarrow> ('w, unit) py" where
  "py_when b s = (if b then s else py_return ())"

text \<open>A \<open>for\<close> loop over a list, and a computed value that may be an exception.\<close>

definition py_for :: "'a list \<Rightarrow> ('a \<Rightarrow> ('w, unit) py) \<Rightarrow> ('w, unit) py" where
  "py_for xs f = py_block (map f xs)"

definition py_lift :: "exn + 'a \<Rightarrow> ('w, 'a) py" where
  "py_lift r w = Some (r, w)"

text \<open>A total world transformer that may raise, as the calls into libraries are.\<close>

definition py_call :: "('w \<Rightarrow> (exn + 'a) \<times> 'w) \<Rightarrow> ('w, 'a) py" where
  "py_call f w = Some (f w)"

definition py_effect :: "('w \<Rightarrow> 'w) \<Rightarrow> ('w, unit) py" where
  "py_effect f w = Some (Inr (), f w)"

lemma py_return_bind [simp]: "py_bind (py_return x) f = f x"
  by (rule ext) (simp add: py_bind_def py_return_def)

lemma py_raise_bind [simp]: "py_bind (py_raise e) f = py_raise e"
  by (rule ext) (simp add: py_bind_def py_raise_def)

lemma py_bind_return [simp]: "py_bind m py_return = m"
  by (rule ext) (simp add: py_bind_def py_return_def split: option.split prod.split sum.split)

lemma py_bind_return_unit: "py_bind m (\<lambda>_. py_return ()) = m"
  by (rule ext) (simp add: py_bind_def py_return_def split: option.split prod.split sum.split)

lemma py_bind_assoc: "py_bind (py_bind m f) g = py_bind m (\<lambda>x. py_bind (f x) g)"
  by (rule ext) (simp add: py_bind_def split: option.split prod.split sum.split)

lemma py_block_append: "py_block (xs @ ys) = py_bind (py_block xs) (\<lambda>_. py_block ys)"
  by (induction xs) (simp_all add: py_bind_assoc)

lemma py_bind_eq_Some:
  "py_bind m f w = Some (r, w') \<longleftrightarrow>
     (\<exists>e. m w = Some (Inl e, w') \<and> r = Inl e) \<or>
     (\<exists>x w1. m w = Some (Inr x, w1) \<and> f x w1 = Some (r, w'))"
  by (auto simp: py_bind_def split: option.splits sum.splits)

lemma py_bind_run:
  "m w = Some (Inr x, w1) \<Longrightarrow> py_bind m f w = f x w1"
  "m w = Some (Inl e, w1) \<Longrightarrow> py_bind m f w = Some (Inl e, w1)"
  by (simp_all add: py_bind_def)

lemma py_except_return [simp]: "py_except (py_return x) h = py_return x"
  by (rule ext) (simp add: py_except_def py_return_def)

lemma py_lift_simps [simp]: "py_lift (Inl e) = py_raise e" "py_lift (Inr x) = py_return x"
  by (simp_all add: fun_eq_iff py_lift_def py_raise_def py_return_def)

lemma py_for_simps [simp]:
  "py_for [] f = py_return ()"
  "py_for (x # xs) f = py_bind (f x) (\<lambda>_. py_for xs f)"
  by (simp_all add: py_for_def)

lemma py_except_raise:
  "py_except (py_raise e) h = (if is_exception e then h e else py_raise e)"
  by (rule ext) (simp add: py_except_def py_raise_def)

declare py_return_def [py_simps] py_raise_def [py_simps] py_bind_def [py_simps]
  py_except_def [py_simps] py_finally_def [py_simps] py_when_def [py_simps]
  py_call_def [py_simps] py_effect_def [py_simps]

text \<open>A statement returns from \<open>w\<close> when it does not loop there.\<close>

definition returns :: "('w, 'a) py \<Rightarrow> 'w \<Rightarrow> bool" where
  "returns m w \<longleftrightarrow> m w \<noteq> None"

lemma returns_simps [simp]:
  "returns (py_return x) w" "returns (py_raise e) w" "returns (py_call g) w"
  "returns (py_effect t) w"
  by (simp_all add: returns_def py_simps)

lemma returns_bind:
  assumes "returns m w" and "\<And>x w'. m w = Some (Inr x, w') \<Longrightarrow> returns (f x) w'"
  shows "returns (py_bind m f) w"
  using assms by (auto simp: returns_def py_bind_def split: option.split sum.split)

lemma returns_except:
  assumes "returns m w"
    and "\<And>e w'. m w = Some (Inl e, w') \<Longrightarrow> is_exception e \<Longrightarrow> returns (h e) w'"
  shows "returns (py_except m h) w"
  using assms by (auto simp: returns_def py_except_def split: option.split sum.split)

lemma returns_finally:
  assumes "returns m w" and "\<And>r w'. m w = Some (r, w') \<Longrightarrow> returns c w'"
  shows "returns (py_finally m c) w"
  using assms by (auto simp: returns_def py_finally_def split: option.split sum.split)

subsection \<open>Dictionaries in insertion order\<close>

type_synonym ('k, 'v) dict = "('k \<times> 'v) list"

abbreviation dict_get :: "('k, 'v) dict \<Rightarrow> 'k \<Rightarrow> 'v option" where
  "dict_get d k \<equiv> map_of d k"

abbreviation dict_put :: "'k \<Rightarrow> 'v \<Rightarrow> ('k, 'v) dict \<Rightarrow> ('k, 'v) dict" where
  "dict_put k v d \<equiv> AList.update k v d"

abbreviation dict_pop :: "'k \<Rightarrow> ('k, 'v) dict \<Rightarrow> ('k, 'v) dict" where
  "dict_pop k d \<equiv> AList.delete k d"

abbreviation dict_keys :: "('k, 'v) dict \<Rightarrow> 'k list" where
  "dict_keys d \<equiv> map fst d"

abbreviation dict_ok :: "('k, 'v) dict \<Rightarrow> bool" where
  "dict_ok d \<equiv> distinct (map fst d)"

lemma dict_get_put: "dict_get (dict_put k v d) k' = (if k' = k then Some v else dict_get d k')"
  by (simp add: update_conv')

lemma dict_get_pop: "dict_get (dict_pop k d) k' = (if k' = k then None else dict_get d k')"
  by (simp add: delete_conv')

lemma dict_ok_put: "dict_ok d \<Longrightarrow> dict_ok (dict_put k v d)"
  by (rule distinct_update)

lemma dict_ok_pop: "dict_ok d \<Longrightarrow> dict_ok (dict_pop k d)"
  by (rule distinct_delete)

lemma dict_keys_put:
  "dict_keys (dict_put k v d) = (if k \<in> set (dict_keys d) then dict_keys d else dict_keys d @ [k])"
  by (rule update_keys)

lemma dict_set_keys_pop: "set (dict_keys (dict_pop k d)) = set (dict_keys d) - {k}"
  by (auto simp: dom_map_of_conv_image_fst [symmetric] delete_conv' dom_def split: if_splits)

lemma dict_put_same: "dict_get d k = Some v \<Longrightarrow> dict_put k v d = d"
  by (induction d) (auto split: if_splits)

lemma dict_get_None_iff: "dict_get d k = None \<longleftrightarrow> k \<notin> set (dict_keys d)"
  by (simp add: map_of_eq_None_iff)

lemma dict_get_in_keys: "dict_get d k = Some v \<Longrightarrow> k \<in> set (dict_keys d)"
  using map_of_eq_None_iff [of d k] by auto

subsection \<open>Bytes\<close>

type_synonym byte = "8 word"

text \<open>\<open>struct\<close> in network order: the most significant byte first.\<close>

fun be_bytes :: "nat \<Rightarrow> int \<Rightarrow> byte list" where
  "be_bytes 0 v = []"
| "be_bytes (Suc k) v = be_bytes k (v div 256) @ [word_of_int v]"

definition be_int :: "byte list \<Rightarrow> int" where
  "be_int bs = foldl (\<lambda>a b. a * 256 + uint b) 0 bs"

lemma be_bytes_length [simp, frame_simps]: "length (be_bytes k v) = k"
  by (induction k arbitrary: v) simp_all

text \<open>Evaluation at a numeral; not a simp rule, so that \<open>be_bytes 2\<close> stays folded in proofs.\<close>

lemma be_bytes_numeral:
  "be_bytes (numeral k) v = be_bytes (pred_numeral k) (v div 256) @ [word_of_int v]"
  by (simp add: numeral_eq_Suc)

lemma be_int_Nil [simp]: "be_int [] = 0"
  by (simp add: be_int_def)

lemma be_int_snoc [simp]: "be_int (bs @ [b]) = be_int bs * 256 + uint b"
  by (simp add: be_int_def)

lemma be_int_bounds: "0 \<le> be_int bs \<and> be_int bs < 256 ^ length bs"
proof (induction bs rule: rev_induct)
  case Nil
  then show ?case by simp
next
  case (snoc b bs)
  have "uint b < 256" using uint_lt2p [of b] by simp
  with snoc show ?case by simp
qed

lemma be_int_nonneg [simp]: "0 \<le> be_int bs"
  using be_int_bounds [of bs] by simp

lemma be_int_be_bytes: "be_int (be_bytes k v) = v mod 256 ^ k"
proof (induction k arbitrary: v)
  case 0
  then show ?case by simp
next
  case (Suc k)
  have "v mod (256 * 256 ^ k) = 256 * (v div 256 mod 256 ^ k) + v mod 256"
    by (rule zmod_zmult2_eq) simp
  then show ?case
    by (simp add: Suc.IH uint_word_of_int)
qed

lemma be_int_be_bytes_id [frame_simps]:
  "0 \<le> v \<Longrightarrow> v < 256 ^ k \<Longrightarrow> be_int (be_bytes k v) = v"
  by (simp add: be_int_be_bytes)

lemma be_bytes_be_int: "be_bytes (length bs) (be_int bs) = bs"
proof (induction bs rule: rev_induct)
  case Nil
  then show ?case by simp
next
  case (snoc b bs)
  have "uint b < 256" using uint_lt2p [of b] by simp
  then have "(be_int bs * 256 + uint b) div 256 = be_int bs" by simp
  moreover have "(word_of_int (be_int bs * 256 + uint b) :: byte) = b"
    using \<open>uint b < 256\<close> by (intro word_uint_eqI) (simp add: uint_word_of_int del: of_int_add of_int_mult)
  ultimately show ?case using snoc by simp
qed

subsection \<open>\<open>struct\<close> formats\<close>

text \<open>
  A format in network order without padding is the list of its field widths.  Packing checks
  the range of each field; unpacking reads from offset 0 and ignores what follows the fields.
\<close>

definition struct_error :: exn where
  "struct_error = Exn StructError ''argument out of range''"

fun struct_pack :: "nat list \<Rightarrow> int list \<Rightarrow> exn + byte list" where
  "struct_pack [] [] = Inr []"
| "struct_pack (k # ks) (v # vs) =
     (if 0 \<le> v \<and> v < 256 ^ k
      then (case struct_pack ks vs of Inl e \<Rightarrow> Inl e | Inr bs \<Rightarrow> Inr (be_bytes k v @ bs))
      else Inl struct_error)"
| "struct_pack _ _ = Inl struct_error"

fun struct_unpack :: "nat list \<Rightarrow> byte list \<Rightarrow> exn + int list" where
  "struct_unpack [] bs = Inr []"
| "struct_unpack (k # ks) bs =
     (if length bs < k then Inl struct_error
      else (case struct_unpack ks (drop k bs) of
              Inl e \<Rightarrow> Inl e
            | Inr vs \<Rightarrow> Inr (be_int (take k bs) # vs)))"

lemma struct_pack_length: "struct_pack ks vs = Inr bs \<Longrightarrow> length bs = sum_list ks"
  by (induction ks vs arbitrary: bs rule: struct_pack.induct) (auto split: if_splits sum.splits)

lemma struct_unpack_pack: "struct_pack ks vs = Inr bs \<Longrightarrow> struct_unpack ks (bs @ rest) = Inr vs"
  by (induction ks vs arbitrary: bs rule: struct_pack.induct)
    (auto split: if_splits sum.splits simp: be_int_be_bytes_id)

lemma struct_pack_unpack:
  "struct_unpack ks bs = Inr vs \<Longrightarrow> struct_pack ks vs = Inr (take (sum_list ks) bs)"
proof (induction ks bs arbitrary: vs rule: struct_unpack.induct)
  case (1 bs)
  then show ?case by simp
next
  case (2 k ks bs)
  then obtain ws where k: "k \<le> length bs" and ws: "struct_unpack ks (drop k bs) = Inr ws"
    and vs: "vs = be_int (take k bs) # ws"
    by (auto split: if_splits sum.splits)
  have "be_int (take k bs) < 256 ^ k" using be_int_bounds [of "take k bs"] k by simp
  moreover have "be_bytes k (be_int (take k bs)) = take k bs"
    using be_bytes_be_int [of "take k bs"] k by simp
  ultimately show ?case using "2.IH" [OF _ ws] k vs by (simp add: take_add)
qed

lemma struct_unpack_ok:
  "(\<exists>vs. struct_unpack ks bs = Inr vs) \<longleftrightarrow> sum_list ks \<le> length bs"
  by (induction ks bs rule: struct_unpack.induct) (auto split: sum.splits)

end
