(* ===== verification/Frame_Codec.thy ===== *)
theory Frame_Codec
  imports Prelude
begin

text \<open>
  The wire format of the CAN/TCP bridge: \<open>frame_from_can\<close> and \<open>can_from_frame\<close> of
  \<open>can_tcp_bridge.py\<close>.  A record is a two-byte length followed by a six-byte header and at most
  64 bytes of data.  A CAN message is what the bridge reads of a \<open>can.Message\<close>: an attribute
  read with \<open>getattr\<close> and a default is an option, \<open>None\<close> standing for a missing attribute.  The
  constructor \<open>can.Message\<close> belongs to python-can and is the parameter \<open>mk\<close> of
  \<open>can_from_frame\<close>.
\<close>

unbundle bit_operations_syntax

subsection \<open>Messages\<close>

record can_message =
  arbitration_id :: int
  is_extended_id :: bool
  is_remote_frame :: bool
  is_fd :: "bool option"
  bitrate_switch :: "bool option"
  msg_data :: "byte list option"

text \<open>The keyword arguments the bridge passes to \<open>can.Message\<close>.\<close>

record message_args =
  arg_arbitration_id :: int
  arg_is_extended_id :: bool
  arg_is_remote_frame :: bool
  arg_data :: "byte list"
  arg_is_fd :: bool
  arg_bitrate_switch :: bool

definition attr_or_False :: "bool option \<Rightarrow> bool" where
  "attr_or_False a = (case a of None \<Rightarrow> False | Some b \<Rightarrow> b)"

definition message_bytes :: "can_message \<Rightarrow> byte list" where
  "message_bytes msg = (case msg_data msg of None \<Rightarrow> [] | Some d \<Rightarrow> d)"

subsection \<open>The two header formats and the flag bits\<close>

definition RECORD_HDR :: "nat list" where
  "RECORD_HDR = [2, 4, 1, 1]"

definition HDR_NO_LEN :: "nat list" where
  "HDR_NO_LEN = [4, 1, 1]"

definition FLAG_EXT :: int where "FLAG_EXT = push_bit 0 1"

definition FLAG_RTR :: int where "FLAG_RTR = push_bit 1 1"

definition FLAG_FD :: int where "FLAG_FD = push_bit 2 1"

definition FLAG_BRS :: int where "FLAG_BRS = push_bit 3 1"

lemmas flag_defs = FLAG_EXT_def FLAG_RTR_def FLAG_FD_def FLAG_BRS_def

subsection \<open>Encoding\<close>

definition frame_flags :: "can_message \<Rightarrow> bool \<Rightarrow> int" where
  "frame_flags msg use_fd_cfg =
     (let f0 = 0;
          f1 = (if is_extended_id msg then f0 OR FLAG_EXT else f0);
          f2 = (if is_remote_frame msg then f1 OR FLAG_RTR else f1)
      in if attr_or_False (is_fd msg) \<or> use_fd_cfg
         then (let f3 = f2 OR FLAG_FD
               in if attr_or_False (bitrate_switch msg) then f3 OR FLAG_BRS else f3)
         else f2)"

definition frame_from_can :: "can_message \<Rightarrow> bool \<Rightarrow> exn + byte list" where
  "frame_from_can msg use_fd_cfg =
     (let flags = frame_flags msg use_fd_cfg;
          data = message_bytes msg;
          n = length data
      in if n > 64 then Inl (Exn ValueError ''Data length exceeds 64 bytes'')
         else (case struct_pack RECORD_HDR
                      [6 + int n, arbitration_id msg AND 0x1FFFFFFF, flags, int n] of
                 Inl e \<Rightarrow> Inl e
               | Inr hdr \<Rightarrow> Inr (hdr @ data)))"

subsection \<open>Decoding\<close>

definition parse_frame :: "byte list \<Rightarrow> exn + message_args" where
  "parse_frame buf =
     (if length buf < sum_list HDR_NO_LEN then Inl (Exn ValueError ''short frame header'')
      else (case struct_unpack HDR_NO_LEN buf of
              Inr [can_id, flags, n] \<Rightarrow>
                (if n > 64 then Inl (Exn ValueError ''invalid DLC (>64)'')
                 else if int (length buf) < int (sum_list HDR_NO_LEN) + n
                 then Inl (Exn ValueError ''short frame body'')
                 else Inr \<lparr>arg_arbitration_id = can_id,
                           arg_is_extended_id = (flags AND FLAG_EXT \<noteq> 0),
                           arg_is_remote_frame = (flags AND FLAG_RTR \<noteq> 0),
                           arg_data = take (nat n) (drop (sum_list HDR_NO_LEN) buf),
                           arg_is_fd = (flags AND FLAG_FD \<noteq> 0),
                           arg_bitrate_switch = (flags AND FLAG_BRS \<noteq> 0)\<rparr>)
            | Inr _ \<Rightarrow> Inl struct_error
            | Inl e \<Rightarrow> Inl e))"

definition can_from_frame ::
    "(message_args \<Rightarrow> exn + can_message) \<Rightarrow> byte list \<Rightarrow> exn + can_message" where
  "can_from_frame mk buf = (case parse_frame buf of Inl e \<Rightarrow> Inl e | Inr args \<Rightarrow> mk args)"

subsection \<open>The contents of a record\<close>

text \<open>
  The abstract content of a record: what a message becomes when it crosses the bridge.  Only the
  low 29 bits of the identifier travel, and the bit-rate switch travels with FD frames only.
\<close>

definition wire_args :: "can_message \<Rightarrow> bool \<Rightarrow> message_args" where
  "wire_args msg use_fd_cfg =
     (let fd = (attr_or_False (is_fd msg) \<or> use_fd_cfg)
      in \<lparr>arg_arbitration_id = arbitration_id msg mod 2 ^ 29,
          arg_is_extended_id = is_extended_id msg,
          arg_is_remote_frame = is_remote_frame msg,
          arg_data = message_bytes msg,
          arg_is_fd = fd,
          arg_bitrate_switch = (fd \<and> attr_or_False (bitrate_switch msg))\<rparr>)"

text \<open>The records the encoder can produce, and the message that gives one.\<close>

definition canonical_args :: "message_args \<Rightarrow> bool" where
  "canonical_args a \<longleftrightarrow>
     0 \<le> arg_arbitration_id a \<and> arg_arbitration_id a < 2 ^ 29 \<and> length (arg_data a) \<le> 64 \<and>
     (arg_bitrate_switch a \<longrightarrow> arg_is_fd a)"

definition args_message :: "message_args \<Rightarrow> can_message" where
  "args_message a = \<lparr>arbitration_id = arg_arbitration_id a,
     is_extended_id = arg_is_extended_id a, is_remote_frame = arg_is_remote_frame a,
     is_fd = Some (arg_is_fd a), bitrate_switch = Some (arg_bitrate_switch a),
     msg_data = Some (arg_data a)\<rparr>"

subsection \<open>Lemmas on the header\<close>

lemma hdr_sizes [simp, frame_simps]: "sum_list HDR_NO_LEN = 6" "sum_list RECORD_HDR = 8"
  by (simp_all add: HDR_NO_LEN_def RECORD_HDR_def)

lemma can_id_mask: "(i :: int) AND 0x1FFFFFFF = i mod 2 ^ 29"
proof -
  have "(0x1FFFFFFF :: int) = mask 29" by (simp add: mask_eq_exp_minus_1)
  then show ?thesis by (simp only: take_bit_eq_mask [symmetric] take_bit_eq_mod)
qed

lemma frame_flags_value:
  "frame_flags msg cfg =
     of_bool (is_extended_id msg) + 2 * of_bool (is_remote_frame msg) +
     (if attr_or_False (is_fd msg) \<or> cfg
      then 4 + 8 * of_bool (attr_or_False (bitrate_switch msg)) else 0)"
  by (simp add: frame_flags_def flag_defs)

lemma frame_flags_range: "0 \<le> frame_flags msg cfg \<and> frame_flags msg cfg < 16"
  by (auto simp: frame_flags_value)

text \<open>The bits of the flag byte, read back one by one.\<close>

lemma frame_flags_bits:
  "frame_flags msg cfg AND FLAG_EXT \<noteq> 0 \<longleftrightarrow> is_extended_id msg"
  "frame_flags msg cfg AND FLAG_RTR \<noteq> 0 \<longleftrightarrow> is_remote_frame msg"
  "frame_flags msg cfg AND FLAG_FD \<noteq> 0 \<longleftrightarrow> attr_or_False (is_fd msg) \<or> cfg"
  "frame_flags msg cfg AND FLAG_BRS \<noteq> 0 \<longleftrightarrow>
     (attr_or_False (is_fd msg) \<or> cfg) \<and> attr_or_False (bitrate_switch msg)"
  by (auto simp: frame_flags_value flag_defs)

text \<open>A flag byte without unknown bits is the sum of its flags.\<close>

lemma flag_byte_sum:
  assumes "0 \<le> f" "f < 16" "f AND FLAG_BRS \<noteq> 0 \<longrightarrow> f AND FLAG_FD \<noteq> 0"
  shows "of_bool (f AND FLAG_EXT \<noteq> 0) + 2 * of_bool (f AND FLAG_RTR \<noteq> 0) +
     (if f AND FLAG_FD \<noteq> 0 then 4 + 8 * of_bool (f AND FLAG_BRS \<noteq> 0) else 0) = f"
proof -
  have "f = 0 \<or> f = 1 \<or> f = 2 \<or> f = 3 \<or> f = 4 \<or> f = 5 \<or> f = 6 \<or> f = 7 \<or> f = 8 \<or> f = 9 \<or>
      f = 10 \<or> f = 11 \<or> f = 12 \<or> f = 13 \<or> f = 14 \<or> f = 15"
    using assms(1,2) by presburger
  then show ?thesis using assms(3) by (elim disjE) (simp_all add: flag_defs)
qed

lemma frame_from_can_ok:
  assumes "length (message_bytes msg) \<le> 64"
  obtains hdr where
    "struct_pack HDR_NO_LEN [arbitration_id msg mod 2 ^ 29, frame_flags msg cfg,
       int (length (message_bytes msg))] = Inr hdr"
    "frame_from_can msg cfg =
       Inr (be_bytes 2 (6 + int (length (message_bytes msg))) @ hdr @ message_bytes msg)"
proof
  let ?n = "int (length (message_bytes msg))"
  let ?hdr = "be_bytes 4 (arbitration_id msg mod 2 ^ 29) @ be_bytes 1 (frame_flags msg cfg) @
    be_bytes 1 ?n"
  have id: "arbitration_id msg mod 536870912 < 4294967296"
    using pos_mod_bound [of 536870912 "arbitration_id msg"] by linarith
  show "struct_pack HDR_NO_LEN [arbitration_id msg mod 2 ^ 29, frame_flags msg cfg, ?n] = Inr ?hdr"
    using assms frame_flags_range [of msg cfg] id by (simp add: HDR_NO_LEN_def)
  show "frame_from_can msg cfg = Inr (be_bytes 2 (6 + ?n) @ ?hdr @ message_bytes msg)"
    using assms frame_flags_range [of msg cfg] id
    by (simp add: frame_from_can_def RECORD_HDR_def can_id_mask Let_def)
qed

lemma frame_from_can_error_iff:
  "frame_from_can msg cfg = Inl e \<longleftrightarrow>
     length (message_bytes msg) > 64 \<and> e = Exn ValueError ''Data length exceeds 64 bytes''"
proof (cases "length (message_bytes msg) \<le> 64")
  case True
  then obtain bs where "frame_from_can msg cfg = Inr bs" by (rule frame_from_can_ok [of msg cfg])
  with True show ?thesis by simp
next
  case False
  then show ?thesis by (auto simp: frame_from_can_def)
qed

text \<open>A header and what follows it, parsed.\<close>

lemma parse_frame_hdr:
  assumes hdr: "struct_pack HDR_NO_LEN [i, f, n] = Inr hdr"
  shows "parse_frame (hdr @ body) =
     (if n > 64 then Inl (Exn ValueError ''invalid DLC (>64)'')
      else if int (length body) < n then Inl (Exn ValueError ''short frame body'')
      else Inr \<lparr>arg_arbitration_id = i, arg_is_extended_id = (f AND FLAG_EXT \<noteq> 0),
                arg_is_remote_frame = (f AND FLAG_RTR \<noteq> 0), arg_data = take (nat n) body,
                arg_is_fd = (f AND FLAG_FD \<noteq> 0), arg_bitrate_switch = (f AND FLAG_BRS \<noteq> 0)\<rparr>)"
proof -
  have "length hdr = 6" using struct_pack_length [OF hdr] by simp
  then show ?thesis by (simp add: parse_frame_def struct_unpack_pack [OF hdr])
qed

lemma parse_frame_short: "length buf < 6 \<Longrightarrow> parse_frame buf = Inl (Exn ValueError ''short frame header'')"
  by (simp add: parse_frame_def)

text \<open>Every buffer with a complete header is a packed header and a body.\<close>

lemma split_header:
  assumes "6 \<le> length buf"
  obtains i f n hdr where "struct_pack HDR_NO_LEN [i, f, n] = Inr hdr" "buf = hdr @ drop 6 buf"
    "0 \<le> i" "i < 2 ^ 32" "0 \<le> f" "f < 256" "0 \<le> n" "n < 256"
proof -
  obtain vs where vs: "struct_unpack HDR_NO_LEN buf = Inr vs"
    using struct_unpack_ok [of HDR_NO_LEN buf] assms by auto
  then obtain i f n where ifn: "vs = [i, f, n]"
    by (auto simp: HDR_NO_LEN_def split: if_splits)
  have pk: "struct_pack HDR_NO_LEN [i, f, n] = Inr (take 6 buf)"
    using struct_pack_unpack [OF vs] ifn by simp
  then have "0 \<le> i" "i < 2 ^ 32" "0 \<le> f" "f < 256" "0 \<le> n" "n < 256"
    by (auto simp: HDR_NO_LEN_def split: if_splits)
  with pk show thesis by (intro that [of i f n "take 6 buf"]) simp_all
qed

lemma frame_from_can_length:
  "frame_from_can msg cfg = Inr bs \<Longrightarrow> length bs = 8 + length (message_bytes msg)"
  by (auto simp: frame_from_can_def Let_def split: if_splits sum.splits dest!: struct_pack_length)

lemma header_length_byte:
  assumes "6 \<le> length buf" "struct_pack HDR_NO_LEN [i, f, n] = Inr hdr" "buf = hdr @ drop 6 buf"
  shows "n = uint (buf ! 5)" "f = uint (buf ! 4)"
proof -
  from assms(2) have hdr: "hdr = be_bytes 4 i @ be_bytes 1 f @ be_bytes 1 n"
    and r: "0 \<le> f" "f < 256" "0 \<le> n" "n < 256"
    by (auto simp: HDR_NO_LEN_def split: if_splits)
  have "buf ! 5 = word_of_int n" "buf ! 4 = word_of_int f"
    by (subst assms(3), simp add: hdr nth_append)+
  then show "n = uint (buf ! 5)" "f = uint (buf ! 4)" using r by (simp_all add: uint_word_of_int)
qed

text \<open>The encoding of a message and the decoding of its body; the properties below rest on it.\<close>

lemma wire_body:
  assumes "length (message_bytes msg) \<le> 64"
  obtains body where "frame_from_can msg cfg = Inr (be_bytes 2 (int (length body)) @ body)"
    "length body = 6 + length (message_bytes msg)" "parse_frame body = Inr (wire_args msg cfg)"
proof -
  obtain hdr where
    hdr: "struct_pack HDR_NO_LEN [arbitration_id msg mod 2 ^ 29, frame_flags msg cfg,
       int (length (message_bytes msg))] = Inr hdr"
    and enc: "frame_from_can msg cfg =
       Inr (be_bytes 2 (6 + int (length (message_bytes msg))) @ hdr @ message_bytes msg)"
    using assms by (rule frame_from_can_ok)
  have "length hdr = 6" using struct_pack_length [OF hdr] by simp
  moreover have "parse_frame (hdr @ message_bytes msg) = Inr (wire_args msg cfg)"
    using assms by (simp add: parse_frame_hdr [OF hdr] frame_flags_bits wire_args_def Let_def)
  ultimately show thesis using enc by (intro that [of "hdr @ message_bytes msg"]) simp_all
qed

subsection \<open>Properties\<close>

text \<open>(C6) Round trip over the wire.  A message with at most 64 data bytes is encoded as a two-byte
  length and a body of exactly that length, at most 70 bytes, and decoding the body gives the
  message's content back: the low 29 bits of the identifier, the frame kind, the FD and bit-rate
  flags and all data bytes.  A longer message is refused with a \<open>ValueError\<close>.\<close>

theorem encode_decode:
  "if length (message_bytes msg) \<le> 64
   then \<exists>body. frame_from_can msg cfg = Inr (be_bytes 2 (int (length body)) @ body) \<and>
      length body = 6 + length (message_bytes msg) \<and> parse_frame body = Inr (wire_args msg cfg)
   else frame_from_can msg cfg = Inl (Exn ValueError ''Data length exceeds 64 bytes'')"
proof (cases "length (message_bytes msg) \<le> 64")
  case True
  then obtain body where "frame_from_can msg cfg = Inr (be_bytes 2 (int (length body)) @ body)"
    "length body = 6 + length (message_bytes msg)" "parse_frame body = Inr (wire_args msg cfg)"
    by (rule wire_body)
  with True show ?thesis by auto
next
  case False
  then show ?thesis using frame_from_can_error_iff [of msg cfg] by simp
qed

theorem encode_decode_witness:
  "\<exists>body. frame_from_can \<lparr>arbitration_id = 0x123, is_extended_id = False, is_remote_frame = False,
        is_fd = None, bitrate_switch = None, msg_data = Some [0xDE, 0xAD]\<rparr> True =
      Inr (be_bytes 2 (int (length body)) @ body) \<and> length body = 8"
  using encode_decode [of "\<lparr>arbitration_id = 0x123, is_extended_id = False,
      is_remote_frame = False, is_fd = None, bitrate_switch = None,
      msg_data = Some [0xDE, 0xAD]\<rparr>" True]
  by (auto simp: message_bytes_def)

text \<open>(C21) Decoding loses nothing: when a body decodes to content the encoder can produce, has no
  trailing bytes and no unknown flag bit, encoding that content gives the body back behind its
  length.\<close>

theorem decode_encode:
  assumes dec: "parse_frame buf = Inr a" and can: "canonical_args a"
    and exact: "length buf = 6 + length (arg_data a)" and flags: "uint (buf ! 4) < 16"
  shows "frame_from_can (args_message a) False = Inr (be_bytes 2 (int (length buf)) @ buf)"
proof -
  have len: "6 \<le> length buf" using exact by simp
  then obtain i f n hdr where h: "struct_pack HDR_NO_LEN [i, f, n] = Inr hdr" "buf = hdr @ drop 6 buf"
    and r: "0 \<le> i" "0 \<le> f" "0 \<le> n" by (rule split_header)
  have f16: "f < 16" using header_length_byte(2) [OF len h] flags by simp
  have a: "a = \<lparr>arg_arbitration_id = i, arg_is_extended_id = (f AND FLAG_EXT \<noteq> 0),
      arg_is_remote_frame = (f AND FLAG_RTR \<noteq> 0), arg_data = take (nat n) (drop 6 buf),
      arg_is_fd = (f AND FLAG_FD \<noteq> 0), arg_bitrate_switch = (f AND FLAG_BRS \<noteq> 0)\<rparr>"
    and nb: "n \<le> 64" "n \<le> int (length (drop 6 buf))"
    using dec parse_frame_hdr [OF h(1), of "drop 6 buf"] h(2) by (auto split: if_splits)
  have n: "int (length (drop 6 buf)) = n"
    using exact nb r by (simp add: a)
  then have data: "arg_data a = drop 6 buf" by (simp add: a flip: n)
  have i29: "arbitration_id (args_message a) mod 2 ^ 29 = i"
    using can r by (simp add: canonical_args_def args_message_def a)
  have bytes: "message_bytes (args_message a) = drop 6 buf"
    by (simp add: args_message_def message_bytes_def data)
  have fl: "frame_flags (args_message a) False = f"
    using can flag_byte_sum [OF r(2) f16]
    by (simp only: canonical_args_def a frame_flags_value args_message_def attr_or_False_def
      can_message.simps message_args.simps option.case simp_thms) blast
  have "length (message_bytes (args_message a)) \<le> 64"
    using can by (simp add: canonical_args_def message_bytes_def args_message_def)
  then show ?thesis
  proof (rule frame_from_can_ok)
    fix hdr'
    assume "struct_pack HDR_NO_LEN [arbitration_id (args_message a) mod 2 ^ 29,
        frame_flags (args_message a) False, int (length (message_bytes (args_message a)))] = Inr hdr'"
      and enc: "frame_from_can (args_message a) False =
        Inr (be_bytes 2 (6 + int (length (message_bytes (args_message a)))) @ hdr' @
          message_bytes (args_message a))"
    then have "hdr' = hdr" using h(1) by (simp only: fl i29 bytes n sum.inject)
    moreover have "6 + n = int (length buf)" using len by (simp flip: n)
    ultimately show ?thesis using enc h(2) by (simp only: bytes n)
  qed
qed

theorem decode_encode_witness:
  "frame_from_can (args_message \<lparr>arg_arbitration_id = 0x700, arg_is_extended_id = False,
      arg_is_remote_frame = False, arg_data = [5], arg_is_fd = True,
      arg_bitrate_switch = True\<rparr>) False =
    Inr (be_bytes 2 7 @ [0, 0, 7, 0, 12, 1, 5])"
  using decode_encode [of "[0, 0, 7, 0, 12, 1, 5]" "\<lparr>arg_arbitration_id = 0x700,
      arg_is_extended_id = False, arg_is_remote_frame = False, arg_data = [5], arg_is_fd = True,
      arg_bitrate_switch = True\<rparr>"]
  by (simp add: parse_frame_def HDR_NO_LEN_def be_int_def flag_defs canonical_args_def)

text \<open>(C22) Every branch of the decoder.  It fails exactly on a short header, on a length byte above
  64 and on a body shorter than its length byte says, tested in this order, and always with a
  \<open>ValueError\<close>.\<close>

theorem parse_frame_error_iff:
  "parse_frame buf = Inl e \<longleftrightarrow>
     e = (if length buf < 6 then Exn ValueError ''short frame header''
          else if uint (buf ! 5) > 64 then Exn ValueError ''invalid DLC (>64)''
          else Exn ValueError ''short frame body'') \<and>
     (length buf < 6 \<or> uint (buf ! 5) > 64 \<or> int (length buf) < 6 + uint (buf ! 5))"
proof (cases "length buf < 6")
  case True
  then show ?thesis by (auto simp: parse_frame_short)
next
  case False
  then have len: "6 \<le> length buf" by simp
  then obtain i f n hdr where h: "struct_pack HDR_NO_LEN [i, f, n] = Inr hdr" "buf = hdr @ drop 6 buf"
    by (rule split_header)
  have p: "parse_frame buf =
     (if uint (buf ! 5) > 64 then Inl (Exn ValueError ''invalid DLC (>64)'')
      else if int (length (drop 6 buf)) < uint (buf ! 5) then Inl (Exn ValueError ''short frame body'')
      else parse_frame buf)"
    using parse_frame_hdr [OF h(1), of "drop 6 buf"] h(2) header_length_byte(1) [OF len h] by simp
  have ok: "\<exists>a. parse_frame buf = Inr a"
    if "uint (buf ! 5) \<le> 64" "uint (buf ! 5) \<le> int (length (drop 6 buf))"
    using parse_frame_hdr [OF h(1), of "drop 6 buf"] h(2) header_length_byte(1) [OF len h] that by simp
  have "int (length (drop 6 buf)) = int (length buf) - 6" using len by simp
  then show ?thesis using p ok False by (auto split: if_splits)
qed

text \<open>The wire format is unambiguous: two messages with the same encoding have the same
  content, whatever configuration each was sent under.\<close>

theorem encode_injective:
  assumes "frame_from_can m1 c1 = Inr bs" "frame_from_can m2 c2 = Inr bs"
  shows "wire_args m1 c1 = wire_args m2 c2"
proof -
  have ok: "length (message_bytes m) \<le> 64" if "frame_from_can m c = Inr bs" for m c
    using that by (auto simp: frame_from_can_def Let_def split: if_splits)
  obtain b1 where b1: "bs = be_bytes 2 (int (length b1)) @ b1" "parse_frame b1 = Inr (wire_args m1 c1)"
    by (rule wire_body [OF ok [OF assms(1)], of c1]) (use assms(1) in auto)
  obtain b2 where b2: "bs = be_bytes 2 (int (length b2)) @ b2" "parse_frame b2 = Inr (wire_args m2 c2)"
    by (rule wire_body [OF ok [OF assms(2)], of c2]) (use assms(2) in auto)
  have "b1 = drop 2 bs" "b2 = drop 2 bs" using b1(1) b2(1) by (metis append_eq_conv_conj be_bytes_length)+
  then show ?thesis using b1(2) b2(2) by simp
qed

theorem encode_injective_witness:
  "wire_args \<lparr>arbitration_id = 0x20000123, is_extended_id = True, is_remote_frame = False,
       is_fd = None, bitrate_switch = Some True, msg_data = None\<rparr> True =
   wire_args \<lparr>arbitration_id = 0x123, is_extended_id = True, is_remote_frame = False,
       is_fd = Some True, bitrate_switch = Some True, msg_data = Some []\<rparr> False"
  by (rule encode_injective [where bs = "[0, 6, 0, 0, 1, 0x23, 13, 0]"])
    (simp_all add: frame_from_can_def RECORD_HDR_def can_id_mask frame_flags_value
      message_bytes_def attr_or_False_def Let_def be_bytes_numeral)

text \<open>
  What the bridge relies on in the constructor \<open>can.Message\<close>: it accepts the content of a data
  frame and its attributes read back as given.  (For a remote frame python-can drops the data.)
\<close>

definition keeps_content :: "(message_args \<Rightarrow> exn + can_message) \<Rightarrow> bool" where
  "keeps_content mk \<longleftrightarrow>
     (\<forall>a. \<not> arg_is_remote_frame a \<longrightarrow>
        (\<exists>m. mk a = Inr m \<and> arbitration_id m = arg_arbitration_id a \<and>
           is_extended_id m = arg_is_extended_id a \<and> \<not> is_remote_frame m \<and>
           is_fd m = Some (arg_is_fd a) \<and> bitrate_switch m = Some (arg_bitrate_switch a) \<and>
           msg_data m = Some (arg_data a)))"

lemma forwarding_content:
  assumes "length (message_bytes msg) \<le> 64" "\<not> is_remote_frame msg" "keeps_content mk"
  obtains body m' where "frame_from_can msg cfg = Inr (be_bytes 2 (int (length body)) @ body)"
    "can_from_frame mk body = Inr m'" "wire_args m' False = wire_args msg cfg"
    "wire_args m' True = (wire_args msg cfg)\<lparr>arg_is_fd := True\<rparr>"
proof -
  obtain body where b: "frame_from_can msg cfg = Inr (be_bytes 2 (int (length body)) @ body)"
    "parse_frame body = Inr (wire_args msg cfg)"
    using wire_body [OF assms(1)] by metis
  have nr: "\<not> arg_is_remote_frame (wire_args msg cfg)"
    using assms(2) by (simp add: wire_args_def Let_def)
  obtain m' where m': "mk (wire_args msg cfg) = Inr m'"
    "arbitration_id m' = arg_arbitration_id (wire_args msg cfg)"
    "is_extended_id m' = arg_is_extended_id (wire_args msg cfg)" "\<not> is_remote_frame m'"
    "is_fd m' = Some (arg_is_fd (wire_args msg cfg))"
    "bitrate_switch m' = Some (arg_bitrate_switch (wire_args msg cfg))"
    "msg_data m' = Some (arg_data (wire_args msg cfg))"
    using assms(3) nr unfolding keeps_content_def by blast
  then have "wire_args m' False = wire_args msg cfg"
    "wire_args m' True = (wire_args msg cfg)\<lparr>arg_is_fd := True\<rparr>"
    using assms(2) by (auto simp: wire_args_def Let_def attr_or_False_def message_bytes_def)
  then show thesis using that b m'(1) by (simp add: can_from_frame_def)
qed


lemma keeps_content_args_message: "keeps_content (\<lambda>a. Inr (args_message a))"
  by (simp add: keeps_content_def args_message_def)


end
