(* ===== verification/Tcp_Framer.thy ===== *)
theory Tcp_Framer
  imports Prelude
begin

text \<open>
  \<open>TCPFramer\<close> of \<open>can_tcp_bridge.py\<close>: the incremental parser that cuts the TCP byte stream into
  length-prefixed records.  The abstract specification is \<open>split_records\<close>, which cuts a whole
  byte string at once.  The locale \<open>record_stream\<close> is the contract the receiving loop uses: what
  \<open>feed\<close> and \<open>next_record\<close> do to the bytes that are still pending.
\<close>

subsection \<open>The class\<close>

record framer =
  fbuf :: "byte list"

definition new_framer :: framer where
  "new_framer = \<lparr>fbuf = []\<rparr>"

definition feed :: "framer \<Rightarrow> byte list \<Rightarrow> framer" where
  "feed f chunk = f\<lparr>fbuf := fbuf f @ chunk\<rparr>"

definition next_record :: "framer \<Rightarrow> byte list option \<times> framer" where
  "next_record f =
     (if length (fbuf f) < 2 then (None, f)
      else (let len = nat (be_int (take 2 (fbuf f)));
                total = 2 + len
            in if length (fbuf f) < total then (None, f)
               else (let rec = take (total - 2) (drop 2 (fbuf f))
                     in (Some rec, f\<lparr>fbuf := drop total (fbuf f)\<rparr>))))"

subsection \<open>Records of a byte string\<close>

definition wire_record :: "byte list \<Rightarrow> byte list" where
  "wire_record r = be_bytes 2 (int (length r)) @ r"

definition record_ok :: "byte list \<Rightarrow> bool" where
  "record_ok r \<longleftrightarrow> length r < 65536"

text \<open>A byte string that does not start with a complete record.\<close>

definition incomplete :: "byte list \<Rightarrow> bool" where
  "incomplete bs \<longleftrightarrow> length bs < 2 \<or> length bs < 2 + nat (be_int (take 2 bs))"

function split_records :: "byte list \<Rightarrow> byte list list \<times> byte list" where
  "split_records bs =
     (if incomplete bs then ([], bs)
      else (let n = nat (be_int (take 2 bs)); (rs, rest) = split_records (drop (2 + n) bs)
            in (take n (drop 2 bs) # rs, rest)))"
  by pat_completeness auto
termination
  by (relation "measure length") (auto simp: incomplete_def)

declare split_records.simps [simp del]

lemma length_field:
  assumes "record_ok r"
  shows "take 2 (wire_record r @ bs) = be_bytes 2 (int (length r))"
    and "nat (be_int (take 2 (wire_record r @ bs))) = length r"
  using assms by (simp_all add: wire_record_def record_ok_def be_int_be_bytes)

lemma incomplete_Nil [simp]: "incomplete []"
  by (simp add: incomplete_def)

lemma wire_record_not_incomplete: "record_ok r \<Longrightarrow> \<not> incomplete (wire_record r @ bs)"
  using length_field [of r bs] by (simp add: incomplete_def wire_record_def)

lemma split_records_incomplete: "incomplete bs \<Longrightarrow> split_records bs = ([], bs)"
  by (simp add: split_records.simps [of bs])

lemma split_records_wire:
  assumes "record_ok r"
  shows "split_records (wire_record r @ bs) = (r # fst (split_records bs), snd (split_records bs))"
  using wire_record_not_incomplete [OF assms, of bs] length_field(2) [OF assms, of bs]
  by (simp add: split_records.simps [of "wire_record r @ bs"] case_prod_unfold)
    (simp add: wire_record_def Let_def)

text \<open>A byte string that is not incomplete starts with a record.\<close>

lemma not_incomplete_wire:
  assumes "\<not> incomplete bs"
  obtains r rest where "record_ok r" "bs = wire_record r @ rest"
    "r = take (nat (be_int (take 2 bs))) (drop 2 bs)"
    "rest = drop (2 + nat (be_int (take 2 bs))) bs"
proof -
  let ?n = "nat (be_int (take 2 bs))"
  have len: "2 \<le> length bs" "2 + ?n \<le> length bs" using assms by (auto simp: incomplete_def)
  have n: "be_int (take 2 bs) < 65536" using be_int_bounds [of "take 2 bs"] len by simp
  have "be_bytes 2 (be_int (take 2 bs)) = take 2 bs"
    using be_bytes_be_int [of "take 2 bs"] len by (simp add: min_absorb2)
  moreover have "int (length (take ?n (drop 2 bs))) = be_int (take 2 bs)" using len by simp
  ultimately have "wire_record (take ?n (drop 2 bs)) = take (2 + ?n) bs"
    by (simp only: wire_record_def take_add)
  then have "bs = wire_record (take ?n (drop 2 bs)) @ drop (2 + ?n) bs" by simp
  moreover have "record_ok (take ?n (drop 2 bs))"
    using n by (auto simp: record_ok_def min_def nat_less_iff)
  ultimately show thesis using that by blast
qed

text \<open>Induction over the records a byte string starts with.\<close>

lemma records_induct [case_names tail rec]:
  assumes "\<And>bs. incomplete bs \<Longrightarrow> P bs"
    and "\<And>r bs. record_ok r \<Longrightarrow> P bs \<Longrightarrow> P (wire_record r @ bs)"
  shows "P bs"
proof (induction bs rule: length_induct)
  case (1 bs)
  show ?case
  proof (cases "incomplete bs")
    case True
    then show ?thesis by (rule assms(1))
  next
    case False
    then obtain r rest where r: "record_ok r" "bs = wire_record r @ rest"
      by (rule not_incomplete_wire)
    then have "length rest < length bs" by (simp add: wire_record_def)
    with "1" r show ?thesis using assms(2) by simp
  qed
qed

lemma split_records_rest_incomplete: "incomplete (snd (split_records bs))"
  by (induction bs rule: records_induct) (simp_all add: split_records_incomplete split_records_wire)

lemma split_records_ok: "r \<in> set (fst (split_records bs)) \<Longrightarrow> record_ok r"
  by (induction bs rule: records_induct) (auto simp: split_records_incomplete split_records_wire)

lemma split_records_conserve:
  "concat (map wire_record (fst (split_records bs))) @ snd (split_records bs) = bs"
  by (induction bs rule: records_induct) (simp_all add: split_records_incomplete split_records_wire)

lemma split_records_append:
  "split_records (bs @ cs) =
     (fst (split_records bs) @ fst (split_records (snd (split_records bs) @ cs)),
      snd (split_records (snd (split_records bs) @ cs)))"
  by (induction bs rule: records_induct) (simp_all add: split_records_incomplete split_records_wire)

lemma split_records_wires:
  "\<forall>r\<in>set rs. record_ok r \<Longrightarrow>
     split_records (concat (map wire_record rs) @ bs) =
       (rs @ fst (split_records bs), snd (split_records bs))"
  by (induction rs) (simp_all add: split_records_wire)

lemma incomplete_bound: "incomplete bs \<Longrightarrow> length bs \<le> 65536"
proof (cases "length bs < 2")
  case False
  assume "incomplete bs"
  moreover have "be_int (take 2 bs) < 65536" using be_int_bounds [of "take 2 bs"] False by simp
  ultimately show ?thesis using False by (auto simp: incomplete_def)
qed simp

subsection \<open>The contract of a framer\<close>

text \<open>
  What a client of a framer relies on: \<open>feed\<close> appends to the pending bytes, and \<open>next\<close> either
  takes the first complete record off them or leaves them alone because there is none.
\<close>

locale record_stream =
  fixes init :: "'s" and feed_op :: "'s \<Rightarrow> byte list \<Rightarrow> 's"
    and next_op :: "'s \<Rightarrow> byte list option \<times> 's" and pending :: "'s \<Rightarrow> byte list"
  assumes pending_init: "pending init = []"
    and pending_feed: "pending (feed_op s c) = pending s @ c"
    and next_None: "next_op s = (None, s') \<Longrightarrow> s' = s \<and> incomplete (pending s)"
    and next_Some: "next_op s = (Some r, s') \<Longrightarrow>
      record_ok r \<and> pending s = wire_record r @ pending s'"
begin

lemma next_split_None: "next_op s = (None, s') \<Longrightarrow> split_records (pending s) = ([], pending s)"
  using next_None by (blast intro: split_records_incomplete)

lemma next_split_Some:
  "next_op s = (Some r, s') \<Longrightarrow>
     split_records (pending s) = (r # fst (split_records (pending s')), snd (split_records (pending s')))"
  using next_Some by (simp add: split_records_wire)

lemma next_shrinks: "next_op s = (Some r, s') \<Longrightarrow> length (pending s') < length (pending s)"
  using next_Some [of s r s'] by (simp add: wire_record_def)

lemma next_split_cases:
  obtains (none) "next_op s = (None, s)" "split_records (pending s) = ([], pending s)"
  | (some) r s' where "next_op s = (Some r, s')" "record_ok r"
      "split_records (pending s) = (r # fst (split_records (pending s')), snd (split_records (pending s')))"
      "length (pending s') < length (pending s)"
proof (cases "next_op s")
  case (Pair o' s')
  show ?thesis
  proof (cases o')
    case None
    then show ?thesis using Pair next_None next_split_None none by blast
  next
    case (Some r)
    then show ?thesis
      using Pair next_Some next_split_Some next_shrinks some by blast
  qed
qed

end

lemma next_record_None: "next_record f = (None, f') \<Longrightarrow> f' = f \<and> incomplete (fbuf f)"
  by (auto simp: next_record_def incomplete_def Let_def split: if_splits)

lemma next_record_Some:
  assumes "next_record f = (Some r, f')"
  shows "record_ok r \<and> fbuf f = wire_record r @ fbuf f'"
proof -
  have "\<not> incomplete (fbuf f)"
    using assms by (auto simp: next_record_def incomplete_def Let_def split: if_splits)
  then obtain rest where "record_ok (take (nat (be_int (take 2 (fbuf f)))) (drop 2 (fbuf f)))"
    "fbuf f = wire_record (take (nat (be_int (take 2 (fbuf f)))) (drop 2 (fbuf f))) @
       drop (2 + nat (be_int (take 2 (fbuf f)))) (fbuf f)"
    by (metis not_incomplete_wire)
  moreover have "r = take (nat (be_int (take 2 (fbuf f)))) (drop 2 (fbuf f))"
    "fbuf f' = drop (2 + nat (be_int (take 2 (fbuf f)))) (fbuf f)"
    using assms by (auto simp: next_record_def Let_def split: if_splits)
  ultimately show ?thesis by simp
qed

interpretation tf: record_stream new_framer feed next_record fbuf
  by unfold_locales
    (auto simp: new_framer_def feed_def dest: next_record_None next_record_Some)

subsection \<open>Draining a framer\<close>

text \<open>
  The inner loop of the receiver asks for records until there is none; \<open>receive_all\<close> does so
  after each chunk the socket returns.
\<close>

function drain :: "framer \<Rightarrow> byte list list \<times> framer" where
  "drain f =
     (case next_record f of
        (None, f') \<Rightarrow> ([], f')
      | (Some r, f') \<Rightarrow> (let (rs, f'') = drain f' in (r # rs, f'')))"
  by pat_completeness auto
termination
  by (relation "measure (\<lambda>f. length (fbuf f))") (auto dest: tf.next_shrinks [OF sym])

declare drain.simps [simp del]

fun receive_all :: "framer \<Rightarrow> byte list list \<Rightarrow> byte list list \<times> framer" where
  "receive_all f [] = ([], f)"
| "receive_all f (c # cs) =
     (let (rs, f') = drain (feed f c); (rs', f'') = receive_all f' cs in (rs @ rs', f''))"

lemma drain_split:
  "drain f = (fst (split_records (fbuf f)), f\<lparr>fbuf := snd (split_records (fbuf f))\<rparr>)"
proof (induction f rule: drain.induct)
  case (1 f)
  show ?case
  proof (cases rule: tf.next_split_cases [of f])
    case none
    then show ?thesis by (simp add: drain.simps [of f])
  next
    case (some r f')
    then have "drain f' = (fst (split_records (fbuf f')), f'\<lparr>fbuf := snd (split_records (fbuf f'))\<rparr>)"
      using "1" by (metis prod.exhaust_sel)
    with some show ?thesis by (simp add: drain.simps [of f] Let_def)
  qed
qed

lemma receive_all_split:
  "incomplete (fbuf f) \<Longrightarrow>
     receive_all f cs =
       (fst (split_records (fbuf f @ concat cs)), \<lparr>fbuf = snd (split_records (fbuf f @ concat cs))\<rparr>)"
proof (induction cs arbitrary: f)
  case Nil
  then show ?case by (simp add: split_records_incomplete)
next
  case (Cons c cs)
  let ?f = "\<lparr>fbuf = snd (split_records (fbuf f @ c))\<rparr>"
  have "drain (feed f c) = (fst (split_records (fbuf f @ c)), ?f)"
    by (simp add: drain_split feed_def)
  moreover have "incomplete (fbuf ?f)" by (simp add: split_records_rest_incomplete)
  ultimately show ?case
    using Cons.IH [of ?f] split_records_append [of "fbuf f @ c" "concat cs"] by simp
qed

lemma framing_chunks:
  "receive_all new_framer cs =
     (fst (split_records (concat cs)), \<lparr>fbuf = snd (split_records (concat cs))\<rparr>)"
  using receive_all_split [of new_framer cs] by (simp add: new_framer_def)

text \<open>One more chunk on a drained framer.\<close>

lemma drain_feed_rest:
  assumes "drain (feed \<lparr>fbuf = snd (split_records bs)\<rparr> c) = (rs, f)"
  shows "fst (split_records (bs @ c)) = fst (split_records bs) @ rs"
    and "f = \<lparr>fbuf = snd (split_records (bs @ c))\<rparr>"
  using assms by (auto simp: drain_split feed_def split_records_append [of bs c])

subsection \<open>Properties\<close>

text \<open>(C7) Chunk boundaries do not matter: however TCP cuts the stream into chunks, a new framer
  yields the records of the whole stream, in order, and keeps the unfinished rest.\<close>

theorem framing_independent_of_chunks:
  "receive_all new_framer chunks =
     (fst (split_records (concat chunks)), \<lparr>fbuf = snd (split_records (concat chunks))\<rparr>)"
  by (rule framing_chunks)

text \<open>Records survive the stream: whatever records of less than 65536 bytes a sender writes one
  after the other, followed by the start of an unfinished one, the receiver gets exactly these
  records, in order, however the stream was cut.\<close>

theorem records_roundtrip:
  assumes "\<forall>r\<in>set rs. record_ok r" "incomplete rest"
    and "concat chunks = concat (map wire_record rs) @ rest"
  shows "receive_all new_framer chunks = (rs, \<lparr>fbuf = rest\<rparr>)"
  using assms
  by (simp add: framing_chunks split_records_wires split_records_incomplete)

theorem records_roundtrip_witness:
  "receive_all new_framer [[0], [2, 7], [8, 0, 0, 0], [5, 1]] = ([[7, 8], []], \<lparr>fbuf = [0, 5, 1]\<rparr>)"
  using records_roundtrip [of "[[7, 8], []]" "[0, 5, 1]" "[[0], [2, 7], [8, 0, 0, 0], [5, 1]]"]
  by (simp add: record_ok_def incomplete_def wire_record_def be_bytes_numeral be_int_def)

text \<open>(C20) No byte is lost, duplicated or reordered: the records handed out and the bytes still
  buffered are exactly the stream, every record is below 65536 bytes, and the buffer never keeps
  more than 65536 bytes between two chunks.\<close>

theorem framer_conserves_bytes:
  assumes "receive_all new_framer chunks = (rs, f)"
  shows "concat (map wire_record rs) @ fbuf f = concat chunks \<and> (\<forall>r\<in>set rs. record_ok r) \<and>
     length (fbuf f) \<le> 65536"
  using assms incomplete_bound [OF split_records_rest_incomplete, of "concat chunks"]
  by (auto simp: framing_chunks split_records_conserve dest: split_records_ok)

theorem framer_conserves_bytes_witness:
  "concat (map wire_record [[9]]) @ [0] = concat [[0, 1], [9, 0]] \<and> length [0 :: byte] \<le> 65536"
  using framer_conserves_bytes [OF framing_chunks, of "[[0, 1], [9, 0]]"]
  by (simp add: split_records.simps incomplete_def be_int_def)

end
