(* ===== verification/Bridge_Threads.thy ===== *)
theory Bridge_Threads
  imports Frame_Codec Tcp_Framer "HOL-Library.Sublist"
begin

text \<open>
  The two threads of \<open>Bridge\<close> in \<open>can_tcp_bridge.py\<close> and what they share.  The main thread runs
  \<open>_loop_can_to_tcp\<close> and then \<open>stop\<close>; the daemon thread runs \<open>_tcp_manager\<close>, which waits for a
  connection (\<open>_accept_once\<close> or \<open>_connect_once\<close>), runs \<open>_loop_tcp_to_can\<close> on it, closes it and
  starts again.  They share \<open>stop_event\<close> and \<open>self.sock\<close>.

  A state is the shared fields, a program counter for each thread, and a history: the messages the
  bus received, the connections still open and those whose transmission failed, and for each
  connection the messages passed to \<open>sendall\<close>, the bytes it took, the chunks received and the
  records handed on.  A step is one action of one thread; a block under \<open>sock_lock\<close> is one step.
  Blocking calls return or raise as the environment likes.  Connections are numbered in the order
  they are made.  Of TCP it is assumed that \<open>sendall\<close> fails on a blocking socket only when the
  connection has failed, after a part of the data, and that nothing is transmitted afterwards.
\<close>

subsection \<open>States\<close>

datatype mgr_pc =
    M_top                     \<comment> \<open>the loop head of \<open>_tcp_manager\<close>\<close>
  | M_wait                    \<comment> \<open>the loop head of \<open>_accept_once\<close> or \<open>_connect_once\<close>\<close>
  | M_block                   \<comment> \<open>inside \<open>accept\<close> or \<open>create_connection\<close>\<close>
  | M_have nat                \<comment> \<open>a new connection, not yet in \<open>self.sock\<close>\<close>
  | M_run framer              \<comment> \<open>the loop head of \<open>_loop_tcp_to_can\<close>\<close>
  | M_recv nat framer         \<comment> \<open>inside \<open>recv\<close>\<close>
  | M_cleanup                 \<comment> \<open>before the block that closes \<open>self.sock\<close>\<close>
  | M_delay nat               \<comment> \<open>the reconnect delay, with the sleeps left\<close>
  | M_done

datatype main_pc =
    T_loop                    \<comment> \<open>in \<open>_loop_can_to_tcp\<close>, waiting for a frame\<close>
  | T_have can_message "byte list"        \<comment> \<open>a message and its payload, \<open>self.sock\<close> not yet read\<close>
  | T_send nat can_message "byte list"    \<comment> \<open>inside \<open>sendall\<close>\<close>
  | S_set | S_shutdown | S_close | S_bus | S_end

record bridge =
  stop_event :: bool
  b_sock :: "nat option"
  mgr :: mgr_pc
  main_th :: main_pc
  next_conn :: nat
  taken :: "can_message list"
  live :: "nat set"
  broken :: "nat set"
  sent :: "nat \<Rightarrow> can_message list"
  wire :: "nat \<Rightarrow> byte list"
  got :: "nat \<Rightarrow> byte list list"
  handed :: "nat \<Rightarrow> byte list list"

definition init_bridge :: bridge where
  "init_bridge = \<lparr>stop_event = False, b_sock = None, mgr = M_top, main_th = T_loop, next_conn = 0,
     taken = [], live = {}, broken = {}, sent = (\<lambda>_. []), wire = (\<lambda>_. []), got = (\<lambda>_. []), handed = (\<lambda>_. [])\<rparr>"

text \<open>\<open>if self.sock: self.sock.close()\<close>, exceptions of \<open>close\<close> ignored.\<close>

definition close_sock :: "bridge \<Rightarrow> bridge" where
  "close_sock b = b\<lparr>live := live b - set_option (b_sock b)\<rparr>"

subsection \<open>Steps\<close>

text \<open>
  The manager, for a role (\<open>server\<close>) and a number of sleeps between two connections
  (\<open>int(delay * 10)\<close>).
\<close>

inductive mgr_step :: "bool \<Rightarrow> nat \<Rightarrow> bridge \<Rightarrow> bridge \<Rightarrow> bool" for server :: bool and delay :: nat where
  m_enter: "mgr b = M_top \<Longrightarrow> \<not> stop_event b \<Longrightarrow> mgr_step server delay b (b\<lparr>mgr := M_wait\<rparr>)"
| m_exit: "mgr b = M_top \<Longrightarrow> stop_event b \<Longrightarrow> mgr_step server delay b (b\<lparr>mgr := M_done\<rparr>)"
| m_setup_fails: "mgr b = M_wait \<Longrightarrow> mgr_step server delay b (b\<lparr>mgr := M_cleanup\<rparr>)"
| m_wait_stopped: "mgr b = M_wait \<Longrightarrow> stop_event b \<Longrightarrow>
    mgr_step server delay b (b\<lparr>mgr := M_run new_framer\<rparr>)"
| m_call: "mgr b = M_wait \<Longrightarrow> \<not> stop_event b \<Longrightarrow> mgr_step server delay b (b\<lparr>mgr := M_block\<rparr>)"
| m_retry: "mgr b = M_block \<Longrightarrow> mgr_step server delay b (b\<lparr>mgr := M_wait\<rparr>)"
| m_call_fails: "mgr b = M_block \<Longrightarrow> mgr_step server delay b (b\<lparr>mgr := M_cleanup\<rparr>)"
| m_connected: "mgr b = M_block \<Longrightarrow>
    mgr_step server delay b
      (b\<lparr>mgr := M_have (next_conn b), next_conn := Suc (next_conn b), live := insert (next_conn b) (live b)\<rparr>)"
| m_keepalive_fails: "mgr b = M_have c \<Longrightarrow>
    mgr_step server delay b
      (b\<lparr>mgr := (if server then M_cleanup else M_wait), live := live b - {c}\<rparr>)"
| m_install: "mgr b = M_have c \<Longrightarrow>
    mgr_step server delay b ((close_sock b)\<lparr>b_sock := Some c, mgr := M_run new_framer\<rparr>)"
| m_loop_left: "mgr b = M_run f \<Longrightarrow> stop_event b \<or> b_sock b = None \<Longrightarrow>
    mgr_step server delay b (b\<lparr>mgr := M_cleanup\<rparr>)"
| m_loop_recv: "mgr b = M_run f \<Longrightarrow> \<not> stop_event b \<Longrightarrow> b_sock b = Some s \<Longrightarrow>
    mgr_step server delay b (b\<lparr>mgr := M_recv s f\<rparr>)"
| m_chunk: "mgr b = M_recv s f \<Longrightarrow> chunk \<noteq> [] \<Longrightarrow> drain (feed f chunk) = (rs, f') \<Longrightarrow>
    mgr_step server delay b
      (b\<lparr>mgr := M_run f', got := (got b)(s := got b s @ [chunk]), handed := (handed b)(s := handed b s @ rs)\<rparr>)"
| m_bad_chunk: "mgr b = M_recv s f \<Longrightarrow> chunk \<noteq> [] \<Longrightarrow> drain (feed f chunk) = (rs @ rs', f') \<Longrightarrow>
    mgr_step server delay b
      (b\<lparr>mgr := M_cleanup, got := (got b)(s := got b s @ [chunk]), handed := (handed b)(s := handed b s @ rs)\<rparr>)"
| m_recv_fails: "mgr b = M_recv s f \<Longrightarrow> mgr_step server delay b (b\<lparr>mgr := M_cleanup\<rparr>)"
| m_close: "mgr b = M_cleanup \<Longrightarrow>
    mgr_step server delay b ((close_sock b)\<lparr>b_sock := None, mgr := M_delay delay\<rparr>)"
| m_sleep: "mgr b = M_delay (Suc n) \<Longrightarrow> \<not> stop_event b \<Longrightarrow>
    mgr_step server delay b (b\<lparr>mgr := M_delay n\<rparr>)"
| m_woken: "mgr b = M_delay (Suc n) \<Longrightarrow> stop_event b \<Longrightarrow> mgr_step server delay b (b\<lparr>mgr := M_top\<rparr>)"
| m_again: "mgr b = M_delay 0 \<Longrightarrow> mgr_step server delay b (b\<lparr>mgr := M_top\<rparr>)"

text \<open>
  The main thread.  An exception that leaves the sending loop, and its regular end, lead to
  \<open>stop\<close>, which reads \<open>self.sock\<close> without the lock.
\<close>

inductive main_step :: "bool \<Rightarrow> bridge \<Rightarrow> bridge \<Rightarrow> bool" for use_fd :: bool where
  t_frame: "main_th b = T_loop \<Longrightarrow> \<not> stop_event b \<Longrightarrow> frame_from_can m use_fd = Inr p \<Longrightarrow>
    main_step use_fd b (b\<lparr>main_th := T_have m p, taken := taken b @ [m]\<rparr>)"
| t_no_peer: "main_th b = T_have m p \<Longrightarrow> b_sock b = None \<Longrightarrow> main_step use_fd b (b\<lparr>main_th := T_loop\<rparr>)"
| t_peer: "main_th b = T_have m p \<Longrightarrow> b_sock b = Some s \<Longrightarrow> main_step use_fd b (b\<lparr>main_th := T_send s m p\<rparr>)"
| t_sent: "main_th b = T_send s m p \<Longrightarrow> s \<in> live b \<Longrightarrow> s \<notin> broken b \<Longrightarrow>
    main_step use_fd b
      (b\<lparr>main_th := T_loop, sent := (sent b)(s := sent b s @ [m]), wire := (wire b)(s := wire b s @ p)\<rparr>)"
| t_send_fails: "main_th b = T_send s m p \<Longrightarrow> s \<in> live b \<Longrightarrow> s \<notin> broken b \<Longrightarrow> prefix q p \<Longrightarrow>
    main_step use_fd b
      (b\<lparr>main_th := T_loop, broken := insert s (broken b), sent := (sent b)(s := sent b s @ [m]),
         wire := (wire b)(s := wire b s @ q)\<rparr>)"
| t_send_dead: "main_th b = T_send s m p \<Longrightarrow> s \<notin> live b \<or> s \<in> broken b \<Longrightarrow>
    main_step use_fd b (b\<lparr>main_th := T_loop\<rparr>)"
| t_left: "main_th b = T_loop \<or> (\<exists>m p. main_th b = T_have m p) \<or> (\<exists>s m p. main_th b = T_send s m p) \<Longrightarrow>
    main_step use_fd b (b\<lparr>main_th := S_set\<rparr>)"
| s_set: "main_th b = S_set \<Longrightarrow> main_step use_fd b (b\<lparr>stop_event := True, main_th := S_shutdown\<rparr>)"
| s_shutdown: "main_th b = S_shutdown \<Longrightarrow> main_step use_fd b (b\<lparr>main_th := S_close\<rparr>)"
| s_close: "main_th b = S_close \<Longrightarrow> main_step use_fd b ((close_sock b)\<lparr>main_th := S_bus\<rparr>)"
| s_bus: "main_th b = S_bus \<Longrightarrow> main_step use_fd b (b\<lparr>main_th := S_end\<rparr>)"

inductive bridge_reach :: "bool \<Rightarrow> nat \<Rightarrow> bool \<Rightarrow> bridge \<Rightarrow> bool"
  for server :: bool and delay :: nat and use_fd :: bool where
  r_init: "bridge_reach server delay use_fd init_bridge"
| r_mgr: "bridge_reach server delay use_fd b \<Longrightarrow> mgr_step server delay b b' \<Longrightarrow> bridge_reach server delay use_fd b'"
| r_main: "bridge_reach server delay use_fd b \<Longrightarrow> main_step use_fd b b' \<Longrightarrow> bridge_reach server delay use_fd b'"

subsection \<open>The invariant\<close>

text \<open>
  What each point of the manager knows: outside the receiving loop there is no socket and no open
  connection; a new connection is alone and has no history; in the receiving loop every open
  connection is \<open>self.sock\<close>, and the framer holds the unfinished rest of exactly that
  connection's stream.
\<close>

definition in_sync :: "bridge \<Rightarrow> nat \<Rightarrow> framer \<Rightarrow> bool" where
  "in_sync b s f \<longleftrightarrow>
     handed b s = fst (split_records (concat (got b s))) \<and>
     f = \<lparr>fbuf = snd (split_records (concat (got b s)))\<rparr>"

fun mgr_ok :: "bridge \<Rightarrow> mgr_pc \<Rightarrow> bool" where
  "mgr_ok b (M_have c) \<longleftrightarrow> b_sock b = None \<and> live b \<subseteq> {c} \<and> c < next_conn b \<and> got b c = [] \<and> handed b c = []"
| "mgr_ok b (M_run f) \<longleftrightarrow> live b \<subseteq> set_option (b_sock b) \<and> (\<forall>s. b_sock b = Some s \<longrightarrow> in_sync b s f)"
| "mgr_ok b (M_recv s f) \<longleftrightarrow> b_sock b = Some s \<and> live b \<subseteq> {s} \<and> in_sync b s f"
| "mgr_ok b M_cleanup \<longleftrightarrow> live b \<subseteq> set_option (b_sock b)"
| "mgr_ok b _ \<longleftrightarrow> b_sock b = None \<and> live b = {}"

fun stopping :: "main_pc \<Rightarrow> bool" where
  "stopping S_shutdown = True"
| "stopping S_close = True"
| "stopping S_bus = True"
| "stopping S_end = True"
| "stopping _ = False"

definition history_ok :: "bridge \<Rightarrow> bool" where
  "history_ok b \<longleftrightarrow>
     (\<forall>c. prefix (handed b c) (fst (split_records (concat (got b c))))) \<and>
     (\<forall>c\<ge>next_conn b. got b c = [] \<and> handed b c = []) \<and>
     live b \<subseteq> {..<next_conn b} \<and> (\<forall>s. b_sock b = Some s \<longrightarrow> s < next_conn b)"

definition bridge_inv :: "bridge \<Rightarrow> bool" where
  "bridge_inv b \<longleftrightarrow> mgr_ok b (mgr b) \<and> (stop_event b \<longleftrightarrow> stopping (main_th b)) \<and> history_ok b"

lemma bridge_inv_init [inv_intros]: "bridge_inv init_bridge"
  by (simp add: bridge_inv_def init_bridge_def history_ok_def)

text \<open>The histories after a chunk.\<close>

lemma in_sync_chunk:
  assumes "in_sync b s f" "drain (feed f chunk) = (rs, f')"
  shows "handed b s @ rs = fst (split_records (concat (got b s @ [chunk])))"
    and "f' = \<lparr>fbuf = snd (split_records (concat (got b s @ [chunk])))\<rparr>"
  using assms drain_feed_rest [of "concat (got b s)" chunk rs f'] by (simp_all add: in_sync_def)

lemma in_sync_new: "got b c = [] \<Longrightarrow> handed b c = [] \<Longrightarrow> in_sync b c new_framer"
  by (simp add: in_sync_def new_framer_def split_records_incomplete)

lemma mgr_ok_main [simp]:
  "mgr_ok (b\<lparr>main_th := m\<rparr>) pc = mgr_ok b pc"
  "mgr_ok (b\<lparr>stop_event := e\<rparr>) pc = mgr_ok b pc"
  "mgr_ok (b\<lparr>wire := w\<rparr>) pc = mgr_ok b pc"
  "mgr_ok (b\<lparr>sent := ms\<rparr>) pc = mgr_ok b pc"
  "mgr_ok (b\<lparr>taken := ts\<rparr>) pc = mgr_ok b pc"
  "mgr_ok (b\<lparr>broken := cs\<rparr>) pc = mgr_ok b pc"
  "mgr_ok (b\<lparr>mgr := q\<rparr>) pc = mgr_ok b pc"
  by (cases pc; simp add: in_sync_def)+

lemma mgr_ok_close_main: "mgr_ok b pc \<Longrightarrow> mgr_ok (close_sock b) pc"
  by (cases pc) (auto simp: close_sock_def in_sync_def)

lemma main_step_inv [inv_intros]:
  assumes "main_step use_fd b b'" "bridge_inv b"
  shows "bridge_inv b'"
  using assms
proof (cases rule: main_step.cases)
  case s_close
  then show ?thesis
    using assms(2) mgr_ok_close_main [of b "mgr b"]
    by (auto simp: bridge_inv_def history_ok_def close_sock_def)
qed (auto simp: bridge_inv_def history_ok_def)

text \<open>A record handed on comes from the chunks received, also when a chunk stops half way.\<close>

lemma history_chunk:
  assumes "history_ok b" "in_sync b s f" "drain (feed f chunk) = (rs @ rs', f')" "b_sock b = Some s"
  shows "history_ok (b\<lparr>mgr := q, got := (got b)(s := got b s @ [chunk]),
     handed := (handed b)(s := handed b s @ rs)\<rparr>)"
proof -
  have "handed b s @ rs @ rs' = fst (split_records (concat (got b s @ [chunk])))"
    using in_sync_chunk(1) [OF assms(2,3)] .
  then have "prefix (handed b s @ rs) (fst (split_records (concat (got b s @ [chunk]))))"
    by (metis append.assoc prefix_def)
  then show ?thesis using assms(1,4) by (auto simp: history_ok_def)
qed

lemma mgr_step_inv [inv_intros]:
  assumes "mgr_step server delay b b'" "bridge_inv b"
  shows "bridge_inv b'"
  using assms
proof (cases rule: mgr_step.cases)
  case (m_install c)
  then show ?thesis
    using assms(2) by (auto simp: bridge_inv_def history_ok_def close_sock_def in_sync_def
      new_framer_def split_records_incomplete)
next
  case (m_chunk s f chunk rs f')
  have ok: "b_sock b = Some s" "live b \<subseteq> {s}" "in_sync b s f" "history_ok b"
    "stop_event b \<longleftrightarrow> stopping (main_th b)"
    using assms(2) m_chunk(2) by (simp_all add: bridge_inv_def)
  show ?thesis
    using ok m_chunk in_sync_chunk [OF ok(3) m_chunk(4)]
      history_chunk [OF ok(4,3), of chunk rs "[]" f' "M_run f'"]
    by (simp add: bridge_inv_def in_sync_def)
next
  case (m_bad_chunk s f chunk rs rs' f')
  have ok: "b_sock b = Some s" "live b \<subseteq> {s}" "in_sync b s f" "history_ok b"
    "stop_event b \<longleftrightarrow> stopping (main_th b)"
    using assms(2) m_bad_chunk(2) by (simp_all add: bridge_inv_def)
  show ?thesis
    using ok m_bad_chunk history_chunk [OF ok(4,3) m_bad_chunk(4) ok(1), of M_cleanup]
    by (simp add: bridge_inv_def)
next
  case (m_keepalive_fails c)
  then show ?thesis using assms(2) by (auto simp: bridge_inv_def history_ok_def)
next
  case m_close
  then show ?thesis using assms(2) by (auto simp: bridge_inv_def history_ok_def close_sock_def)
next
  case m_connected
  then show ?thesis using assms(2) by (auto simp: bridge_inv_def history_ok_def)
qed (auto simp: bridge_inv_def history_ok_def in_sync_def)

lemma reach_inv: "bridge_reach server delay use_fd b \<Longrightarrow> bridge_inv b"
  by (induction rule: bridge_reach.induct) (auto intro: inv_intros)

subsection \<open>Shutting down\<close>

text \<open>How many manager steps are left at most once \<open>stop_event\<close> is set.\<close>

fun mgr_rank :: "mgr_pc \<Rightarrow> nat" where
  "mgr_rank M_done = 0"
| "mgr_rank M_top = 1"
| "mgr_rank (M_delay n) = 2"
| "mgr_rank M_cleanup = 3"
| "mgr_rank (M_run f) = 4"
| "mgr_rank (M_recv s f) = 5"
| "mgr_rank M_wait = 5"
| "mgr_rank (M_have c) = 6"
| "mgr_rank M_block = 7"

text \<open>A run of both threads, counting the manager's steps.\<close>

inductive bridge_run :: "bool \<Rightarrow> nat \<Rightarrow> bool \<Rightarrow> nat \<Rightarrow> bridge \<Rightarrow> bridge \<Rightarrow> bool"
  for server :: bool and delay :: nat and use_fd :: bool where
  run_start: "bridge_run server delay use_fd 0 b b"
| run_mgr: "bridge_run server delay use_fd n b b1 \<Longrightarrow> mgr_step server delay b1 b2 \<Longrightarrow>
    bridge_run server delay use_fd (Suc n) b b2"
| run_main: "bridge_run server delay use_fd n b b1 \<Longrightarrow> main_step use_fd b1 b2 \<Longrightarrow> bridge_run server delay use_fd n b b2"

lemma mgr_step_rank:
  "mgr_step server delay b b' \<Longrightarrow> stop_event b \<Longrightarrow> mgr_rank (mgr b') < mgr_rank (mgr b) \<and> stop_event b'"
  by (cases rule: mgr_step.cases) (auto simp: close_sock_def)

lemma main_step_mgr: "main_step use_fd b b' \<Longrightarrow> mgr b' = mgr b \<and> (stop_event b \<longrightarrow> stop_event b')"
  by (cases rule: main_step.cases) (auto simp: close_sock_def)

lemma mgr_progress: "mgr b \<noteq> M_done \<Longrightarrow> \<exists>b'. mgr_step server delay b b'"
proof (cases "mgr b")
  case (M_run f)
  then show ?thesis by (cases "stop_event b \<or> b_sock b = None") (auto intro: mgr_step.intros)
next
  case (M_delay n)
  then show ?thesis by (cases n; cases "stop_event b") (auto intro: mgr_step.intros)
qed (cases "stop_event b"; auto intro: mgr_step.intros)+

lemma run_rank:
  "bridge_run server delay use_fd n b b' \<Longrightarrow> stop_event b \<Longrightarrow> n + mgr_rank (mgr b') \<le> mgr_rank (mgr b) \<and> stop_event b'"
proof (induction rule: bridge_run.induct)
  case (run_mgr n b b1 b2)
  then show ?case using mgr_step_rank [OF run_mgr.hyps(2)] by auto
next
  case (run_main n b b1 b2)
  then show ?case using main_step_mgr [OF run_main.hyps(2)] by auto
qed simp

subsection \<open>Properties\<close>


lemma reach_connected:
  "bridge_reach server delay use_fd (init_bridge\<lparr>mgr := M_have 0, next_conn := 1, live := {0}\<rparr>)"
proof -
  have "bridge_reach server delay use_fd (init_bridge\<lparr>mgr := M_wait\<rparr>)"
    by (rule r_mgr [OF r_init], rule m_enter) (simp_all add: init_bridge_def)
  then have "bridge_reach server delay use_fd (init_bridge\<lparr>mgr := M_wait, mgr := M_block\<rparr>)"
    by (rule r_mgr, intro m_call) (simp_all add: init_bridge_def)
  then have "bridge_reach server delay use_fd (init_bridge\<lparr>mgr := M_block\<rparr>)" by simp
  then show ?thesis
    by (rule r_mgr) (use m_connected [of "init_bridge\<lparr>mgr := M_block\<rparr>"] in \<open>simp add: init_bridge_def\<close>)
qed


text \<open>(C19) Connections do not mix.  In every reachable state, for either role, the records handed
  to the decoder for a connection are the first records of the stream received on that
  connection: bytes left over from an earlier connection never reach a later one.\<close>

theorem connections_do_not_mix:
  assumes "bridge_reach server delay use_fd b"
  shows "prefix (handed b c) (fst (split_records (concat (got b c))))"
  using reach_inv [OF assms] by (simp add: bridge_inv_def history_ok_def)

theorem connections_do_not_mix_witness:
  "prefix (handed (init_bridge\<lparr>mgr := M_have 0, next_conn := 1, live := {0}\<rparr>) 0) []"
  using connections_do_not_mix [OF reach_connected, of 0]
  by (simp add: init_bridge_def split_records_incomplete)



end
