(* ===== verification/Bridge_Loops.thy ===== *)
theory Bridge_Loops
  imports Frame_Codec Tcp_Framer "HOL-Library.Sublist"
begin

text \<open>
  The two forwarding loops of \<open>Bridge\<close> in \<open>can_tcp_bridge.py\<close>: \<open>_loop_can_to_tcp\<close> encodes what the
  CAN bus receives and writes it to the peer's socket, \<open>_loop_tcp_to_can\<close> cuts the peer's stream
  into records, decodes them and sends them on the bus.  Each pass of a loop meets its environment
  as a \<open>tick\<close>: whether \<open>stop_event\<close> is set, which socket \<open>self.sock\<close> holds, and what the
  blocking calls of this pass return or raise.  A loop over a finite list of ticks ends \<open>Running\<close>
  when the ticks are used up.  Log output is not modelled.  The socket, the bus and \<open>can.Message\<close>
  are the environment: their results are in the ticks or in the parameters \<open>mk\<close> and \<open>send\<close>.
\<close>

datatype loop_end = Running | Left | Raised exn

subsection \<open>CAN to TCP\<close>

record tx_tick =
  tx_stopped :: bool
  tx_recv :: "exn + can_message option"
  tx_sock :: "nat option"
  tx_sendall :: "exn + unit"

text \<open>What a pass of the loop does: go on, with a payload written to a socket or not, or leave.\<close>

datatype tx_result = Tx_next | Tx_sent nat "byte list" | Tx_break | Tx_raise exn

text \<open>The handlers around a pass: \<open>KeyboardInterrupt\<close> leaves the loop, an \<open>Exception\<close> is logged.\<close>

definition tx_handler :: "exn \<Rightarrow> tx_result" where
  "tx_handler e =
     (if exn_kind e = KeyboardInterrupt then Tx_break
      else if is_exception e then Tx_next else Tx_raise e)"

definition tx_pass :: "bool \<Rightarrow> tx_tick \<Rightarrow> tx_result" where
  "tx_pass use_fd_cfg t =
     (case tx_recv t of
        Inl e \<Rightarrow> tx_handler e
      | Inr None \<Rightarrow> Tx_next
      | Inr (Some msg) \<Rightarrow>
          (case frame_from_can msg use_fd_cfg of
             Inl e \<Rightarrow> tx_handler e
           | Inr payload \<Rightarrow>
               (case tx_sock t of
                  None \<Rightarrow> Tx_next
                | Some s \<Rightarrow>
                    (case tx_sendall t of
                       Inl e \<Rightarrow> (if is_os_error e then Tx_next else tx_handler e)
                     | Inr _ \<Rightarrow> Tx_sent s payload))))"

fun loop_can_to_tcp ::
    "bool \<Rightarrow> tx_tick list \<Rightarrow> (nat \<times> byte list) list \<Rightarrow> loop_end \<times> (nat \<times> byte list) list" where
  "loop_can_to_tcp use_fd_cfg [] out = (Running, out)"
| "loop_can_to_tcp use_fd_cfg (t # ts) out =
     (if tx_stopped t then (Left, out)
      else (case tx_pass use_fd_cfg t of
              Tx_next \<Rightarrow> loop_can_to_tcp use_fd_cfg ts out
            | Tx_sent s payload \<Rightarrow> loop_can_to_tcp use_fd_cfg ts (out @ [(s, payload)])
            | Tx_break \<Rightarrow> (Left, out)
            | Tx_raise e \<Rightarrow> (Raised e, out)))"

subsection \<open>TCP to CAN\<close>

record rx_tick =
  rx_stopped :: bool
  rx_sock :: "nat option"
  rx_recv :: "exn + byte list"

record 'b rx_state =
  rx_framer :: framer
  rx_bus :: 'b
  rx_sent :: "can_message list"

text \<open>
  The inner loop: take the complete records off the framer, decode each and hand it to
  \<open>bus.send\<close>.  A \<open>CanError\<close> is logged and the loop goes on, any other exception leaves it.
  \<open>rx_sent\<close> records the messages handed to \<open>bus.send\<close>.
\<close>

function handle_records ::
    "(message_args \<Rightarrow> exn + can_message) \<Rightarrow> (can_message \<Rightarrow> 'b \<Rightarrow> (exn + unit) \<times> 'b) \<Rightarrow>
     'b rx_state \<Rightarrow> (exn + unit) \<times> 'b rx_state" where
  "handle_records mk send st =
     (case next_record (rx_framer st) of
        (None, f) \<Rightarrow> (Inr (), st\<lparr>rx_framer := f\<rparr>)
      | (Some rec, f) \<Rightarrow>
          (case can_from_frame mk rec of
             Inl e \<Rightarrow>
               (if is_can_error e then handle_records mk send (st\<lparr>rx_framer := f\<rparr>)
                else (Inl e, st\<lparr>rx_framer := f\<rparr>))
           | Inr msg \<Rightarrow>
               (case send msg (rx_bus st) of
                  (Inl e, b) \<Rightarrow>
                    (if is_can_error e
                     then handle_records mk send
                       (st\<lparr>rx_framer := f, rx_bus := b, rx_sent := rx_sent st @ [msg]\<rparr>)
                     else (Inl e, st\<lparr>rx_framer := f, rx_bus := b, rx_sent := rx_sent st @ [msg]\<rparr>))
                | (Inr _, b) \<Rightarrow>
                    handle_records mk send
                      (st\<lparr>rx_framer := f, rx_bus := b, rx_sent := rx_sent st @ [msg]\<rparr>))))"
  by pat_completeness auto
termination
  by (relation "measure (\<lambda>(mk, send, st). length (fbuf (rx_framer st)))")
    (auto dest: tf.next_shrinks [OF sym])

declare handle_records.simps [simp del]

text \<open>One pass: receive a chunk (an empty one means the peer closed), feed it, handle records.\<close>

definition rx_pass ::
    "(message_args \<Rightarrow> exn + can_message) \<Rightarrow> (can_message \<Rightarrow> 'b \<Rightarrow> (exn + unit) \<times> 'b) \<Rightarrow>
     exn + byte list \<Rightarrow> 'b rx_state \<Rightarrow> (exn + unit) \<times> 'b rx_state" where
  "rx_pass mk send r st =
     (case r of
        Inl e \<Rightarrow> (Inl e, st)
      | Inr chunk \<Rightarrow>
          (if chunk = [] then (Inl (Exn ConnectionError ''Peer closed''), st)
           else handle_records mk send (st\<lparr>rx_framer := feed (rx_framer st) chunk\<rparr>)))"

fun loop_tcp_to_can ::
    "(message_args \<Rightarrow> exn + can_message) \<Rightarrow> (can_message \<Rightarrow> 'b \<Rightarrow> (exn + unit) \<times> 'b) \<Rightarrow>
     rx_tick list \<Rightarrow> 'b rx_state \<Rightarrow> loop_end \<times> 'b rx_state" where
  "loop_tcp_to_can mk send [] st = (Running, st)"
| "loop_tcp_to_can mk send (t # ts) st =
     (if rx_stopped t then (Left, st)
      else (case rx_sock t of
              None \<Rightarrow> (Left, st)
            | Some s \<Rightarrow>
                (case rx_pass mk send (rx_recv t) st of
                   (Inl e, st') \<Rightarrow> (if is_exception e then (Left, st') else (Raised e, st'))
                 | (Inr _, st') \<Rightarrow> loop_tcp_to_can mk send ts st')))"

text \<open>The method starts with a framer of its own for each connection.\<close>

definition start_tcp_to_can ::
    "(message_args \<Rightarrow> exn + can_message) \<Rightarrow> (can_message \<Rightarrow> 'b \<Rightarrow> (exn + unit) \<times> 'b) \<Rightarrow>
     rx_tick list \<Rightarrow> 'b \<Rightarrow> loop_end \<times> 'b rx_state" where
  "start_tcp_to_can mk send ts b =
     loop_tcp_to_can mk send ts \<lparr>rx_framer = new_framer, rx_bus = b, rx_sent = []\<rparr>"

subsection \<open>Specification of the receiving loop\<close>

text \<open>
  What a list of records means to the receiver: the messages it sends on the bus, and the
  exception that stops it, if any.
\<close>

fun decoded :: "(message_args \<Rightarrow> exn + can_message) \<Rightarrow> byte list list \<Rightarrow> can_message list \<times> exn option" where
  "decoded mk [] = ([], None)"
| "decoded mk (r # rs) =
     (case can_from_frame mk r of
        Inl e \<Rightarrow> (if is_can_error e then decoded mk rs else ([], Some e))
      | Inr m \<Rightarrow> (m # fst (decoded mk rs), snd (decoded mk rs)))"

lemma decoded_append:
  "decoded mk (xs @ ys) =
     (case snd (decoded mk xs) of
        None \<Rightarrow> (fst (decoded mk xs) @ fst (decoded mk ys), snd (decoded mk ys))
      | Some e \<Rightarrow> decoded mk xs)"
  by (induction xs) (auto split: sum.split option.split)

text \<open>A bus whose \<open>send\<close> raises nothing but \<open>CanError\<close>, as python-can documents.\<close>

definition bus_tolerant :: "(can_message \<Rightarrow> 'b \<Rightarrow> (exn + unit) \<times> 'b) \<Rightarrow> bool" where
  "bus_tolerant send \<longleftrightarrow> (\<forall>m b e b'. send m b = (Inl e, b') \<longrightarrow> is_can_error e)"

lemma handle_records_spec:
  assumes "bus_tolerant send" "handle_records mk send st = (res, st')"
  defines "rs \<equiv> fst (split_records (fbuf (rx_framer st)))"
  shows "rx_sent st' = rx_sent st @ fst (decoded mk rs)"
    and "snd (decoded mk rs) = None \<Longrightarrow>
           res = Inr () \<and> fbuf (rx_framer st') = snd (split_records (fbuf (rx_framer st)))"
    and "snd (decoded mk rs) = Some e \<Longrightarrow> res = Inl e"
proof -
  have "rx_sent st' = rx_sent st @ fst (decoded mk rs) \<and>
    (case snd (decoded mk rs) of
       None \<Rightarrow> res = Inr () \<and> fbuf (rx_framer st') = snd (split_records (fbuf (rx_framer st)))
     | Some e \<Rightarrow> res = Inl e)"
    using assms(1,2) unfolding rs_def
  proof (induction mk send st arbitrary: res st' rule: handle_records.induct)
    case (1 mk send st)
    show ?case
    proof (cases rule: tf.next_split_cases [of "rx_framer st"])
      case none
      with "1.prems" show ?thesis by (auto simp: handle_records.simps [of mk send st])
    next
      case (some r f)
      note nxt = some(1)
      note ih = "1.IH" [OF nxt [symmetric] refl]
      note run = "1.prems"(2) [unfolded handle_records.simps [of mk send st] nxt prod.case option.case]
      show ?thesis
      proof (cases "can_from_frame mk r")
        case (Inl e)
        then show ?thesis
          using run ih(1) [OF Inl _ "1.prems"(1)] some(3)
          by (cases "is_can_error e") (auto split: option.splits)
      next
        case (Inr m)
        obtain o' b where o': "send m (rx_bus st) = (o', b)" by fastforce
        show ?thesis
        proof (cases o')
          case (Inl e)
          then have "is_can_error e" using "1.prems"(1) o' by (auto simp: bus_tolerant_def)
          then show ?thesis
            using run ih(2) [OF Inr o' [symmetric] Inl _ "1.prems"(1)] some(3) Inr o' Inl
            by (auto split: option.splits)
        next
          case (Inr u)
          then show ?thesis
            using run ih(3) [OF \<open>can_from_frame mk r = Inr m\<close> o' [symmetric] Inr "1.prems"(1)]
              some(3) \<open>can_from_frame mk r = Inr m\<close> o'
            by (auto split: option.splits)
        qed
      qed
    qed
  qed
  then show "rx_sent st' = rx_sent st @ fst (decoded mk rs)"
    "snd (decoded mk rs) = None \<Longrightarrow>
       res = Inr () \<and> fbuf (rx_framer st') = snd (split_records (fbuf (rx_framer st)))"
    "snd (decoded mk rs) = Some e \<Longrightarrow> res = Inl e"
    by simp_all
qed

text \<open>A tick in which the loop is connected and the socket returns a chunk.\<close>

definition live_tick :: "rx_tick \<Rightarrow> bool" where
  "live_tick t \<longleftrightarrow> \<not> rx_stopped t \<and> rx_sock t \<noteq> None \<and>
     (case rx_recv t of Inr c \<Rightarrow> c \<noteq> [] | Inl _ \<Rightarrow> False)"

definition tick_chunk :: "rx_tick \<Rightarrow> byte list" where
  "tick_chunk t = (case rx_recv t of Inr c \<Rightarrow> c | Inl _ \<Rightarrow> [])"

lemma loop_tcp_to_can_live:
  assumes "bus_tolerant send" "\<forall>t\<in>set ts. live_tick t" "incomplete (fbuf (rx_framer st))"
    and "snd (decoded mk (fst (split_records (fbuf (rx_framer st) @ concat (map tick_chunk ts))))) = None"
  shows "\<exists>st'. loop_tcp_to_can mk send ts st = (Running, st') \<and>
     rx_sent st' = rx_sent st @
       fst (decoded mk (fst (split_records (fbuf (rx_framer st) @ concat (map tick_chunk ts)))))"
  using assms(2-4)
proof (induction ts arbitrary: st)
  case Nil
  then show ?case by (simp add: split_records_incomplete)
next
  case (Cons t ts)
  obtain c s where t: "\<not> rx_stopped t" "rx_sock t = Some s" "rx_recv t = Inr c" "c \<noteq> []"
    using Cons.prems(1) by (auto simp: live_tick_def split: sum.splits)
  let ?f = "fbuf (rx_framer st)"
  let ?fed = "st\<lparr>rx_framer := feed (rx_framer st) c\<rparr>"
  have fed: "fbuf (rx_framer ?fed) = ?f @ c" by (simp add: feed_def)
  obtain res st1 where h: "handle_records mk send ?fed = (res, st1)" by fastforce
  note spec = handle_records_spec [OF assms(1) h, unfolded fed]
  have tc: "tick_chunk t = c" using t(3) by (simp add: tick_chunk_def)
  have app: "fst (split_records (?f @ c @ concat (map tick_chunk ts))) =
      fst (split_records (?f @ c)) @
      fst (split_records (snd (split_records (?f @ c)) @ concat (map tick_chunk ts)))"
    using split_records_append [of "?f @ c" "concat (map tick_chunk ts)"] by simp
  have prem: "snd (decoded mk (fst (split_records (?f @ c @ concat (map tick_chunk ts))))) = None"
    using Cons.prems(3) by (simp add: tc)
  have none: "snd (decoded mk (fst (split_records (?f @ c)))) = None"
    using prem unfolding app decoded_append by (auto split: option.splits)
  then have st1: "res = Inr ()" "fbuf (rx_framer st1) = snd (split_records (?f @ c))"
    "rx_sent st1 = rx_sent st @ fst (decoded mk (fst (split_records (?f @ c))))"
    using spec by auto
  have tail: "snd (decoded mk (fst (split_records
       (fbuf (rx_framer st1) @ concat (map tick_chunk ts))))) = None"
    using prem none unfolding app decoded_append by (simp add: st1(2))
  obtain st2 where "loop_tcp_to_can mk send ts st1 = (Running, st2)"
    "rx_sent st2 = rx_sent st1 @ fst (decoded mk (fst (split_records
       (fbuf (rx_framer st1) @ concat (map tick_chunk ts)))))"
    using Cons.IH [OF _ _ tail] Cons.prems(1) st1(2) by (auto simp: split_records_rest_incomplete)
  then show ?case
    using t h st1 none by (auto simp: rx_pass_def tc app decoded_append)
qed

subsection \<open>Specification of the sending loop\<close>

definition received_messages :: "tx_tick list \<Rightarrow> can_message list" where
  "received_messages ts =
     concat (map (\<lambda>t. case tx_recv t of Inr (Some m) \<Rightarrow> [m] | _ \<Rightarrow> []) ts)"

lemma received_messages_simps [simp]:
  "received_messages [] = []"
  "received_messages (t # ts) =
     (case tx_recv t of Inr (Some m) \<Rightarrow> [m] | _ \<Rightarrow> []) @ received_messages ts"
  by (simp_all add: received_messages_def)

lemma tx_pass_sent:
  "tx_pass fd t = Tx_sent s p \<Longrightarrow>
     \<exists>m. tx_recv t = Inr (Some m) \<and> frame_from_can m fd = Inr p \<and> tx_sock t = Some s"
  by (auto simp: tx_pass_def tx_handler_def split: sum.splits option.splits if_splits)

text \<open>
  Everything the loop writes to a socket is the encoding of a message the bus received; the
  messages are written in the order received, each at most once.
\<close>

lemma loop_can_to_tcp_sent:
  assumes "loop_can_to_tcp fd ts out = (r, out')"
  shows "\<exists>new ms. out' = out @ new \<and> subseq ms (received_messages ts) \<and>
     list_all2 (\<lambda>(s, p) m. frame_from_can m fd = Inr p) new ms"
  using assms
proof (induction fd ts out rule: loop_can_to_tcp.induct)
  case (1 fd out)
  then show ?case by auto
next
  case (2 fd t ts out)
  show ?case
  proof (cases "tx_stopped t")
    case True
    with "2.prems" show ?thesis by auto
  next
    case False
    show ?thesis
    proof (cases "tx_pass fd t")
      case Tx_next
      then obtain new ms where "out' = out @ new" "subseq ms (received_messages ts)"
        "list_all2 (\<lambda>(s, p) m. frame_from_can m fd = Inr p) new ms"
        using "2.IH"(1) [OF False Tx_next] "2.prems" False by auto
      then show ?thesis by (intro exI [of _ new] exI [of _ ms]) (auto intro: list_emb_append2)
    next
      case (Tx_sent s p)
      then obtain new ms where ih: "out' = (out @ [(s, p)]) @ new" "subseq ms (received_messages ts)"
        "list_all2 (\<lambda>(s, p) m. frame_from_can m fd = Inr p) new ms"
        using "2.IH"(2) [OF False Tx_sent] "2.prems" False by auto
      obtain m where "tx_recv t = Inr (Some m)" "frame_from_can m fd = Inr p"
        using tx_pass_sent [OF Tx_sent] by blast
      with ih show ?thesis
        by (intro exI [of _ "(s, p) # new"] exI [of _ "m # ms"]) auto
    qed (use "2.prems" False in auto)
  qed
qed

subsection \<open>From bus to bus\<close>

lemma subseq_in_set: "subseq xs ys \<Longrightarrow> x \<in> set xs \<Longrightarrow> x \<in> set ys"
  by (auto elim: list_emb_set)

lemma list_all2_filter_left:
  "list_all2 P xs ys \<Longrightarrow> \<exists>zs. subseq zs ys \<and> list_all2 P (filter Q xs) zs"
proof (induction xs ys rule: list_all2_induct)
  case Nil
  then show ?case by auto
next
  case (Cons x xs y ys)
  then obtain zs where "subseq zs ys" "list_all2 P (filter Q xs) zs" by blast
  with Cons.hyps show ?case
    by (cases "Q x") (auto intro: exI [of _ "y # zs"] exI [of _ zs] list_emb_append2)
qed

lemma split_records_prefix:
  "prefix bs cs \<Longrightarrow> prefix (fst (split_records bs)) (fst (split_records cs))"
  by (auto simp: prefix_def split_records_append [of bs])

lemma decoded_prefix:
  assumes "prefix rs ss" "snd (decoded mk ss) = None"
  shows "snd (decoded mk rs) = None \<and> prefix (fst (decoded mk rs)) (fst (decoded mk ss))"
  using assms by (auto simp: prefix_def decoded_append split: option.splits)

text \<open>The payloads the sender wrote, as records, and what the receiver makes of them.\<close>

lemma sent_records:
  assumes "list_all2 (\<lambda>(s, p) m. frame_from_can m fd = Inr p) new ms"
    and "\<forall>m\<in>set ms. \<not> is_remote_frame m" "keeps_content mk"
  shows "\<exists>rs ms'. map snd new = map wire_record rs \<and> (\<forall>r\<in>set rs. record_ok r) \<and>
     decoded mk rs = (ms', None) \<and>
     map (\<lambda>m. wire_args m False) ms' = map (\<lambda>m. wire_args m fd) ms"
  using assms(1,2)
proof (induction new ms rule: list_all2_induct)
  case Nil
  then show ?case by auto
next
  case (Cons x new m ms)
  obtain rs ms' where ih: "map snd new = map wire_record rs" "\<forall>r\<in>set rs. record_ok r"
    "decoded mk rs = (ms', None)" "map (\<lambda>m. wire_args m False) ms' = map (\<lambda>m. wire_args m fd) ms"
    using Cons.IH Cons.prems by auto
  have enc: "frame_from_can m fd = Inr (snd x)" using Cons.hyps(1) by (simp add: case_prod_unfold)
  then have len: "length (message_bytes m) \<le> 64"
    by (auto simp: frame_from_can_def Let_def split: if_splits)
  have nr: "\<not> is_remote_frame m" using Cons.prems by simp
  obtain body m' where body: "frame_from_can m fd = Inr (wire_record body)"
    "can_from_frame mk body = Inr m'" "wire_args m' False = wire_args m fd"
    unfolding wire_record_def by (rule forwarding_content [OF len nr assms(3)])
  then have snd: "snd x = wire_record body" using enc by simp
  have "length (snd x) \<le> 72" using frame_from_can_length [OF enc] len by simp
  then have "record_ok body" by (simp add: snd wire_record_def record_ok_def)
  with ih body snd show ?case
    by (intro exI [of _ "body # rs"] exI [of _ "m' # ms'"]) simp
qed

subsection \<open>Properties\<close>


definition heartbeat_181 :: can_message where
  "heartbeat_181 = \<lparr>arbitration_id = 0x181, is_extended_id = False, is_remote_frame = False,
     is_fd = None, bitrate_switch = None, msg_data = Some [5]\<rparr>"

lemma heartbeat_181_frame: "frame_from_can heartbeat_181 False = Inr [0, 7, 0, 0, 1, 0x81, 0, 1, 5]"
  by (simp add: heartbeat_181_def frame_from_can_def RECORD_HDR_def can_id_mask frame_flags_value
    message_bytes_def attr_or_False_def be_bytes_numeral Let_def)


text \<open>(C25) A record that does not decode ends the connection.  When the complete records of a pass
  decode up to one that fails with an exception other than \<open>CanError\<close> (every malformed record
  does: parse_frame_error_iff), the messages before it have been sent, nothing after it is, and the loop is left,
  whatever would arrive later.\<close>

theorem malformed_record_ends_loop:
  assumes "bus_tolerant send"
    and "\<not> rx_stopped t" "rx_sock t = Some s" "rx_recv t = Inr chunk" "chunk \<noteq> []"
    and "decoded mk (fst (split_records (fbuf (rx_framer st) @ chunk))) = (ms, Some e)" "is_exception e"
  shows "\<exists>st'. loop_tcp_to_can mk send (t # ts) st = (Left, st') \<and> rx_sent st' = rx_sent st @ ms"
proof -
  let ?fed = "st\<lparr>rx_framer := feed (rx_framer st) chunk\<rparr>"
  obtain res st' where h: "handle_records mk send ?fed = (res, st')" by fastforce
  have "rx_sent st' = rx_sent st @ ms" "res = Inl e"
    using handle_records_spec(1,3) [OF assms(1) h] assms(6) by (simp_all add: feed_def)
  then show ?thesis using assms h by (simp add: rx_pass_def)
qed

theorem malformed_record_ends_loop_witness:
  "\<exists>st'. loop_tcp_to_can (\<lambda>a. Inr (args_message a)) (\<lambda>m b. (Inr (), b))
      [\<lparr>rx_stopped = False, rx_sock = Some 3, rx_recv = Inr [0, 7, 0, 0, 1, 0x81, 0, 1, 5, 0, 0]\<rparr>]
      \<lparr>rx_framer = new_framer, rx_bus = (), rx_sent = []\<rparr> = (Left, st') \<and> length (rx_sent st') = 1"
  using malformed_record_ends_loop [where send = "\<lambda>m b. (Inr (), b)" and s = 3 and ts = "[]" and
      mk = "\<lambda>a. Inr (args_message a)" and e = "Exn ValueError ''short frame header''" and
      chunk = "[0, 7, 0, 0, 1, 0x81, 0, 1, 5, 0, 0]" and
      st = "\<lparr>rx_framer = new_framer, rx_bus = (), rx_sent = []\<rparr>" and
      t = "\<lparr>rx_stopped = False, rx_sock = Some 3, rx_recv = Inr [0, 7, 0, 0, 1, 0x81, 0, 1, 5, 0, 0]\<rparr>"]
  by (force simp: bus_tolerant_def new_framer_def split_records.simps incomplete_def be_int_def
    can_from_frame_def parse_frame_def HDR_NO_LEN_def)

subsection \<open>The sending loop forwards everything it can\<close>

definition tx_forwarded :: "bool \<Rightarrow> tx_tick \<Rightarrow> (nat \<times> byte list) list" where
  "tx_forwarded fd t =
     (case (tx_recv t, tx_sock t, tx_sendall t) of
        (Inr (Some m), Some s, Inr _) \<Rightarrow>
          (case frame_from_can m fd of Inr p \<Rightarrow> [(s, p)] | Inl _ \<Rightarrow> [])
      | _ \<Rightarrow> [])"

definition tx_undisturbed :: "tx_tick \<Rightarrow> bool" where
  "tx_undisturbed t \<longleftrightarrow> \<not> tx_stopped t \<and>
     (case tx_recv t of Inl e \<Rightarrow> is_exception e | Inr _ \<Rightarrow> True) \<and>
     (case tx_sendall t of Inl e \<Rightarrow> is_exception e | Inr _ \<Rightarrow> True)"

lemma is_exception_not_interrupt: "is_exception e \<Longrightarrow> exn_kind e \<noteq> KeyboardInterrupt"
  by (cases e rule: is_exception.cases) auto

lemma tx_handler_exception: "is_exception e \<Longrightarrow> tx_handler e = Tx_next"
  using is_exception_not_interrupt by (auto simp: tx_handler_def)

lemma frame_error_handler: "frame_from_can m fd = Inl e \<Longrightarrow> tx_handler e = Tx_next"
  by (intro tx_handler_exception) (auto simp: frame_from_can_error_iff)

lemma tx_pass_undisturbed:
  "tx_undisturbed t \<Longrightarrow> tx_pass fd t = (case tx_forwarded fd t of [] \<Rightarrow> Tx_next | (s, p) # _ \<Rightarrow> Tx_sent s p)"
  by (auto simp: tx_undisturbed_def tx_pass_def tx_forwarded_def tx_handler_exception
    frame_error_handler split: sum.splits option.splits)



end
