(* ===== verification/Bridge_System.thy ===== *)
theory Bridge_System
  imports Bridge_Threads Bridge_Loops
begin

text \<open>
  The bridge as a whole.  First, that a pass of either loop of \<open>Bridge_Loops\<close> is a sequence of
  steps of its thread in \<open>Bridge_Threads\<close>, with the other thread acting while it blocks: the steps
  are what the loops do.  Then two bridges connected by TCP, each with its threads, reconnections
  and failures: what arrives is what was sent.
\<close>

subsection \<open>What a connection carries\<close>

definition payload :: "bool \<Rightarrow> can_message \<Rightarrow> byte list" where
  "payload use_fd m = (case frame_from_can m use_fd of Inl e \<Rightarrow> [] | Inr p \<Rightarrow> p)"

definition encodable :: "bool \<Rightarrow> can_message \<Rightarrow> bool" where
  "encodable use_fd m \<longleftrightarrow> frame_from_can m use_fd = Inr (payload use_fd m)"

lemma frame_encodable: "frame_from_can m use_fd = Inr p \<Longrightarrow> encodable use_fd m \<and> payload use_fd m = p"
  by (simp add: encodable_def payload_def)

text \<open>The message the main thread has in hand: it has been received, and not been sent yet.\<close>

fun in_hand :: "main_pc \<Rightarrow> (can_message \<times> byte list) option" where
  "in_hand (T_have m p) = Some (m, p)"
| "in_hand (T_send s m p) = Some (m, p)"
| "in_hand _ = None"

definition sender_inv :: "bool \<Rightarrow> bridge \<Rightarrow> bool" where
  "sender_inv use_fd b \<longleftrightarrow>
     (\<forall>c. list_all (encodable use_fd) (sent b c) \<and>
        prefix (wire b c) (concat (map (payload use_fd) (sent b c))) \<and>
        (c \<notin> broken b \<longrightarrow> wire b c = concat (map (payload use_fd) (sent b c)))) \<and>
     (case in_hand (main_th b) of
        None \<Rightarrow> \<forall>c. subseq (sent b c) (taken b)
      | Some (m, p) \<Rightarrow> frame_from_can m use_fd = Inr p \<and>
          (\<exists>ts. taken b = ts @ [m] \<and> (\<forall>c. subseq (sent b c) ts)))"

lemma subseq_snocI: "\<forall>c. subseq (f c) ts \<Longrightarrow> subseq (f c) (ts @ [m])"
  by (blast intro: list_emb_prefix)

lemma sender_order:
  assumes "sender_inv use_fd b"
  shows "subseq (sent b c) (taken b)"
proof (cases "in_hand (main_th b)")
  case None
  then show ?thesis using assms by (simp add: sender_inv_def)
next
  case (Some mp)
  then obtain ts where "taken b = ts @ [fst mp]" "subseq (sent b c) ts"
    using assms by (auto simp: sender_inv_def split: prod.splits)
  then show ?thesis by (simp add: list_emb_prefix)
qed

lemma main_step_sender:
  assumes "main_step use_fd b b'" "sender_inv use_fd b"
  shows "sender_inv use_fd b'"
  using assms
proof (cases rule: main_step.cases)
  case (t_sent s m p)
  then show ?thesis
    using assms(2) frame_encodable [of m use_fd p] by (auto simp: sender_inv_def intro: subseq_snocI)
next
  case (t_send_fails s m p q)
  then show ?thesis
    using assms(2) frame_encodable [of m use_fd p] by (auto simp: sender_inv_def intro: subseq_snocI)
next
  case t_left
  then show ?thesis
    using assms(2) sender_order [OF assms(2)] by (simp add: sender_inv_def)
qed (auto simp: sender_inv_def close_sock_def intro: subseq_snocI)

lemma mgr_step_sender:
  "mgr_step server delay b b' \<Longrightarrow> main_th b' = main_th b \<and> taken b' = taken b \<and> sent b' = sent b \<and>
     wire b' = wire b \<and> broken b' = broken b"
  by (cases rule: mgr_step.cases) (auto simp: close_sock_def)

lemma reach_sender: "bridge_reach server delay use_fd b \<Longrightarrow> sender_inv use_fd b"
proof (induction rule: bridge_reach.induct)
  case r_init
  then show ?case by (simp add: sender_inv_def init_bridge_def)
next
  case (r_mgr b b')
  then show ?case using mgr_step_sender [OF r_mgr.hyps(2)] by (auto simp: sender_inv_def split: option.splits)
next
  case (r_main b b')
  then show ?case using main_step_sender by blast
qed

subsection \<open>Two bridges\<close>

lemma sent_payloads:
  assumes "list_all (encodable use_fd) ms"
  shows "list_all2 (\<lambda>(s, p) m. frame_from_can m use_fd = Inr p) (map (\<lambda>m. (c, payload use_fd m)) ms) ms"
  using assms by (induction ms) (auto simp: encodable_def)



text \<open>A state in which connection 0 has been made and installed.\<close>

definition connected_bridge :: bridge where
  "connected_bridge = init_bridge\<lparr>mgr := M_run new_framer, next_conn := 1, live := {0}, b_sock := Some 0\<rparr>"

lemma reach_installed: "bridge_reach server delay use_fd connected_bridge"
  using r_mgr [OF reach_connected m_install [where c = 0]]
  by (simp add: connected_bridge_def close_sock_def init_bridge_def)

lemma reach_sent:
  assumes "frame_from_can m use_fd = Inr p"
  shows "bridge_reach server delay use_fd (connected_bridge\<lparr>taken := [m], sent := (\<lambda>_. [])(0 := [m]), wire := (\<lambda>_. [])(0 := p)\<rparr>)"
proof -
  have 1: "bridge_reach server delay use_fd (connected_bridge\<lparr>main_th := T_have m p, taken := [m]\<rparr>)"
    using r_main [OF reach_installed t_frame [OF _ _ assms]] by (simp add: connected_bridge_def init_bridge_def)
  have 2: "bridge_reach server delay use_fd (connected_bridge\<lparr>main_th := T_send 0 m p, taken := [m]\<rparr>)"
    using r_main [OF 1 t_peer [where s = 0]] by (simp add: connected_bridge_def init_bridge_def)
  show ?thesis
    using r_main [OF 2 t_sent [where s = 0]] by (simp add: connected_bridge_def init_bridge_def fun_upd_def)
qed

lemma reach_received:
  assumes "drain (feed new_framer chunk) = (rs, f)" "chunk \<noteq> []"
  shows "bridge_reach server delay use_fd (connected_bridge\<lparr>mgr := M_run f, got := (\<lambda>_. [])(0 := [chunk]),
     handed := (\<lambda>_. [])(0 := rs)\<rparr>)"
proof -
  have 1: "bridge_reach server delay use_fd (connected_bridge\<lparr>mgr := M_recv 0 new_framer\<rparr>)"
    using r_mgr [OF reach_installed m_loop_recv [where s = 0 and f = new_framer]]
    by (simp add: connected_bridge_def init_bridge_def)
  show ?thesis
    using r_mgr [OF 1 m_chunk [OF _ assms(2,1), where s = 0]]
    by (simp add: connected_bridge_def init_bridge_def)
qed



subsection \<open>The loops take the steps of their threads\<close>

text \<open>The other thread does not move this one's program counter.\<close>

lemma main_steps_mgr: "(main_step use_fd)\<^sup>*\<^sup>* b b' \<Longrightarrow> mgr b' = mgr b"
  by (induction rule: rtranclp_induct) (auto dest: main_step_mgr)

lemma mgr_steps_main: "(mgr_step server delay)\<^sup>*\<^sup>* b b' \<Longrightarrow> main_th b' = main_th b"
  by (induction rule: rtranclp_induct) (auto dest: mgr_step_sender)

text \<open>The records handed to the decoder: up to and including the first that stops the loop.\<close>

lemma head_decoded:
  assumes "snd (decoded mk [r]) = None"
  shows "\<exists>d. \<forall>xs. decoded mk (r # xs) = (d @ fst (decoded mk xs), snd (decoded mk xs))"
proof (intro exI allI)
  fix xs
  show "decoded mk (r # xs) = (fst (decoded mk [r]) @ fst (decoded mk xs), snd (decoded mk xs))"
    using assms decoded_append [of mk "[r]" xs] by (simp only: append_Cons append_Nil option.case)
qed

lemma decoded_stop:
  "snd (decoded mk rs) = Some e \<Longrightarrow>
     \<exists>pre r post. rs = pre @ r # post \<and> snd (decoded mk pre) = None \<and> decoded mk (pre @ [r]) = decoded mk rs"
proof (induction rs)
  case (Cons r rs)
  show ?case
  proof (cases "snd (decoded mk [r]) = None")
    case True
    then obtain d where split: "\<And>xs. decoded mk (r # xs) = (d @ fst (decoded mk xs), snd (decoded mk xs))"
      using head_decoded [OF True] by blast
    have "snd (decoded mk rs) = Some e" using Cons.prems unfolding split by simp
    then obtain pre r' post where *: "rs = pre @ r' # post" "snd (decoded mk pre) = None"
      "decoded mk (pre @ [r']) = decoded mk rs" using Cons.IH by blast
    show ?thesis
    proof (intro exI conjI)
      show "r # rs = (r # pre) @ r' # post" using *(1) by simp
      show "snd (decoded mk (r # pre)) = None" unfolding split using *(2) by simp
      show "decoded mk ((r # pre) @ [r']) = decoded mk (r # rs)" unfolding append_Cons split *(3) ..
    qed
  next
    case False
    then have *: "decoded mk ([] @ [r]) = decoded mk (r # rs)"
      using decoded_append [of mk "[r]" rs] by (auto simp del: decoded.simps)
    have "r # rs = [] @ r # rs" "snd (decoded mk []) = None" by simp_all
    with * show ?thesis by blast
  qed
qed simp

lemma decoded_butlast: "snd (decoded mk rs) = None \<Longrightarrow> snd (decoded mk (butlast rs)) = None"
  using decoded_append [of mk "butlast rs" "[last rs]"] by (cases "rs = []") (auto split: option.splits)

text \<open>
  What a pass does when it gets past the guards: with the thread inside \<open>recv\<close>, one step leads to
  the loop head or to the end of the connection.
\<close>

definition receive_step ::
    "bool \<Rightarrow> nat \<Rightarrow> (message_args \<Rightarrow> exn + can_message) \<Rightarrow> nat \<Rightarrow> bridge \<Rightarrow> 'b rx_state \<Rightarrow> loop_end \<times> 'b rx_state \<Rightarrow> bool" where
  "receive_step server delay mk s b st end \<longleftrightarrow>
     (\<exists>b' rs. mgr_step server delay b b' \<and> handed b' s = handed b s @ rs \<and>
        snd (decoded mk (butlast rs)) = None \<and> rx_sent (snd end) = rx_sent st @ fst (decoded mk rs) \<and>
        (fst end = Running \<and> mgr b' = M_run (rx_framer (snd end)) \<or> fst end = Left \<and> mgr b' = M_cleanup))"

lemma receive_step_fails:
  assumes "mgr b = M_recv s f"
  shows "receive_step server delay mk s b st (Left, st)"
  unfolding receive_step_def using m_recv_fails [OF assms]
  by (intro exI [of _ "b\<lparr>mgr := M_cleanup\<rparr>"] exI [of _ "[]"]) simp

lemma receive_step_chunk:
  assumes pc: "mgr b = M_recv s (rx_framer st)" and chunk: "chunk \<noteq> []" and send: "bus_tolerant send"
    and run: "handle_records mk send (st\<lparr>rx_framer := feed (rx_framer st) chunk\<rparr>) = (r, st')"
  shows "receive_step server delay mk s b st (case r of Inl e \<Rightarrow> Left | Inr _ \<Rightarrow> Running, st')"
proof -
  let ?f = "feed (rx_framer st) chunk"
  let ?rs = "fst (split_records (fbuf ?f))"
  note spec = handle_records_spec [OF send run, simplified]
  have dr: "drain ?f = (?rs, ?f\<lparr>fbuf := snd (split_records (fbuf ?f))\<rparr>)" by (rule drain_split)
  show ?thesis
  proof (cases "snd (decoded mk ?rs)")
    case None
    then have "r = Inr ()" "rx_framer st' = ?f\<lparr>fbuf := snd (split_records (fbuf ?f))\<rparr>"
      using spec(2) by auto
    then show ?thesis
      unfolding receive_step_def using m_chunk [OF pc chunk dr] spec(1) decoded_butlast [OF None] by fastforce
  next
    case (Some e)
    obtain pre x post where rs: "?rs = (pre @ [x]) @ post" "snd (decoded mk pre) = None"
      "decoded mk (pre @ [x]) = decoded mk ?rs" using decoded_stop [OF Some] by auto
    have "r = Inl e" using spec(3) Some by simp
    then show ?thesis
      unfolding receive_step_def using m_bad_chunk [OF pc chunk dr [unfolded rs(1)]] rs(2,3) spec(1)
      by (intro exI [of _ "b\<lparr>mgr := M_cleanup, got := (got b)(s := got b s @ [chunk]),
          handed := (handed b)(s := handed b s @ pre @ [x])\<rparr>"] exI [of _ "pre @ [x]"]) simp
  qed
qed

text \<open>(C16) The receiving loop is the manager's.  Let a pass of \<open>_loop_tcp_to_can\<close> find the manager
  thread at the loop head with the loop's framer.  When the event is set or there is no socket, it
  leaves the loop, which is a step.  Otherwise entering \<open>recv\<close> is a step, and whatever the main
  thread does meanwhile, what the pass does with the result of \<open>recv\<close> is one more step, to the
  loop head with the framer of the pass, or out of the loop: the records the step hands on are
  those the pass has decoded, and nothing is handed on after one that stops the loop.\<close>

theorem receive_pass_refines:
  assumes pc: "mgr b = M_run (rx_framer st)" and guards: "rx_stopped t = stop_event b" "rx_sock t = b_sock b"
    and calm: "bus_tolerant send" "\<forall>e. rx_recv t = Inl e \<longrightarrow> is_exception e"
    and run: "loop_tcp_to_can mk send [t] st = end" "\<forall>e. fst end \<noteq> Raised e"
  shows "case (stop_event b, b_sock b) of
      (False, Some s) \<Rightarrow>
        mgr_step server delay b (b\<lparr>mgr := M_recv s (rx_framer st)\<rparr>) \<and>
        (\<forall>b'. (main_step use_fd)\<^sup>*\<^sup>* (b\<lparr>mgr := M_recv s (rx_framer st)\<rparr>) b' \<longrightarrow>
           receive_step server delay mk s b' st end)
    | _ \<Rightarrow> end = (Left, st) \<and> mgr_step server delay b (b\<lparr>mgr := M_cleanup\<rparr>)"
proof (cases "stop_event b \<or> b_sock b = None")
  case True
  then have "mgr_step server delay b (b\<lparr>mgr := M_cleanup\<rparr>)" by (rule m_loop_left [OF pc])
  with True show ?thesis using run(1) guards by (auto split: option.splits bool.splits)
next
  case False
  then obtain s where s: "\<not> stop_event b" "b_sock b = Some s" by auto
  let ?b = "b\<lparr>mgr := M_recv s (rx_framer st)\<rparr>"
  obtain r st' where pass: "rx_pass mk send (rx_recv t) st = (r, st')" by fastforce
  have fin: "end = (case r of Inl e \<Rightarrow> Left | Inr _ \<Rightarrow> Running, st')"
    using run pass guards s by (auto split: sum.splits if_splits)
  have "receive_step server delay mk s b' st end" if "(main_step use_fd)\<^sup>*\<^sup>* ?b b'" for b'
  proof -
    have at: "mgr b' = M_recv s (rx_framer st)" using main_steps_mgr [OF that] by simp
    show ?thesis
    proof (cases "rx_recv t = Inr [] \<or> isl (rx_recv t)")
      case True
      then have "end = (Left, st)" using pass fin by (cases "rx_recv t") (auto simp: rx_pass_def)
      then show ?thesis using receive_step_fails [OF at] by simp
    next
      case False
      then obtain chunk where chunk: "rx_recv t = Inr chunk" "chunk \<noteq> []" by (cases "rx_recv t") auto
      then show ?thesis
        using receive_step_chunk [OF at chunk(2) calm(1)] pass by (simp add: fin rx_pass_def)
    qed
  qed
  then show ?thesis using s m_loop_recv [OF pc s] by simp
qed


theorem receive_pass_refines_witness:
  "\<exists>end. loop_tcp_to_can (\<lambda>x. Inr (args_message x)) (\<lambda>m b. (Inr (), b))
       [\<lparr>rx_stopped = False, rx_sock = Some 0, rx_recv = Inr [0, 7, 0, 0, 1, 0x81, 0, 1, 5]\<rparr>]
       \<lparr>rx_framer = new_framer, rx_bus = (), rx_sent = []\<rparr> = end \<and> fst end = Running \<and>
     receive_step True 20 (\<lambda>x. Inr (args_message x)) 0 (connected_bridge\<lparr>mgr := M_recv 0 new_framer\<rparr>)
       \<lparr>rx_framer = new_framer, rx_bus = (), rx_sent = []\<rparr> end"
proof -
  let ?st = "\<lparr>rx_framer = new_framer, rx_bus = (), rx_sent = []\<rparr>"
  let ?t = "\<lparr>rx_stopped = False, rx_sock = Some 0, rx_recv = Inr [0, 7, 0, 0, 1, 0x81, 0, 1, 5]\<rparr>"
  let ?run = "loop_tcp_to_can (\<lambda>x. Inr (args_message x)) (\<lambda>m b. (Inr (), b)) [?t] ?st"
  have tol: "bus_tolerant (\<lambda>(m :: can_message) (b :: unit). (Inr (), b))" by (simp add: bus_tolerant_def)
  have "live_tick ?t" by (simp add: live_tick_def)
  moreover have "snd (decoded (\<lambda>x. Inr (args_message x)) [[0, 0, 1, 0x81, 0, 1, 5]]) = None"
    by (simp add: can_from_frame_def parse_frame_def HDR_NO_LEN_def be_int_def)
  ultimately have run: "fst ?run = Running"
    using loop_tcp_to_can_live [OF tol, of "[?t]" ?st "\<lambda>x. Inr (args_message x)"]
    by (auto simp: tick_chunk_def new_framer_def split_records.simps incomplete_def be_int_def)
  have "mgr connected_bridge = M_run (rx_framer ?st)" "rx_stopped ?t = stop_event connected_bridge"
    "rx_sock ?t = b_sock connected_bridge" "\<not> stop_event connected_bridge" "b_sock connected_bridge = Some 0"
    by (simp_all add: connected_bridge_def init_bridge_def)
  then show ?thesis
    using receive_pass_refines [OF _ _ _ tol _ refl, of connected_bridge ?st ?t "\<lambda>x. Inr (args_message x)" True 20 False] run
    by (intro exI [of _ ?run]) auto
qed

text \<open>The message a pass of the sending loop takes from the bus and can encode.\<close>

definition tick_message :: "bool \<Rightarrow> tx_tick \<Rightarrow> (can_message \<times> byte list) option" where
  "tick_message use_fd t =
     (if tx_stopped t then None
      else case tx_recv t of
             Inr (Some m) \<Rightarrow> (case frame_from_can m use_fd of Inl e \<Rightarrow> None | Inr p \<Rightarrow> Some (m, p))
           | _ \<Rightarrow> None)"

text \<open>Inside \<open>sendall\<close>: the step that ends the pass, and what it has added to \<open>out\<close>.\<close>

definition send_step ::
    "bool \<Rightarrow> nat \<Rightarrow> can_message \<Rightarrow> byte list \<Rightarrow> bool \<Rightarrow> bridge \<Rightarrow> (nat \<times> byte list) list \<Rightarrow>
     loop_end \<times> (nat \<times> byte list) list \<Rightarrow> bool" where
  "send_step use_fd s m p ok b out end \<longleftrightarrow>
     (\<exists>b'. main_step use_fd b b' \<and>
        (if ok then end = (Running, out @ [(s, p)]) \<and> main_th b' = T_loop \<and>
           sent b' s = sent b s @ [m] \<and> wire b' s = wire b s @ p
         else snd end = out \<and> main_th b' = (if fst end = Running then T_loop else S_set)))"

lemma send_step_ok:
  assumes "main_th b = T_send s m p" "s \<in> live b" "s \<notin> broken b"
  shows "send_step use_fd s m p True b out (Running, out @ [(s, p)])"
  unfolding send_step_def using t_sent [OF assms] by fastforce

lemma send_step_fails:
  assumes "main_th b = T_send s m p"
  shows "send_step use_fd s m p False b out (r, out)"
proof (cases "r = Running")
  case False
  then show ?thesis
    unfolding send_step_def using t_left [of b use_fd] assms by (intro exI [of _ "b\<lparr>main_th := S_set\<rparr>"]) simp
next
  case True
  show ?thesis
  proof (cases "s \<in> live b \<and> s \<notin> broken b")
    case False
    then show ?thesis
      unfolding send_step_def using t_send_dead [OF assms] True by (intro exI [of _ "b\<lparr>main_th := T_loop\<rparr>"]) auto
  next
    case ok: True
    then obtain b' where "main_step use_fd b b'" "main_th b' = T_loop"
      using t_send_fails [OF assms, of "[]" use_fd] by fastforce
    then show ?thesis unfolding send_step_def using True by auto
  qed
qed

text \<open>A pass that has a message, and its last step.\<close>

lemma tick_message_Some:
  assumes "tick_message use_fd t = Some (m, p)"
  shows "\<not> tx_stopped t" "tx_recv t = Inr (Some m)" "frame_from_can m use_fd = Inr p"
  using assms by (auto simp: tick_message_def split: if_splits sum.splits option.splits)

lemma pass_without_peer:
  assumes "tick_message use_fd t = Some (m, p)" "tx_sock t = None"
  shows "loop_can_to_tcp use_fd [t] out = (Running, out)"
  using tick_message_Some [OF assms(1)] assms(2) by (simp add: tx_pass_def)

lemma pass_send_step:
  assumes msg: "tick_message use_fd t = Some (m, p)" and peer: "tx_sock t = Some s"
    and at: "main_th b = T_send s m p" and ok: "tx_sendall t = Inr () \<longrightarrow> s \<in> live b \<and> s \<notin> broken b"
  shows "send_step use_fd s m p (tx_sendall t = Inr ()) b out (loop_can_to_tcp use_fd [t] out)"
proof (cases "tx_sendall t = Inr ()")
  case True
  then have "loop_can_to_tcp use_fd [t] out = (Running, out @ [(s, p)])"
    using tick_message_Some [OF msg] peer by (simp add: tx_pass_def)
  then show ?thesis using send_step_ok [OF at] ok True by simp
next
  case False
  then have "snd (loop_can_to_tcp use_fd [t] out) = out"
    using tick_message_Some [OF msg] peer by (auto simp: tx_pass_def tx_handler_def split: sum.splits if_splits)
  then show ?thesis
    using send_step_fails [OF at, of use_fd out "fst (loop_can_to_tcp use_fd [t] out)"] False by (metis prod.collapse)
qed

text \<open>(C17) The sending loop is the main thread's.  Let a pass of \<open>_loop_can_to_tcp\<close> find the main
  thread at the loop head.  When it gets no message it can encode, nothing changes, or the loop is
  left, which is a step.  Otherwise taking the message is a step; whatever the manager does then,
  reading \<open>self.sock\<close> is one, and the pass is over when there is no socket; else, whatever the
  manager does during \<open>sendall\<close>, its result is one more step, with the payload added to what the
  connection has taken when it succeeds (which a connection that is open and has not failed is
  needed for).\<close>

theorem send_pass_refines:
  assumes pc: "main_th b = T_loop" and guard: "tx_stopped t = stop_event b"
    and run: "loop_can_to_tcp use_fd [t] out = end"
  shows "case tick_message use_fd t of
      None \<Rightarrow> snd end = out \<and> (fst end = Running \<or> main_step use_fd b (b\<lparr>main_th := S_set\<rparr>))
    | Some (m, p) \<Rightarrow>
        let b1 = b\<lparr>main_th := T_have m p, taken := taken b @ [m]\<rparr>
        in main_step use_fd b b1 \<and>
          (\<forall>b2. (mgr_step server delay)\<^sup>*\<^sup>* b1 b2 \<and> tx_sock t = b_sock b2 \<longrightarrow>
            (case b_sock b2 of
               None \<Rightarrow> end = (Running, out) \<and> main_step use_fd b2 (b2\<lparr>main_th := T_loop\<rparr>)
             | Some s \<Rightarrow>
                 main_step use_fd b2 (b2\<lparr>main_th := T_send s m p\<rparr>) \<and>
                 (\<forall>b3. (mgr_step server delay)\<^sup>*\<^sup>* (b2\<lparr>main_th := T_send s m p\<rparr>) b3 \<and>
                    (tx_sendall t = Inr () \<longrightarrow> s \<in> live b3 \<and> s \<notin> broken b3) \<longrightarrow>
                    send_step use_fd s m p (tx_sendall t = Inr ()) b3 out end)))"
proof (cases "tick_message use_fd t")
  case None
  have "main_step use_fd b (b\<lparr>main_th := S_set\<rparr>)" by (rule t_left) (simp add: pc)
  then show ?thesis
    using None run by (auto simp: tick_message_def tx_pass_def tx_handler_def split: if_splits sum.splits option.splits)
next
  case (Some mp)
  then obtain m p where mp: "mp = (m, p)" and msg: "tick_message use_fd t = Some (m, p)" by (cases mp) simp
  let ?b1 = "b\<lparr>main_th := T_have m p, taken := taken b @ [m]\<rparr>"
  have 1: "main_step use_fd b ?b1" using t_frame [OF pc] tick_message_Some [OF msg] guard by simp
  have 2: "main_th b2 = T_have m p" if "(mgr_step server delay)\<^sup>*\<^sup>* ?b1 b2" for b2
    using mgr_steps_main [OF that] by simp
  have 3: "main_th b3 = T_send s m p" if "(mgr_step server delay)\<^sup>*\<^sup>* (b2\<lparr>main_th := T_send s m p\<rparr>) b3" for b2 b3 s
    using mgr_steps_main [OF that] by simp
  show ?thesis
    unfolding Some mp option.case prod.case Let_def
  proof (intro conjI allI impI, rule 1)
    fix b2
    assume run2: "(mgr_step server delay)\<^sup>*\<^sup>* ?b1 b2 \<and> tx_sock t = b_sock b2"
    show "case b_sock b2 of
        None \<Rightarrow> end = (Running, out) \<and> main_step use_fd b2 (b2\<lparr>main_th := T_loop\<rparr>)
      | Some s \<Rightarrow>
          main_step use_fd b2 (b2\<lparr>main_th := T_send s m p\<rparr>) \<and>
          (\<forall>b3. (mgr_step server delay)\<^sup>*\<^sup>* (b2\<lparr>main_th := T_send s m p\<rparr>) b3 \<and>
             (tx_sendall t = Inr () \<longrightarrow> s \<in> live b3 \<and> s \<notin> broken b3) \<longrightarrow>
             send_step use_fd s m p (tx_sendall t = Inr ()) b3 out end)"
    proof (cases "b_sock b2")
      case None
      then show ?thesis using run2 run pass_without_peer [OF msg] t_no_peer [OF 2] by simp
    next
      case (Some s)
      then show ?thesis using run2 run t_peer [OF 2] pass_send_step [OF msg _ 3] by auto
    qed
  qed
qed

theorem send_pass_refines_witness:
  "main_step False connected_bridge
     (connected_bridge\<lparr>main_th := T_have heartbeat_181 [0, 7, 0, 0, 1, 0x81, 0, 1, 5], taken := [heartbeat_181]\<rparr>)"
proof -
  let ?t = "\<lparr>tx_stopped = False, tx_recv = Inr (Some heartbeat_181), tx_sock = Some 0, tx_sendall = Inr ()\<rparr>"
  have t: "tick_message False ?t = Some (heartbeat_181, [0, 7, 0, 0, 1, 0x81, 0, 1, 5])"
    by (simp add: tick_message_def heartbeat_181_frame)
  have "main_th connected_bridge = T_loop" "tx_stopped ?t = stop_event connected_bridge" "taken connected_bridge = []"
    by (simp_all add: connected_bridge_def init_bridge_def)
  then show ?thesis using send_pass_refines [of connected_bridge ?t False "[]", OF _ _ refl] t by (simp add: Let_def)
qed

end
