(* ===== verification/Py_Text.thy ===== *)
theory Py_Text
  imports Prelude
begin

text \<open>
  The operations of Python's \<open>str\<close> and \<open>int\<close> that the tools use on what the user types and on
  what they print: \<open>strip\<close>, \<open>lower\<close>, \<open>split\<close>, \<open>int(s)\<close>, \<open>str(n)\<close>, \<open>hex(n)\<close>, \<open>encode('utf-8')\<close>.  A
  character is a code point below 256.  \<open>int\<close> accepts surrounding white space, a sign and
  underscores between digits, as Python's does; the limit on the number of digits of recent
  Python versions is left out.  Everything here is the language's library, not the repository's
  code, so it stands for no source line.
\<close>

subsection \<open>White space\<close>

definition is_space :: "char \<Rightarrow> bool" where
  "is_space c = (let n = (of_char c :: nat) in
     (9 \<le> n \<and> n \<le> 13) \<or> (28 \<le> n \<and> n \<le> 32) \<or> n = 133 \<or> n = 160)"

definition lstrip :: "string \<Rightarrow> string" where
  "lstrip s = dropWhile is_space s"

definition strip :: "string \<Rightarrow> string" where
  "strip s = rev (lstrip (rev (lstrip s)))"

text \<open>\<open>s.lower()\<close> and \<open>s.upper()\<close> on the letters below 256 whose other case is below 256.\<close>

definition upper_code :: "nat \<Rightarrow> bool" where
  "upper_code n = ((65 \<le> n \<and> n \<le> 90) \<or> (192 \<le> n \<and> n \<le> 222 \<and> n \<noteq> 215))"

definition lower :: "string \<Rightarrow> string" where
  "lower s = map (\<lambda>c. let n = (of_char c :: nat) in if upper_code n then char_of (n + 32) else c) s"

definition upper :: "string \<Rightarrow> string" where
  "upper s = map (\<lambda>c. let n = (of_char c :: nat) in
     if 32 \<le> n \<and> upper_code (n - 32) then char_of (n - 32) else c) s"

text \<open>A text between single quotes.\<close>

definition quoted :: "string \<Rightarrow> string" where
  "quoted s = [CHR 0x27] @ s @ [CHR 0x27]"

text \<open>A string is stripped when white space neither starts nor ends it.\<close>

definition stripped :: "string \<Rightarrow> bool" where
  "stripped s = (s = [] \<or> \<not> is_space (hd s) \<and> \<not> is_space (last s))"

lemma lstrip_hd: "lstrip s \<noteq> [] \<Longrightarrow> \<not> is_space (hd (lstrip s))"
  unfolding lstrip_def by (rule hd_dropWhile)

lemma lstrip_suffix: "\<exists>p. s = p @ lstrip s"
  unfolding lstrip_def by (metis takeWhile_dropWhile_id)

lemma lstrip_id: "s = [] \<or> \<not> is_space (hd s) \<Longrightarrow> lstrip s = s"
  by (cases s) (auto simp: lstrip_def)

lemma strip_stripped: "stripped (strip s)"
proof (cases "strip s = []")
  case True
  then show ?thesis by (simp add: stripped_def)
next
  case False
  let ?t = "lstrip s"
  let ?r = "lstrip (rev ?t)"
  have r: "?r \<noteq> []" using False by (simp add: strip_def)
  obtain p where p: "rev ?t = p @ ?r" using lstrip_suffix by blast
  then have t: "?t = rev ?r @ rev p" by (metis rev_append rev_rev_ident)
  have "?t \<noteq> []" using r by (auto simp: lstrip_def dest: set_dropWhileD)
  moreover have "hd ?t = hd (rev ?r)" by (metis t hd_append2 rev_is_Nil_conv r)
  ultimately have "\<not> is_space (hd (strip s))" using lstrip_hd [of s] by (simp add: strip_def)
  moreover have "\<not> is_space (last (strip s))"
    using lstrip_hd [OF r] r by (simp add: strip_def last_rev)
  ultimately show ?thesis by (simp add: stripped_def)
qed

lemma strip_id: "stripped s \<Longrightarrow> strip s = s"
  unfolding stripped_def strip_def by (auto simp: lstrip_id hd_rev)

lemma strip_idem [simp]: "strip (strip s) = strip s"
  by (rule strip_id [OF strip_stripped])

subsection \<open>Splitting\<close>

text \<open>\<open>s.split()\<close>: the maximal runs of characters that are not white space.\<close>

fun split_ws_aux :: "string \<Rightarrow> string \<Rightarrow> string list" where
  "split_ws_aux acc [] = (if acc = [] then [] else [rev acc])"
| "split_ws_aux acc (c # cs) =
     (if is_space c then (if acc = [] then split_ws_aux [] cs else rev acc # split_ws_aux [] cs)
      else split_ws_aux (c # acc) cs)"

definition split_ws :: "string \<Rightarrow> string list" where
  "split_ws s = split_ws_aux [] s"

text \<open>\<open>s.split(sep)\<close> for a separator of one character: one piece more than separators.\<close>

fun split_on :: "char \<Rightarrow> string \<Rightarrow> string list" where
  "split_on sep [] = [[]]"
| "split_on sep (c # cs) =
     (if c = sep then [] # split_on sep cs
      else (case split_on sep cs of [] \<Rightarrow> [[c]] | p # ps \<Rightarrow> (c # p) # ps))"

lemma split_on_nonempty [simp]: "split_on sep s \<noteq> []"
  by (induction s) (auto split: list.split)

lemma split_on_no_sep: "p \<in> set (split_on sep s) \<Longrightarrow> sep \<notin> set p"
proof (induction s arbitrary: p)
  case (Cons c cs)
  then show ?case by (cases "split_on sep cs") (auto split: if_splits)
qed simp

lemma split_on_length: "length (split_on sep s) = Suc (count_list s sep)"
proof (induction s)
  case (Cons c cs)
  then show ?case by (cases "split_on sep cs") auto
qed simp

lemma split_ws_aux_pieces:
  "\<forall>c\<in>set acc. \<not> is_space c \<Longrightarrow> p \<in> set (split_ws_aux acc s) \<Longrightarrow>
     p \<noteq> [] \<and> (\<forall>c\<in>set p. \<not> is_space c)"
  by (induction acc s rule: split_ws_aux.induct) (fastforce split: if_splits)+

lemma split_ws_pieces: "p \<in> set (split_ws s) \<Longrightarrow> p \<noteq> [] \<and> (\<forall>c\<in>set p. \<not> is_space c)"
  unfolding split_ws_def by (rule split_ws_aux_pieces [of "[]"]) simp_all

lemma no_space_stripped: "\<forall>c\<in>set p. \<not> is_space c \<Longrightarrow> stripped p"
  by (auto simp: stripped_def)

subsection \<open>Decimal and hexadecimal digits\<close>

definition digit_char :: "nat \<Rightarrow> char" where
  "digit_char d = char_of (if d < 10 then 48 + d else 87 + d)"

definition char_digit :: "char \<Rightarrow> nat option" where
  "char_digit c = (let n = (of_char c :: nat) in
     if 48 \<le> n \<and> n \<le> 57 then Some (n - 48) else None)"

fun digits_base :: "nat \<Rightarrow> nat \<Rightarrow> string" where
  "digits_base b n =
     (if b < 2 \<or> n < b then [digit_char n] else digits_base b (n div b) @ [digit_char (n mod b)])"

declare digits_base.simps [simp del]

lemmas digits_base_eval = digits_base.simps digit_char_def

definition nat_str :: "nat \<Rightarrow> string" where
  "nat_str n = digits_base 10 n"

definition int_str :: "int \<Rightarrow> string" where
  "int_str i = (if i < 0 then ''-'' @ nat_str (nat (- i)) else nat_str (nat i))"

text \<open>\<open>hex(i)\<close> and the format \<open>0x{i:08x}\<close>, whose padding counts the sign.\<close>

definition hex_str :: "int \<Rightarrow> string" where
  "hex_str i = (if i < 0 then ''-0x'' @ digits_base 16 (nat (- i)) else ''0x'' @ digits_base 16 (nat i))"

definition zero_pad :: "nat \<Rightarrow> string \<Rightarrow> string" where
  "zero_pad k s = replicate (k - length s) CHR ''0'' @ s"

definition hex08 :: "int \<Rightarrow> string" where
  "hex08 i = ''0x'' @ (if i < 0 then ''-'' @ zero_pad 7 (digits_base 16 (nat (- i)))
                       else zero_pad 8 (digits_base 16 (nat i)))"

subsection \<open>\<open>int(s)\<close>\<close>

fun int_digits :: "nat \<Rightarrow> bool \<Rightarrow> string \<Rightarrow> nat option" where
  "int_digits acc dig [] = (if dig then Some acc else None)"
| "int_digits acc dig (c # cs) =
     (case char_digit c of
        Some d \<Rightarrow> int_digits (acc * 10 + d) True cs
      | None \<Rightarrow> if c = CHR ''_'' \<and> dig then int_digits acc False cs else None)"

definition int_of_str :: "string \<Rightarrow> int option" where
  "int_of_str s =
     (case strip s of
        [] \<Rightarrow> None
      | c # cs \<Rightarrow>
          if c = CHR ''-'' then map_option (\<lambda>n. - int n) (int_digits 0 False cs)
          else if c = CHR ''+'' then map_option int (int_digits 0 False cs)
          else map_option int (int_digits 0 False (c # cs)))"

definition bad_int :: "string \<Rightarrow> exn" where
  "bad_int s = Exn ValueError (''invalid literal for int() with base 10: '' @ s)"

definition py_int :: "string \<Rightarrow> exn + int" where
  "py_int s = (case int_of_str s of None \<Rightarrow> Inl (bad_int s) | Some i \<Rightarrow> Inr i)"

lemma char_digit_digit_char [simp]: "d < 10 \<Longrightarrow> char_digit (digit_char d) = Some d"
  by (simp add: char_digit_def digit_char_def)

lemma int_digits_append:
  "int_digits acc dig (digits_base 10 n @ cs) = int_digits (acc * 10 ^ length (digits_base 10 n) + n) True cs"
proof (induction "10 :: nat" n arbitrary: acc dig cs rule: digits_base.induct)
  case (1 n)
  show ?case
  proof (cases "n < 10")
    case True
    then show ?thesis by (simp add: digits_base.simps [of 10 n])
  next
    case False
    then have e: "digits_base 10 n = digits_base 10 (n div 10) @ [digit_char (n mod 10)]"
      by (simp add: digits_base.simps [of 10 n])
    show ?thesis
      using "1" [OF _ , of acc dig "digit_char (n mod 10) # cs"] False
      by (simp add: e algebra_simps)
  qed
qed

lemma digits_base_Cons:
  "\<exists>d cs. d < 10 \<and> digits_base 10 n = digit_char d # cs"
proof (induction "10 :: nat" n rule: digits_base.induct)
  case (1 n)
  then show ?case
    by (cases "n < 10") (auto simp: digits_base.simps [of 10 n])
qed

lemma digits_base_all: "c \<in> set (digits_base 10 n) \<Longrightarrow> \<exists>d<10. c = digit_char d"
proof (induction "10 :: nat" n rule: digits_base.induct)
  case (1 n)
  then show ?case
    by (cases "n < 10") (auto simp: digits_base.simps [of 10 n] intro: exI [of _ "n mod 10"])
qed

lemma digit_char_code: "d < 10 \<Longrightarrow> (of_char (digit_char d) :: nat) = 48 + d"
  by (simp add: digit_char_def)

lemma digit_char_plain:
  "d < 10 \<Longrightarrow> \<not> is_space (digit_char d) \<and> digit_char d \<noteq> CHR ''-'' \<and> digit_char d \<noteq> CHR ''+''"
  using digit_char_code [of d] by (auto simp: is_space_def Let_def)

lemma nat_str_stripped: "stripped (nat_str n)"
  unfolding nat_str_def by (intro no_space_stripped) (auto dest: digits_base_all simp: digit_char_plain)

lemma int_digits_nat_str: "int_digits 0 False (nat_str n) = Some n"
  using int_digits_append [of 0 False n "[]"] by (simp add: nat_str_def)

lemma int_of_nat_str: "int_of_str (nat_str n) = Some (int n)"
proof -
  obtain d cs where d: "d < 10" and e: "nat_str n = digit_char d # cs"
    using digits_base_Cons [of n] by (auto simp: nat_str_def)
  have "int_digits 0 False (digit_char d # cs) = Some n"
    using int_digits_nat_str [of n] e by simp
  then show ?thesis
    using digit_char_plain [OF d] strip_id [OF nat_str_stripped, of n] e
    by (simp add: int_of_str_def)
qed

text \<open>What \<open>str\<close> writes, \<open>int\<close> reads back, also with white space around it.\<close>

lemma int_of_str_strip: "int_of_str (strip s) = int_of_str s"
  by (simp add: int_of_str_def)

lemma int_of_int_str: "int_of_str (int_str i) = Some i"
proof (cases "i < 0")
  case True
  have "stripped (''-'' @ nat_str (nat (- i)))"
  proof (rule no_space_stripped, rule ballI)
    fix c assume "c \<in> set (''-'' @ nat_str (nat (- i)))"
    then show "\<not> is_space c"
      by (auto simp: nat_str_def is_space_def dest!: digits_base_all
          dest: digit_char_plain [THEN conjunct1, unfolded is_space_def])
  qed
  then show ?thesis
    using True by (simp add: int_of_str_def int_str_def strip_id int_digits_nat_str)
next
  case False
  then show ?thesis by (simp add: int_str_def int_of_nat_str)
qed

lemma py_int_str [simp]: "py_int (int_str i) = Inr i"
  by (simp add: py_int_def int_of_int_str)

subsection \<open>\<open>encode('utf-8')\<close>\<close>

definition utf8_char :: "char \<Rightarrow> byte list" where
  "utf8_char c = (let n = (of_char c :: nat) in
     if n < 128 then [of_nat n] else [of_nat (192 + n div 64), of_nat (128 + n mod 64)])"

definition utf8 :: "string \<Rightarrow> byte list" where
  "utf8 s = concat (map utf8_char s)"

lemma utf8_append [simp]: "utf8 (s @ t) = utf8 s @ utf8 t"
  by (simp add: utf8_def)

lemma utf8_length_ge: "length s \<le> length (utf8 s)"
  by (induction s) (auto simp: utf8_def utf8_char_def Let_def)

end
