(* ===== verification/Arg_Parser.thy ===== *)
theory Arg_Parser
  imports Py_Text "HOL-Library.Sublist" "HOL-Library.Multiset"
begin

text \<open>
  What \<open>argparse.ArgumentParser.parse_args\<close> does for the parsers of the tools: options only, with the
  actions \<open>store\<close>, \<open>store\<close> with \<open>type=int\<close>, \<open>store_true\<close>, \<open>count\<close> and \<open>help\<close>.  An option may be
  abbreviated and may have its value after \<open>=\<close>; options of one letter may be joined.  Parsing takes
  two passes, as in the library (CPython 3.11 and 3.12): every string is classified, then options
  are consumed with their values.  A usage error ends the program with status 2, \<open>--help\<close> with 0;
  the texts they print are left out.  This is the language's library, so it stands for no source
  line; \<open>Command_Lines\<close> has the parsers.
\<close>

subsection \<open>Options\<close>

datatype opt_action = Store | Store_int | Store_true | Count | Help

record option_spec =
  opt_strings :: "string list"
  opt_dest :: string
  opt_action :: opt_action
  opt_required :: bool

definition help_option :: option_spec where
  "help_option = \<lparr>opt_strings = [''-h'', ''--help''], opt_dest = ''help'', opt_action = Help, opt_required = False\<rparr>"

definition takes_value :: "option_spec \<Rightarrow> bool" where
  "takes_value opt \<longleftrightarrow> opt_action opt = Store \<or> opt_action opt = Store_int"

definition exact :: "option_spec list \<Rightarrow> string \<Rightarrow> option_spec option" where
  "exact p s = find (\<lambda>opt. s \<in> set (opt_strings opt)) p"

definition parser_exit :: "int \<Rightarrow> exn" where
  "parser_exit n = Exn (SystemExit n) []"

subsection \<open>Classifying the strings\<close>

text \<open>
  An option as it was written: the option string it stands for, whether its value came after \<open>=\<close>,
  and the value in the same string, if any.
\<close>

datatype token = Plain | Dashes | Unknown | Optn option_spec string bool "string option"

text \<open>\<open>s.partition('=')\<close> when there is an \<open>=\<close>.\<close>

definition split_eq :: "string \<Rightarrow> (string \<times> string) option" where
  "split_eq s =
     (if CHR ''='' \<in> set s
      then Some (takeWhile (\<lambda>c. c \<noteq> CHR ''='') s, tl (dropWhile (\<lambda>c. c \<noteq> CHR ''='') s))
      else None)"

text \<open>The regular expression \<open>^-\d+$|^-\d*\.\d+$\<close>, whose \<open>$\<close> also matches before a last line feed.\<close>

definition negative_number :: "string \<Rightarrow> bool" where
  "negative_number s =
     (let t = (if s \<noteq> [] \<and> last s = CHR 0x0A then butlast s else s);
          int_part = takeWhile (\<lambda>c. char_digit c \<noteq> None) (tl t);
          rest = dropWhile (\<lambda>c. char_digit c \<noteq> None) (tl t)
      in t \<noteq> [] \<and> hd t = CHR ''-'' \<and>
         (rest = [] \<and> int_part \<noteq> [] \<or>
          rest \<noteq> [] \<and> hd rest = CHR ''.'' \<and> tl rest \<noteq> [] \<and> list_all (\<lambda>c. char_digit c \<noteq> None) (tl rest)))"

text \<open>The options a string may abbreviate or, with one dash, be joined to.\<close>

definition candidates :: "option_spec list \<Rightarrow> string \<Rightarrow> token list" where
  "candidates p s =
     concat (map (\<lambda>opt. concat (map (\<lambda>n.
       if take 2 s = ''--'' then
         (case split_eq s of
            Some (pre, v) \<Rightarrow> if prefix pre n then [Optn opt n True (Some v)] else []
          | None \<Rightarrow> if prefix s n then [Optn opt n False None] else [])
       else if n = take 2 s then [Optn opt n False (Some (drop 2 s))]
       else if prefix s n then [Optn opt n False None] else [])
       (opt_strings opt))) p)"

definition classify :: "option_spec list \<Rightarrow> string \<Rightarrow> exn + token" where
  "classify p s =
     (if s = [] \<or> hd s \<noteq> CHR ''-'' then Inr Plain
      else case exact p s of
        Some opt \<Rightarrow> Inr (Optn opt s False None)
      | None \<Rightarrow>
          if tl s = [] then Inr Plain
          else case (case split_eq s of None \<Rightarrow> None | Some (n, v) \<Rightarrow> map_option (\<lambda>opt. Optn opt n True (Some v)) (exact p n)) of
            Some t \<Rightarrow> Inr t
          | None \<Rightarrow>
              (case candidates p s of
                 [t] \<Rightarrow> Inr t
               | [] \<Rightarrow> if negative_number s \<and> \<not> list_ex (\<lambda>opt. list_ex negative_number (opt_strings opt)) p then Inr Plain
                       else if CHR '' '' \<in> set s then Inr Plain
                       else Inr Unknown
               | _ \<Rightarrow> Inl (parser_exit 2)))"

text \<open>After \<open>--\<close> everything is plain.\<close>

fun classify_all :: "option_spec list \<Rightarrow> string list \<Rightarrow> exn + (string \<times> token) list" where
  "classify_all p [] = Inr []"
| "classify_all p (s # ss) =
     (if s = ''--'' then Inr ((s, Dashes) # map (\<lambda>x. (x, Plain)) ss)
      else case classify p s of
        Inl e \<Rightarrow> Inl e
      | Inr t \<Rightarrow> map_sum id (Cons (s, t)) (classify_all p ss))"

subsection \<open>Consuming the options\<close>

text \<open>An option without a value in its string: the next string is its value, if it takes one.\<close>

definition match_next ::
    "option_spec \<Rightarrow> (string \<times> token) list \<Rightarrow> exn + (option_spec \<times> string) list \<times> (string \<times> token) list" where
  "match_next opt rest =
     (if takes_value opt then
        (case rest of
           (v, Plain) # r \<Rightarrow> Inr ([(opt, v)], r)
         | _ \<Rightarrow> Inl (parser_exit 2))
      else Inr ([(opt, [])], rest))"

text \<open>An option with text in its string: its value, or more options of one letter.\<close>

fun match_joined ::
    "option_spec list \<Rightarrow> option_spec \<Rightarrow> string \<Rightarrow> bool \<Rightarrow> string \<Rightarrow> (string \<times> token) list \<Rightarrow>
     exn + (option_spec \<times> string) list \<times> (string \<times> token) list \<times> string list" where
  "match_joined p opt n sep [] rest =
     (if takes_value opt then Inr ([(opt, [])], rest, []) else Inl (parser_exit 2))"
| "match_joined p opt n sep (c # cs) rest =
     (if takes_value opt then Inr ([(opt, c # cs)], rest, [])
      else if take 2 n = ''--'' \<or> sep \<or> c = CHR ''-'' then Inl (parser_exit 2)
      else case exact p [CHR ''-'', c] of
        None \<Rightarrow> Inr ([(opt, [])], rest, [CHR ''-'' # c # cs])
      | Some opt' \<Rightarrow>
          map_sum id (\<lambda>(acts, r, ex). ((opt, []) # acts, r, ex))
            (case cs of
               [] \<Rightarrow> map_sum id (\<lambda>(acts, r). (acts, r, [])) (match_next opt' rest)
             | d # ds \<Rightarrow>
                 if d = CHR ''='' then match_joined p opt' [CHR ''-'', c] True ds rest
                 else match_joined p opt' [CHR ''-'', c] False (d # ds) rest))"

declare match_joined.simps(2) [simp del]

datatype arg_value = V_none | V_str string | V_int int | V_bool bool

record parse_state =
  vals :: "(string, arg_value) dict"
  seen :: "string list"
  extras :: "string list"

definition take_action :: "option_spec \<Rightarrow> string \<Rightarrow> parse_state \<Rightarrow> exn + parse_state" where
  "take_action opt v st =
     map_sum id (\<lambda>x. st\<lparr>vals := dict_put (opt_dest opt) x (vals st), seen := seen st @ [opt_dest opt]\<rparr>)
       (case opt_action opt of
          Store \<Rightarrow> Inr (V_str v)
        | Store_int \<Rightarrow> (case int_of_str v of None \<Rightarrow> Inl (parser_exit 2) | Some i \<Rightarrow> Inr (V_int i))
        | Store_true \<Rightarrow> Inr (V_bool True)
        | Count \<Rightarrow> Inr (V_int (case dict_get (vals st) (opt_dest opt) of Some (V_int i) \<Rightarrow> i + 1 | _ \<Rightarrow> 1))
        | Help \<Rightarrow> Inl (parser_exit 0))"

fun take_actions :: "(option_spec \<times> string) list \<Rightarrow> parse_state \<Rightarrow> exn + parse_state" where
  "take_actions [] st = Inr st"
| "take_actions ((opt, v) # acts) st = (case take_action opt v st of Inl e \<Rightarrow> Inl e | Inr st' \<Rightarrow> take_actions acts st')"

definition match_option ::
    "option_spec list \<Rightarrow> option_spec \<Rightarrow> string \<Rightarrow> bool \<Rightarrow> string option \<Rightarrow> (string \<times> token) list \<Rightarrow>
     exn + (option_spec \<times> string) list \<times> (string \<times> token) list \<times> string list" where
  "match_option p opt n sep e rest =
     (case e of
        None \<Rightarrow> map_sum id (\<lambda>(acts, r). (acts, r, [])) (match_next opt rest)
      | Some v \<Rightarrow> match_joined p opt n sep v rest)"

lemma match_next_rest: "match_next opt rest = Inr (acts, r) \<Longrightarrow> length r \<le> length rest"
  by (auto simp: match_next_def split: if_splits list.splits token.splits)

lemma map_sum_Inr: "map_sum id f x = Inr y \<longleftrightarrow> (\<exists>z. x = Inr z \<and> y = f z)"
  by (cases x) auto

lemma match_joined_rest: "match_joined p opt n sep v rest = Inr (acts, r, ex) \<Longrightarrow> length r \<le> length rest"
proof (induction p opt n sep v rest arbitrary: acts r ex rule: match_joined.induct)
  case (1 p opt n sep rest)
  then show ?case by (simp split: if_splits)
next
  case (2 p opt n sep c cs rest)
  show ?case
  proof (cases "takes_value opt \<or> take 2 n = ''--'' \<or> sep \<or> c = CHR ''-'' \<or> exact p [CHR ''-'', c] = None")
    case True
    then show ?thesis using "2.prems" by (auto simp: match_joined.simps(2) split: if_splits)
  next
    case False
    then obtain opt' where opt': "exact p [CHR ''-'', c] = Some opt'" by auto
    obtain acts' where run: "(case cs of
          [] \<Rightarrow> map_sum id (\<lambda>(acts, r). (acts, r, [])) (match_next opt' rest)
        | d # ds \<Rightarrow>
            if d = CHR ''='' then match_joined p opt' [CHR ''-'', c] True ds rest
            else match_joined p opt' [CHR ''-'', c] False (d # ds) rest) = Inr (acts', r, ex)"
      using "2.prems" False opt' by (subst (asm) match_joined.simps(2)) (auto simp: map_sum_Inr)
    show ?thesis
    proof (cases cs)
      case Nil
      then show ?thesis using run by (auto simp: map_sum_Inr dest: match_next_rest)
    next
      case (Cons d ds)
      then show ?thesis using "2.IH" run False opt' by (cases "d = CHR ''=''") auto
    qed
  qed
qed

lemma match_option_rest: "match_option p opt n sep e rest = Inr (acts, r, ex) \<Longrightarrow> length r \<le> length rest"
  by (auto simp: match_option_def map_sum_Inr split: option.splits dest: match_next_rest match_joined_rest)

function consume :: "option_spec list \<Rightarrow> (string \<times> token) list \<Rightarrow> parse_state \<Rightarrow> exn + parse_state" where
  "consume p [] st = Inr st"
| "consume p ((s, t) # ts) st =
     (case t of
        Optn opt n sep e \<Rightarrow>
          (case match_option p opt n sep e ts of
             Inl err \<Rightarrow> Inl err
           | Inr (acts, ts', ex) \<Rightarrow>
               (case take_actions acts (st\<lparr>extras := extras st @ ex\<rparr>) of
                  Inl err \<Rightarrow> Inl err
                | Inr st' \<Rightarrow> consume p ts' st'))
      | _ \<Rightarrow> consume p ts (st\<lparr>extras := extras st @ [s]\<rparr>))"
  by pat_completeness auto
termination
  by (relation "measure (\<lambda>(p, ts, st). length ts)") (auto dest!: match_option_rest)

definition default_value :: "option_spec \<Rightarrow> arg_value" where
  "default_value opt =
     (case opt_action opt of Store_true \<Rightarrow> V_bool False | Count \<Rightarrow> V_int 0 | _ \<Rightarrow> V_none)"

definition initial :: "option_spec list \<Rightarrow> parse_state" where
  "initial p = \<lparr>vals = map (\<lambda>opt. (opt_dest opt, default_value opt)) p, seen = [], extras = []\<rparr>"

definition parse_args :: "option_spec list \<Rightarrow> string list \<Rightarrow> exn + (string, arg_value) dict" where
  "parse_args p argv =
     (case classify_all p argv of
        Inl e \<Rightarrow> Inl e
      | Inr ts \<Rightarrow>
          (case consume p ts (initial p) of
             Inl e \<Rightarrow> Inl e
           | Inr st \<Rightarrow>
               if list_ex (\<lambda>opt. opt_required opt \<and> opt_dest opt \<notin> set (seen st)) p \<or> extras st \<noteq> []
               then Inl (parser_exit 2) else Inr (vals st)))"

subsection \<open>Options that stand alone\<close>

text \<open>A string that is an option with its value after \<open>=\<close>, or an option without a value.\<close>

definition alone :: "option_spec list \<Rightarrow> string \<Rightarrow> option_spec \<times> string \<Rightarrow> bool" where
  "alone p s act \<longleftrightarrow>
     s \<noteq> ''--'' \<and>
     (\<exists>n sep. takes_value (fst act) \<and> classify p s = Inr (Optn (fst act) n sep (Some (snd act))) \<or>
        \<not> takes_value (fst act) \<and> snd act = [] \<and> classify p s = Inr (Optn (fst act) n sep None))"

lemma match_joined_value: "takes_value opt \<Longrightarrow> match_joined p opt n sep v rest = Inr ([(opt, v)], rest, [])"
  by (cases v) (simp_all add: match_joined.simps(2))

lemma alone_token:
  assumes "alone p s act"
  obtains opt n sep e where "classify p s = Inr (Optn opt n sep e)" "s \<noteq> ''--''"
    "\<forall>rest. match_option p opt n sep e rest = Inr ([act], rest, [])"
  using assms unfolding alone_def match_option_def
  by (cases act) (auto simp: match_joined_value match_next_def)

lemma consume_alone:
  "list_all2 (alone p) argv acts \<Longrightarrow>
     \<exists>ts. classify_all p argv = Inr ts \<and> (\<forall>st. consume p ts st = take_actions acts st)"
proof (induction rule: list_all2_induct)
  case (Cons s argv act acts)
  obtain opt n sep e where tok: "classify p s = Inr (Optn opt n sep e)" "s \<noteq> ''--''"
    "\<forall>rest. match_option p opt n sep e rest = Inr ([act], rest, [])" using alone_token [OF Cons.hyps(1)] .
  obtain ts where ts: "classify_all p argv = Inr ts" "\<forall>st. consume p ts st = take_actions acts st"
    using Cons.IH by blast
  have "consume p ((s, Optn opt n sep e) # ts) st = take_actions (act # acts) st" for st
    using ts(2) by (cases act) (simp add: tok(3) split: sum.split)
  then show ?case using tok(1,2) ts(1) by auto
qed simp

text \<open>The value an option gives, when it does not depend on what came before.\<close>

definition value_of :: "option_spec \<times> string \<Rightarrow> arg_value option" where
  "value_of act =
     (case opt_action (fst act) of
        Store \<Rightarrow> Some (V_str (snd act))
      | Store_int \<Rightarrow> map_option V_int (int_of_str (snd act))
      | Store_true \<Rightarrow> Some (V_bool True)
      | _ \<Rightarrow> None)"

abbreviation dest_of :: "option_spec \<times> string \<Rightarrow> string" where
  "dest_of act \<equiv> opt_dest (fst act)"

lemma take_action_value:
  "value_of (opt, v) = Some x \<Longrightarrow>
     take_action opt v st = Inr (st\<lparr>vals := dict_put (opt_dest opt) x (vals st), seen := seen st @ [opt_dest opt]\<rparr>)"
  by (auto simp: value_of_def take_action_def split: opt_action.splits option.splits)

lemma take_actions_values:
  "distinct (map dest_of acts) \<Longrightarrow> (\<forall>act\<in>set acts. value_of act \<noteq> None) \<Longrightarrow>
     \<exists>st'. take_actions acts st = Inr st' \<and> extras st' = extras st \<and> set (seen st') = set (seen st) \<union> dest_of ` set acts \<and>
       (\<forall>act\<in>set acts. dict_get (vals st') (dest_of act) = value_of act) \<and>
       (\<forall>d. d \<notin> dest_of ` set acts \<longrightarrow> dict_get (vals st') d = dict_get (vals st) d)"
proof (induction acts arbitrary: st)
  case (Cons act acts)
  obtain opt v where act: "act = (opt, v)" by fastforce
  obtain x where x: "value_of (opt, v) = Some x" using Cons.prems(2) act by auto
  let ?st = "st\<lparr>vals := dict_put (opt_dest opt) x (vals st), seen := seen st @ [opt_dest opt]\<rparr>"
  obtain st' where st': "take_actions acts ?st = Inr st'" "extras st' = extras ?st"
    "set (seen st') = set (seen ?st) \<union> dest_of ` set acts"
    "\<forall>act\<in>set acts. dict_get (vals st') (dest_of act) = value_of act"
    "\<forall>d. d \<notin> dest_of ` set acts \<longrightarrow> dict_get (vals st') d = dict_get (vals ?st) d"
    using Cons.IH [of ?st] Cons.prems by auto
  have fresh: "opt_dest opt \<notin> dest_of ` set acts" using Cons.prems(1) by (auto simp: act)
  have "take_actions (act # acts) st = Inr st'" using st'(1) by (simp add: act take_action_value [OF x])
  moreover have "\<forall>a\<in>set (act # acts). dict_get (vals st') (dest_of a) = value_of a"
    using st'(4,5) fresh x by (simp add: act dict_get_put)
  moreover have "\<forall>d. d \<notin> dest_of ` set (act # acts) \<longrightarrow> dict_get (vals st') d = dict_get (vals st) d"
    using st'(5) by (simp add: act dict_get_put)
  ultimately show ?case using st'(2,3) by (intro exI [of _ st']) (auto simp: act)
qed simp

lemma parse_alone:
  assumes "list_all2 (alone p) argv acts" "distinct (map dest_of acts)" "\<forall>act\<in>set acts. value_of act \<noteq> None"
    and "\<forall>opt\<in>set p. opt_required opt \<longrightarrow> opt_dest opt \<in> dest_of ` set acts"
  shows "\<exists>ns. parse_args p argv = Inr ns \<and> (\<forall>act\<in>set acts. dict_get ns (dest_of act) = value_of act) \<and>
     (\<forall>d. d \<notin> dest_of ` set acts \<longrightarrow> dict_get ns d = dict_get (vals (initial p)) d)"
proof -
  obtain ts where ts: "classify_all p argv = Inr ts" "\<forall>st. consume p ts st = take_actions acts st"
    using consume_alone [OF assms(1)] by blast
  obtain st where st: "take_actions acts (initial p) = Inr st" "extras st = []" "set (seen st) = dest_of ` set acts"
    "\<forall>act\<in>set acts. dict_get (vals st) (dest_of act) = value_of act"
    "\<forall>d. d \<notin> dest_of ` set acts \<longrightarrow> dict_get (vals st) d = dict_get (vals (initial p)) d"
    using take_actions_values [OF assms(2,3), of "initial p"] by (auto simp: initial_def)
  have "\<not> list_ex (\<lambda>opt. opt_required opt \<and> opt_dest opt \<notin> set (seen st)) p"
    unfolding list_ex_iff st(3) using assms(4) by blast
  then have "parse_args p argv = Inr (vals st)" using ts st(1,2) by (simp add: parse_args_def)
  then show ?thesis using st(4,5) by blast
qed

text \<open>How the two forms are classified.\<close>

lemma exact_Some: "exact p s = Some opt \<Longrightarrow> opt \<in> set p \<and> s \<in> set (opt_strings opt)"
  unfolding exact_def find_Some_iff by (auto intro: nth_mem)

lemma split_eq_first: "CHR ''='' \<notin> set n \<Longrightarrow> split_eq (n @ CHR ''='' # v) = Some (n, v)"
  by (auto simp: split_eq_def takeWhile_append dropWhile_append)

lemma classify_value:
  assumes "exact p n = Some opt" "hd n = CHR ''-''" "n \<noteq> []" "\<forall>opt\<in>set p. \<forall>s\<in>set (opt_strings opt). CHR ''='' \<notin> set s"
  shows "classify p (n @ CHR ''='' # v) = Inr (Optn opt n True (Some v))"
proof -
  have "exact p (n @ CHR ''='' # v) = None"
  proof (cases "exact p (n @ CHR ''='' # v)")
    case (Some opt')
    have "CHR ''='' \<notin> set (n @ CHR ''='' # v)" using exact_Some [OF Some] assms(4) by blast
    then show ?thesis by simp
  qed
  moreover have "CHR ''='' \<notin> set n" using exact_Some [OF assms(1)] assms(4) by blast
  moreover have "\<not> (n @ CHR ''='' # v = [] \<or> hd (n @ CHR ''='' # v) \<noteq> CHR ''-'')" "tl (n @ CHR ''='' # v) \<noteq> []"
    using assms(2,3) by (cases n; simp)+
  ultimately show ?thesis using assms(1) by (simp add: classify_def split_eq_first)
qed

lemma classify_exact: "exact p s = Some opt \<Longrightarrow> hd s = CHR ''-'' \<Longrightarrow> s \<noteq> [] \<Longrightarrow> classify p s = Inr (Optn opt s False None)"
  by (simp add: classify_def)

subsection \<open>Where a value comes from\<close>

lemma match_next_parts:
  "match_next opt rest = Inr (acts, r) \<Longrightarrow> map fst acts = [opt] \<and> set r \<subseteq> set rest"
  by (auto simp: match_next_def split: if_splits list.splits token.splits)

text \<open>An option is taken under its own string or, joined to another, under its letter.\<close>

lemma match_joined_parts:
  "match_joined p opt n sep v rest = Inr (acts, r, ex) \<Longrightarrow>
     set r \<subseteq> set rest \<and> (\<forall>a\<in>fst ` set acts. a = opt \<or> (\<exists>c. exact p [CHR ''-'', c] = Some a)) \<and>
     (take 2 n = ''--'' \<longrightarrow> takes_value opt)"
proof (induction p opt n sep v rest arbitrary: acts r ex rule: match_joined.induct)
  case (1 p opt n sep rest)
  then show ?case by (auto split: if_splits)
next
  case (2 p opt n sep c cs rest)
  show ?case
  proof (cases "takes_value opt \<or> take 2 n = ''--'' \<or> sep \<or> c = CHR ''-'' \<or> exact p [CHR ''-'', c] = None")
    case True
    then show ?thesis using "2.prems" by (auto simp: match_joined.simps(2) split: if_splits)
  next
    case False
    then obtain opt' where opt': "exact p [CHR ''-'', c] = Some opt'" by auto
    obtain acts' where run: "(case cs of
          [] \<Rightarrow> map_sum id (\<lambda>(acts, r). (acts, r, [])) (match_next opt' rest)
        | d # ds \<Rightarrow>
            if d = CHR ''='' then match_joined p opt' [CHR ''-'', c] True ds rest
            else match_joined p opt' [CHR ''-'', c] False (d # ds) rest) = Inr (acts', r, ex)"
      and acts: "acts = (opt, []) # acts'"
      using "2.prems" False opt' by (subst (asm) match_joined.simps(2)) (auto simp: map_sum_Inr)
    have rest: "set r \<subseteq> set rest \<and> (\<forall>a\<in>fst ` set acts'. a = opt' \<or> (\<exists>c. exact p [CHR ''-'', c] = Some a))"
    proof (cases cs)
      case Nil
      then obtain r' where "match_next opt' rest = Inr (acts', r')" "r' = r" using run by (auto simp: map_sum_Inr)
      then show ?thesis using match_next_parts by (cases acts') fastforce+
    next
      case (Cons d ds)
      then show ?thesis using "2.IH" run False opt' by (cases "d = CHR ''=''") auto
    qed
    then show ?thesis using acts opt' False by auto
  qed
qed

lemma match_option_parts:
  assumes "match_option p opt n sep e rest = Inr (acts, r, ex)"
  shows "set r \<subseteq> set rest" "a \<in> fst ` set acts \<Longrightarrow> a = opt \<or> (\<exists>c. exact p [CHR ''-'', c] = Some a)"
    "e = Some v \<Longrightarrow> take 2 n = ''--'' \<Longrightarrow> takes_value opt"
proof -
  have "set r \<subseteq> set rest \<and> (\<forall>a\<in>fst ` set acts. a = opt \<or> (\<exists>c. exact p [CHR ''-'', c] = Some a)) \<and>
      (\<forall>v. e = Some v \<longrightarrow> take 2 n = ''--'' \<longrightarrow> takes_value opt)"
  proof (cases e)
    case None
    then obtain r' where "match_next opt rest = Inr (acts, r')" "r' = r"
      using assms by (auto simp: match_option_def map_sum_Inr)
    then show ?thesis using match_next_parts None by (cases acts) fastforce+
  next
    case (Some v)
    then show ?thesis using assms match_joined_parts [of p opt n sep v rest acts r ex] by (simp add: match_option_def)
  qed
  then show "set r \<subseteq> set rest" "a \<in> fst ` set acts \<Longrightarrow> a = opt \<or> (\<exists>c. exact p [CHR ''-'', c] = Some a)"
    "e = Some v \<Longrightarrow> take 2 n = ''--'' \<Longrightarrow> takes_value opt" by blast+
qed

lemma take_actions_source:
  "take_actions acts st = Inr st' \<Longrightarrow> dict_get (vals st') d \<noteq> dict_get (vals st) d \<Longrightarrow> \<exists>act\<in>set acts. dest_of act = d"
proof (induction acts arbitrary: st)
  case (Cons act acts)
  obtain opt v where act: "act = (opt, v)" by fastforce
  obtain st1 where st1: "take_action opt v st = Inr st1" "take_actions acts st1 = Inr st'"
    using Cons.prems(1) by (auto simp: act split: sum.splits)
  show ?case
  proof (cases "dict_get (vals st') d = dict_get (vals st1) d")
    case True
    then have "dict_get (vals st1) d \<noteq> dict_get (vals st) d" using Cons.prems(2) by simp
    then have "opt_dest opt = d" using st1(1) by (auto simp: take_action_def map_sum_Inr dict_get_put split: if_splits)
    then show ?thesis by (simp add: act)
  next
    case False
    then show ?thesis using Cons.IH [OF st1(2)] by auto
  qed
qed simp

text \<open>A token whose options include one for \<open>d\<close>.\<close>

definition gives :: "option_spec list \<Rightarrow> token \<Rightarrow> string \<Rightarrow> bool" where
  "gives p t d \<longleftrightarrow>
     (\<exists>opt n sep e rest acts r ex a. t = Optn opt n sep e \<and> match_option p opt n sep e rest = Inr (acts, r, ex) \<and>
        a \<in> fst ` set acts \<and> opt_dest a = d)"

lemma consume_source:
  "consume p ts st = Inr st' \<Longrightarrow> dict_get (vals st') d \<noteq> dict_get (vals st) d \<Longrightarrow> \<exists>(s, t)\<in>set ts. gives p t d"
proof (induction p ts st rule: consume.induct)
  case (2 p s t ts st)
  show ?case
  proof (cases "\<exists>opt n sep e. t = Optn opt n sep e")
    case False
    then show ?thesis using 2 by (cases t) auto
  next
    case True
    then obtain opt n sep e where t: "t = Optn opt n sep e" by blast
    obtain acts r ex st1 where m: "match_option p opt n sep e ts = Inr (acts, r, ex)"
      "take_actions acts (st\<lparr>extras := extras st @ ex\<rparr>) = Inr st1" "consume p r st1 = Inr st'"
      using "2.prems"(1) by (auto simp: t split: sum.splits)
    show ?thesis
    proof (cases "dict_get (vals st') d = dict_get (vals st1) d")
      case True
      then have "dict_get (vals st1) d \<noteq> dict_get (vals (st\<lparr>extras := extras st @ ex\<rparr>)) d" using "2.prems"(2) by simp
      then obtain act where "act \<in> set acts" "dest_of act = d"
        using take_actions_source [OF m(2)] by blast
      then have "gives p t d" unfolding gives_def using m(1) t by blast
      then show ?thesis by simp
    next
      case False
      have "set r \<subseteq> set ts" by (rule match_option_parts(1) [OF m(1)])
      moreover have "\<exists>(s, t)\<in>set r. gives p t d"
        using "2.IH"(4) [OF t m(1) HOL.refl HOL.refl m(2,3) False] .
      ultimately show ?thesis by auto
    qed
  qed
qed simp

lemma classify_all_token:
  "classify_all p argv = Inr ts \<Longrightarrow> (s, t) \<in> set ts \<Longrightarrow> t = Optn opt n sep e \<Longrightarrow>
     s \<in> set argv \<and> s \<noteq> ''--'' \<and> classify p s = Inr (Optn opt n sep e)"
proof (induction argv arbitrary: ts)
  case (Cons x argv)
  then show ?case by (auto simp: map_sum_Inr split: if_splits sum.splits)
qed simp

lemma parse_source:
  assumes "parse_args p argv = Inr ns" "dict_get ns d \<noteq> dict_get (vals (initial p)) d"
  obtains s opt n sep e rest acts r ex a where "s \<in> set argv" "s \<noteq> ''--''" "classify p s = Inr (Optn opt n sep e)"
    "match_option p opt n sep e rest = Inr (acts, r, ex)" "a \<in> fst ` set acts" "opt_dest a = d"
proof -
  obtain ts st where ts: "classify_all p argv = Inr ts" "consume p ts (initial p) = Inr st" "ns = vals st"
    using assms(1) by (auto simp: parse_args_def split: sum.splits if_splits)
  then have neq: "dict_get (vals st) d \<noteq> dict_get (vals (initial p)) d" using assms(2) by simp
  obtain s t where t: "(s, t) \<in> set ts" "gives p t d" using consume_source [OF ts(2) neq] by blast
  then obtain opt n sep e rest acts r ex a where *: "t = Optn opt n sep e"
    "match_option p opt n sep e rest = Inr (acts, r, ex)" "a \<in> fst ` set acts" "opt_dest a = d"
    unfolding gives_def by (elim exE conjE)
  show thesis using that classify_all_token [OF ts(1) t(1) *(1)] *(2-4) by blast
qed

text \<open>The string an option was recognised by is one of its strings or an abbreviation of one.\<close>

lemma candidates_option:
  assumes "Optn opt n sep e \<in> set (candidates p s)"
  shows "opt \<in> set p \<and> n \<in> set (opt_strings opt) \<and> (e = None \<longrightarrow> prefix s n)"
  using assms by (auto simp: candidates_def split: if_splits option.splits)

lemma classify_option:
  assumes "classify p s = Inr (Optn opt n sep e)"
  shows "opt \<in> set p \<and> n \<in> set (opt_strings opt) \<and> (e = None \<longrightarrow> prefix s n)"
proof -
  consider "exact p s = Some opt" "n = s" | v where "exact p n = Some opt" "e = Some v"
    | "candidates p s = [Optn opt n sep e]"
    using assms unfolding classify_def
    by (auto split: if_splits option.splits list.splits)
  then show ?thesis
  proof cases
    case 3
    then have "Optn opt n sep e \<in> set (candidates p s)" by simp
    then show ?thesis by (rule candidates_option)
  qed (auto dest: exact_Some)
qed

end
