(* ===== verification/Py_Value.thy ===== *)
theory Py_Value
  imports Py_Text Complex_Main
begin

text \<open>
  Python values: \<open>yaml\<close> is what \<open>yaml.safe_load\<close> makes of a configuration file (dictionaries are
  association lists with string keys in insertion order), \<open>raw\<close> is what the \<open>raw\<close> attribute of an
  SDO variable holds and what the built-in types make of a string the user types.  Floats are exact
  rational numbers.  As in \<open>Py_Text\<close>, this is the language, not the repository's code.
\<close>

datatype yaml =
    YNull
  | YBool bool
  | YInt int
  | YFloat rat
  | YStr string
  | YList "yaml list"
  | YDict "(string \<times> yaml) list"

type_synonym yaml_dict = "(string \<times> yaml) list"

subsection \<open>Conversions of the built-in types\<close>

fun truthy :: "yaml \<Rightarrow> bool" where
  "truthy YNull = False"
| "truthy (YBool b) = b"
| "truthy (YInt i) = (i \<noteq> 0)"
| "truthy (YFloat r) = (r \<noteq> 0)"
| "truthy (YStr s) = (s \<noteq> [])"
| "truthy (YList xs) = (xs \<noteq> [])"
| "truthy (YDict d) = (d \<noteq> [])"

definition bad_int_type :: exn where
  "bad_int_type = Exn TypeError ''int() argument must be a string, a bytes-like object or a real number''"

text \<open>\<open>int(x)\<close>: a float is cut off towards zero.\<close>

fun yaml_int :: "yaml \<Rightarrow> exn + int" where
  "yaml_int (YBool b) = Inr (of_bool b)"
| "yaml_int (YInt i) = Inr i"
| "yaml_int (YFloat r) = Inr (if r < 0 then - \<lfloor>- r\<rfloor> else \<lfloor>r\<rfloor>)"
| "yaml_int (YStr s) = py_int s"
| "yaml_int _ = Inl bad_int_type"

definition get_or :: "yaml_dict \<Rightarrow> string \<Rightarrow> yaml \<Rightarrow> yaml" where
  "get_or d k v = (case dict_get d k of None \<Rightarrow> v | Some x \<Rightarrow> x)"

text \<open>\<open>get\<close> on a value that is not a dictionary raises \<open>AttributeError\<close>.\<close>

definition no_get :: exn where
  "no_get = Exn AttributeError ''object has no attribute get''"

fun yaml_get :: "yaml \<Rightarrow> string \<Rightarrow> exn + yaml" where
  "yaml_get (YDict d) k = Inr (get_or d k YNull)"
| "yaml_get _ k = Inl no_get"

subsection \<open>Values of object dictionary variables\<close>

datatype pyfloat = Fin rat | Inf bool | NaN

datatype raw =
    RNone
  | RBool bool
  | RInt int
  | RFloat pyfloat
  | RStr string
  | RBytes "byte list"

text \<open>\<open>type(v)\<close>, and the call of such a type on a string.\<close>

datatype pytype = TNone | TBool | TInt | TFloat | TStr | TBytes

fun type_of :: "raw \<Rightarrow> pytype" where
  "type_of RNone = TNone"
| "type_of (RBool _) = TBool"
| "type_of (RInt _) = TInt"
| "type_of (RFloat _) = TFloat"
| "type_of (RStr _) = TStr"
| "type_of (RBytes _) = TBytes"

text \<open>
  \<open>float(s)\<close>: a sign, then \<open>inf\<close>, \<open>infinity\<close> or \<open>nan\<close> in any case, or digits with a point and an
  exponent, underscores allowed between digits.  The value is exact.
\<close>

definition cut_at :: "(char \<Rightarrow> bool) \<Rightarrow> string \<Rightarrow> string \<times> string option" where
  "cut_at f s = (takeWhile (\<lambda>c. \<not> f c) s,
     case dropWhile (\<lambda>c. \<not> f c) s of [] \<Rightarrow> None | c # cs \<Rightarrow> Some cs)"

fun signed :: "string \<Rightarrow> bool \<times> string" where
  "signed [] = (False, [])"
| "signed (c # cs) = (if c = CHR ''-'' then (True, cs) else if c = CHR ''+'' then (False, cs) else (False, c # cs))"

definition exponent_of :: "string option \<Rightarrow> int option" where
  "exponent_of ex =
     (case ex of
        None \<Rightarrow> Some 0
      | Some e \<Rightarrow> (case signed e of (neg, ds) \<Rightarrow>
          map_option (\<lambda>n. if neg then - int n else int n) (int_digits 0 False ds)))"

definition mantissa_of :: "string \<Rightarrow> rat option" where
  "mantissa_of m =
     (case cut_at (\<lambda>c. c = CHR ''.'') m of (ip, fp) \<Rightarrow>
       let digits = (\<lambda>s. if s = [] then Some 0 else int_digits 0 False s);
           f = (case fp of None \<Rightarrow> [] | Some f \<Rightarrow> f)
       in if ip = [] \<and> f = [] then None
          else (case (digits ip, digits f) of
                  (Some i, Some k) \<Rightarrow> Some (of_nat i + of_nat k / 10 ^ length (filter (\<lambda>c. c \<noteq> CHR ''_'') f))
                | _ \<Rightarrow> None))"

definition bad_float :: "string \<Rightarrow> exn" where
  "bad_float s = Exn ValueError (''could not convert string to float: '' @ s)"

definition py_float :: "string \<Rightarrow> exn + pyfloat" where
  "py_float s =
     (case signed (strip s) of (neg, t) \<Rightarrow>
        if lower t \<in> {''inf'', ''infinity''} then Inr (Inf neg)
        else if lower t = ''nan'' then Inr NaN
        else (case cut_at (\<lambda>c. c = CHR ''e'' \<or> c = CHR ''E'') t of (m, ex) \<Rightarrow>
          (case (mantissa_of m, exponent_of ex) of
             (Some v, Some k) \<Rightarrow> Inr (Fin ((if neg then - v else v) * 10 powi k))
           | _ \<Rightarrow> Inl (bad_float s))))"

fun convert :: "pytype \<Rightarrow> string \<Rightarrow> exn + raw" where
  "convert TNone s = Inl (Exn TypeError ''NoneType takes no arguments'')"
| "convert TBool s = Inr (RBool (s \<noteq> []))"
| "convert TInt s = map_sum id RInt (py_int s)"
| "convert TFloat s = map_sum id RFloat (py_float s)"
| "convert TStr s = Inr (RStr s)"
| "convert TBytes s = Inl (Exn TypeError ''string argument without an encoding'')"

lemma convert_type: "convert t s = Inr v \<Longrightarrow> type_of v = t"
  by (cases t) (auto simp: map_sum_def split: sum.splits)

end
