(* ===== verification/Tool_World.thy ===== *)
theory Tool_World
  imports Py_Value "HOL-Library.Sublist"
begin

text \<open>
  The world the two command-line tools run in: the console (lines still to be typed and what has
  been printed), the state \<open>dev\<close> of everything outside (the CAN network with its nodes, the
  python-canopen objects, the clock), and the history \<open>cmds\<close> of the commands sent to the network.

  python-canopen, SocketCAN, the clock and the file system are not part of the repository.  The
  first three are the parameter \<open>can_api\<close>: one function on \<open>dev\<close> for each library call the tools
  make, which may change \<open>dev\<close> and return or raise.  A node object is a number.  Times are exact
  rational seconds.  The last is the parameter \<open>files\<close>; files do not change during a run.
\<close>

subsection \<open>Console, commands, library\<close>

datatype input_line = Line string | Ctrl_C

text \<open>
  What is printed: literal text and interpolated values (\<open>{v}\<close>, left unformatted).  A progress bar
  keeps its four parts: the fraction, the bar, the bytes sent and the size.
\<close>

datatype piece = Txt string | Yam yaml | Val raw

datatype console_out =
    Print "piece list"
  | Prompt "piece list"
  | Bar rat string nat nat
  | Clear_screen

text \<open>The parts of \<open>canopen.objectdictionary\<close> from which the tools build a dictionary.\<close>

datatype od_type = UNSIGNED8 | UNSIGNED32 | DOMAIN

record od_variable =
  var_name :: string
  var_index :: int
  var_subindex :: int
  var_data_type :: od_type

record od_array =
  arr_name :: string
  arr_index :: int
  arr_members :: "od_variable list"

text \<open>
  Commands: what is sent to the network, in the words of the tools.  \<open>C_status\<close> is a mark for the
  proofs: it records the value a wait for the flash status returned.
\<close>

datatype command =
    C_add_node int
  | C_connect yaml yaml
  | C_disconnect
  | C_write int int int
  | C_nmt string
  | C_bootup rat
  | C_open int int nat nat
  | C_chunk "byte list"
  | C_close
  | C_status int
  | C_register int
  | C_set_raw int "int option" raw
  | C_nmt_command int int
  | C_transmit int "raw list"

record 'd world =
  dev :: 'd
  inp :: "input_line list"
  out :: "console_out list"
  cmds :: "command list"

record 'd can_api =
  api_time :: "'d \<Rightarrow> rat \<times> 'd"
  api_sleep :: "rat \<Rightarrow> 'd \<Rightarrow> (exn + unit) \<times> 'd"
  api_add_node :: "int \<Rightarrow> od_array list \<Rightarrow> 'd \<Rightarrow> (exn + nat) \<times> 'd"
  api_timeouts :: "nat \<Rightarrow> rat \<Rightarrow> nat option \<Rightarrow> 'd \<Rightarrow> 'd"
  api_connect :: "yaml \<Rightarrow> yaml \<Rightarrow> 'd \<Rightarrow> (exn + unit) \<times> 'd"
  api_disconnect :: "'d \<Rightarrow> (exn + unit) \<times> 'd"
  api_read :: "nat \<Rightarrow> int \<Rightarrow> int \<Rightarrow> 'd \<Rightarrow> (exn + int) \<times> 'd"
  api_write :: "nat \<Rightarrow> int \<Rightarrow> int \<Rightarrow> int \<Rightarrow> 'd \<Rightarrow> (exn + unit) \<times> 'd"
  api_set_state :: "nat \<Rightarrow> string \<Rightarrow> 'd \<Rightarrow> (exn + unit) \<times> 'd"
  api_bootup :: "nat \<Rightarrow> rat \<Rightarrow> 'd \<Rightarrow> (exn + unit) \<times> 'd"
  api_open :: "nat \<Rightarrow> int \<Rightarrow> int \<Rightarrow> nat \<Rightarrow> nat \<Rightarrow> 'd \<Rightarrow> (exn + unit) \<times> 'd"
  api_chunk :: "nat \<Rightarrow> byte list \<Rightarrow> 'd \<Rightarrow> (exn + unit) \<times> 'd"
  api_close :: "nat \<Rightarrow> 'd \<Rightarrow> (exn + unit) \<times> 'd"

text \<open>\<open>os.path.isfile\<close>, \<open>os.path.abspath\<close>, \<open>os.path.getsize\<close>, and the bytes of a file opened for reading.\<close>

record files =
  f_isfile :: "string \<Rightarrow> bool"
  f_abspath :: "string \<Rightarrow> string"
  f_size :: "string \<Rightarrow> exn + nat"
  f_data :: "string \<Rightarrow> exn + byte list"

definition basename :: "string \<Rightarrow> string" where
  "basename p = rev (takeWhile (\<lambda>c. c \<noteq> CHR ''/'') (rev p))"

definition print_out :: "piece list \<Rightarrow> (('d, 'z) world_scheme, unit) py" where
  "print_out ps = py_effect (\<lambda>w. w\<lparr>out := out w @ [Print ps]\<rparr>)"

definition say :: "string \<Rightarrow> (('d, 'z) world_scheme, unit) py" where
  "say s = print_out [Txt s]"

lemma say_run: "say s w = Some (Inr (), w\<lparr>out := out w @ [Print [Txt s]]\<rparr>)"
  by (simp add: say_def print_out_def py_simps)

definition newline :: string where
  "newline = [CHR 0x0A]"

text \<open>\<open>input(prompt)\<close>: at the end of the input it raises \<open>EOFError\<close>, every time.\<close>

definition ask :: "piece list \<Rightarrow> (('d, 'z) world_scheme, string) py" where
  "ask prompt w =
     (let w' = w\<lparr>out := out w @ [Prompt prompt]\<rparr>
      in case inp w of
           [] \<Rightarrow> Some (Inl (Exn EOFError ''EOF when reading a line''), w')
         | Line s # rest \<Rightarrow> Some (Inr s, w'\<lparr>inp := rest\<rparr>)
         | Ctrl_C # rest \<Rightarrow> Some (Inl (Exn KeyboardInterrupt []), w'\<lparr>inp := rest\<rparr>))"

definition py_input :: "string \<Rightarrow> (('d, 'z) world_scheme, string) py" where
  "py_input prompt = ask [Txt prompt]"

lemma ask_Line: "inp w = Line s # ls \<Longrightarrow> ask p w = Some (Inr s, w\<lparr>out := out w @ [Prompt p], inp := ls\<rparr>)"
  by (simp add: ask_def)

lemma input_Line:
  "inp w = Line s # ls \<Longrightarrow> py_input p w = Some (Inr s, w\<lparr>out := out w @ [Prompt [Txt p]], inp := ls\<rparr>)"
  by (simp add: py_input_def ask_Line)

lemma input_end: "inp w = [] \<Longrightarrow>
    ask p w = Some (Inl (Exn EOFError ''EOF when reading a line''), w\<lparr>out := out w @ [Prompt p]\<rparr>)"
  by (simp add: ask_def)

subsection \<open>Calls into the library\<close>

text \<open>A call that changes the network is recorded; the record says it was attempted.\<close>

definition dev_call :: "('d \<Rightarrow> (exn + 'a) \<times> 'd) \<Rightarrow> (('d, 'z) world_scheme, 'a) py" where
  "dev_call f w = (case f (dev w) of (r, d) \<Rightarrow> Some (r, w\<lparr>dev := d\<rparr>))"

definition record_cmd :: "command \<Rightarrow> (('d, 'z) world_scheme, unit) py" where
  "record_cmd c = py_effect (\<lambda>w. w\<lparr>cmds := cmds w @ [c]\<rparr>)"

definition command :: "command \<Rightarrow> ('d \<Rightarrow> (exn + 'a) \<times> 'd) \<Rightarrow> (('d, 'z) world_scheme, 'a) py" where
  "command c f = py_bind (record_cmd c) (\<lambda>_. dev_call f)"

definition get_time :: "'d can_api \<Rightarrow> (('d, 'z) world_scheme, rat) py" where
  "get_time api = dev_call (\<lambda>d. case api_time api d of (t, d') \<Rightarrow> (Inr t, d'))"

definition sleep :: "'d can_api \<Rightarrow> rat \<Rightarrow> (('d, 'z) world_scheme, unit) py" where
  "sleep api s = dev_call (api_sleep api s)"

subsection \<open>Which commands a statement issues\<close>

text \<open>
  \<open>emits m S\<close>: when \<open>m\<close> returns, it has appended some commands to the history, and \<open>S\<close> holds of
  its result and these commands.
\<close>

definition emits :: "(('d, 'z) world_scheme, 'a) py \<Rightarrow> (exn + 'a \<Rightarrow> command list \<Rightarrow> bool) \<Rightarrow> bool" where
  "emits m S \<longleftrightarrow> (\<forall>w r w'. m w = Some (r, w') \<longrightarrow> (\<exists>cs. cmds w' = cmds w @ cs \<and> S r cs))"

text \<open>
  \<open>does m P F\<close>: on success \<open>m\<close> issues exactly the commands \<open>P\<close>, in this order; when it raises, the
  commands it has issued satisfy \<open>F\<close>.  \<open>issues m P\<close> is the case of a straight-line piece, which
  stops after a prefix of \<open>P\<close>.
\<close>

definition does ::
    "(('d, 'z) world_scheme, 'a) py \<Rightarrow> command list \<Rightarrow> (command list \<Rightarrow> bool) \<Rightarrow> bool" where
  "does m P F \<longleftrightarrow> emits m (\<lambda>r cs. case r of Inr _ \<Rightarrow> cs = P | Inl _ \<Rightarrow> F cs)"

abbreviation issues :: "(('d, 'z) world_scheme, 'a) py \<Rightarrow> command list \<Rightarrow> bool" where
  "issues m P \<equiv> does m P (\<lambda>cs. prefix cs P)"

text \<open>Stopping in the first part, or in the second after all of the first.\<close>

definition then_stop ::
    "(command list \<Rightarrow> bool) \<Rightarrow> command list \<Rightarrow> (command list \<Rightarrow> bool) \<Rightarrow> command list \<Rightarrow> bool" where
  "then_stop F P G cs \<longleftrightarrow> F cs \<or> (\<exists>ds. cs = P @ ds \<and> G ds)"

lemma emitsD: "emits m S \<Longrightarrow> m w = Some (r, w') \<Longrightarrow> \<exists>cs. cmds w' = cmds w @ cs \<and> S r cs"
  by (simp add: emits_def)

lemma emits_weaken: "emits m S \<Longrightarrow> (\<And>r cs. S r cs \<Longrightarrow> T r cs) \<Longrightarrow> emits m T"
  by (fastforce simp: emits_def)

lemma emits_all:
  assumes "\<And>s. emits m (S s)"
  shows "emits m (\<lambda>r cs. \<forall>s. S s r cs)"
  unfolding emits_def
proof (intro allI impI)
  fix w r w' assume run: "m w = Some (r, w')"
  obtain cs where cs: "cmds w' = cmds w @ cs" using emitsD [OF assms run] by blast
  then have "S s r cs" for s using emitsD [OF assms [of s] run] by auto
  with cs show "\<exists>cs. cmds w' = cmds w @ cs \<and> (\<forall>s. S s r cs)" by blast
qed

lemma emits_return: "emits (py_return x) (\<lambda>r cs. r = Inr x \<and> cs = [])"
  by (simp add: emits_def py_simps)

lemma emits_raise: "emits (py_raise e) (\<lambda>r cs. r = Inl e \<and> cs = [])"
  by (simp add: emits_def py_simps)

lemma emits_dev_call: "emits (dev_call f) (\<lambda>r cs. cs = [])"
  by (auto simp: emits_def dev_call_def split: prod.splits)

lemma emits_bind:
  assumes "emits m S" "\<And>x. emits (f x) (T x)"
  shows "emits (py_bind m f)
     (\<lambda>r cs. (\<exists>e. r = Inl e \<and> S (Inl e) cs) \<or> (\<exists>x as bs. cs = as @ bs \<and> S (Inr x) as \<and> T x r bs))"
  unfolding emits_def
proof (intro allI impI)
  fix w r w'
  assume "py_bind m f w = Some (r, w')"
  then consider e where "m w = Some (Inl e, w')" "r = Inl e"
    | x w1 where "m w = Some (Inr x, w1)" "f x w1 = Some (r, w')"
    by (auto simp: py_bind_eq_Some)
  then show "\<exists>cs. cmds w' = cmds w @ cs \<and>
      ((\<exists>e. r = Inl e \<and> S (Inl e) cs) \<or> (\<exists>x as bs. cs = as @ bs \<and> S (Inr x) as \<and> T x r bs))"
  proof cases
    case (1 e)
    then show ?thesis using emitsD [OF assms(1)] by blast
  next
    case (2 x w1)
    then obtain as bs where "cmds w1 = cmds w @ as" "S (Inr x) as" "cmds w' = cmds w1 @ bs" "T x r bs"
      using emitsD [OF assms(1)] emitsD [OF assms(2)] by metis
    then show ?thesis by (intro exI [of _ "as @ bs"]) auto
  qed
qed

lemma emits_except:
  assumes "emits m S" "\<And>e. emits (h e) (T e)"
  shows "emits (py_except m h)
     (\<lambda>r cs. (S r cs \<and> (\<forall>e. r = Inl e \<longrightarrow> \<not> is_exception e)) \<or>
        (\<exists>e as bs. cs = as @ bs \<and> is_exception e \<and> S (Inl e) as \<and> T e r bs))"
  unfolding emits_def
proof (intro allI impI)
  fix w r w'
  assume "py_except m h w = Some (r, w')"
  then consider "m w = Some (r, w')" "\<forall>e. r = Inl e \<longrightarrow> \<not> is_exception e"
    | e w1 where "m w = Some (Inl e, w1)" "is_exception e" "h e w1 = Some (r, w')"
    by (auto simp: py_except_def split: option.splits sum.splits if_splits)
  then show "\<exists>cs. cmds w' = cmds w @ cs \<and>
      ((S r cs \<and> (\<forall>e. r = Inl e \<longrightarrow> \<not> is_exception e)) \<or>
       (\<exists>e as bs. cs = as @ bs \<and> is_exception e \<and> S (Inl e) as \<and> T e r bs))"
  proof cases
    case 1
    then show ?thesis using emitsD [OF assms(1)] by blast
  next
    case (2 e w1)
    then obtain as bs where "cmds w1 = cmds w @ as" "S (Inl e) as" "cmds w' = cmds w1 @ bs" "T e r bs"
      using emitsD [OF assms(1)] emitsD [OF assms(2)] by metis
    then show ?thesis using 2(2) by (intro exI [of _ "as @ bs"]) auto
  qed
qed

lemma emits_finally:
  assumes "emits m S" "emits c T"
  shows "emits (py_finally m c)
     (\<lambda>r cs. \<exists>r1 as bs. cs = as @ bs \<and> S r1 as \<and>
        ((\<exists>e. r = Inl e \<and> T (Inl e) bs) \<or> (r = r1 \<and> T (Inr ()) bs)))"
  unfolding emits_def
proof (intro allI impI)
  fix w r w'
  assume "py_finally m c w = Some (r, w')"
  then obtain r1 w1 r2 where *: "m w = Some (r1, w1)" "c w1 = Some (r2, w')"
    "(\<exists>e. r2 = Inl e \<and> r = Inl e) \<or> (r2 = Inr () \<and> r = r1)"
    by (auto simp: py_finally_def split: option.splits sum.splits)
  then obtain as bs where "cmds w1 = cmds w @ as" "S r1 as" "cmds w' = cmds w1 @ bs" "T r2 bs"
    using emitsD [OF assms(1)] emitsD [OF assms(2)] by metis
  then show "\<exists>cs. cmds w' = cmds w @ cs \<and> (\<exists>r1 as bs. cs = as @ bs \<and> S r1 as \<and>
        ((\<exists>e. r = Inl e \<and> T (Inl e) bs) \<or> (r = r1 \<and> T (Inr ()) bs)))"
    using *(3) by (intro exI [of _ "as @ bs"] conjI exI [of _ r1] exI [of _ as] exI [of _ bs]) auto
qed

lemma does_weaken: "does m P F \<Longrightarrow> (\<And>cs. F cs \<Longrightarrow> G cs) \<Longrightarrow> does m P G"
  unfolding does_def by (erule emits_weaken) (auto split: sum.splits)

lemma does_eq: "does m P F \<Longrightarrow> P = Q \<Longrightarrow> (\<And>cs. F cs \<Longrightarrow> G cs) \<Longrightarrow> does m Q G"
  using does_weaken by blast

lemma does_return: "does (py_return x) [] F"
  unfolding does_def by (rule emits_weaken [OF emits_return]) simp

lemma does_bind:
  "does m P F \<Longrightarrow> (\<And>x. does (f x) Q G) \<Longrightarrow> does (py_bind m f) (P @ Q) (then_stop F P G)"
  unfolding does_def then_stop_def
  by (rule emits_weaken, rule emits_bind, assumption, assumption) (auto split: sum.splits)

lemma does_Cons:
  "does m P F \<Longrightarrow> does (py_block ms) Q G \<Longrightarrow> does (py_block (m # ms)) (P @ Q) (then_stop F P G)"
  by (simp add: does_bind)

lemma then_stop_prefix: "then_stop (\<lambda>cs. prefix cs P) P (\<lambda>cs. prefix cs Q) cs \<Longrightarrow> prefix cs (P @ Q)"
  by (auto simp: then_stop_def)

lemma issues_bind: "issues m P \<Longrightarrow> (\<And>x. issues (f x) Q) \<Longrightarrow> issues (py_bind m f) (P @ Q)"
  by (rule does_weaken [OF does_bind then_stop_prefix])

lemma issues_block_Nil: "issues (py_block []) []"
  by (simp add: does_return)

lemma issues_block_Cons: "issues m P \<Longrightarrow> issues (py_block ms) Q \<Longrightarrow> issues (py_block (m # ms)) (P @ Q)"
  by (simp add: issues_bind)

lemma issues_dev_call: "issues (dev_call f) []"
  unfolding does_def by (rule emits_weaken [OF emits_dev_call]) (simp split: sum.split)

lemma issues_command: "issues (command c f) [c]"
  unfolding does_def emits_def command_def
  by (auto simp: record_cmd_def dev_call_def py_simps split: prod.splits sum.split)

lemma issues_say: "issues (say s) []"
  by (simp add: does_def emits_def say_def print_out_def py_simps)

lemma issues_print: "issues (print_out ps) []"
  by (simp add: does_def emits_def print_out_def py_simps)

text \<open>\<open>always m P\<close>: the commands \<open>P\<close> are issued whether \<open>m\<close> raises or not.\<close>

definition always :: "(('d, 'z) world_scheme, 'a) py \<Rightarrow> command list \<Rightarrow> bool" where
  "always m P \<longleftrightarrow> emits m (\<lambda>r cs. cs = P)"

lemma always_issues: "always m P \<Longrightarrow> issues m P"
  unfolding always_def does_def by (erule emits_weaken) (simp split: sum.split)

lemma issues_quiet: "issues m [] \<longleftrightarrow> always m []"
  by (simp add: always_def does_def emits_def split: sum.split)

lemma always_command: "always (command c f) [c]"
  by (auto simp: always_def emits_def command_def record_cmd_def dev_call_def py_simps split: prod.splits)

lemma always_bind_quiet: "always m P \<Longrightarrow> (\<And>x. always (f x) []) \<Longrightarrow> always (py_bind m f) P"
  unfolding always_def by (rule emits_weaken, rule emits_bind, assumption, assumption) auto

lemma always_except_quiet: "always m P \<Longrightarrow> (\<And>e. always (h e) []) \<Longrightarrow> always (py_except m h) P"
  unfolding always_def by (rule emits_weaken, rule emits_except, assumption, assumption) auto

lemma always_quiet: "always (say s) []" "always (print_out ps) []" "always (dev_call f) []"
  "always (py_return x) []" "always (py_raise e) []"
  by (auto simp: always_def emits_def say_def print_out_def dev_call_def py_simps split: prod.splits)

lemma always_ask: "always (ask prompt) []"
  by (auto simp: always_def emits_def ask_def Let_def split: list.splits input_line.splits)

lemma always_input: "always (py_input prompt) []"
  unfolding py_input_def by (rule always_ask)

lemmas always_rules = always_ask always_input always_command always_bind_quiet always_except_quiet always_quiet

lemmas issues_rules = issues_bind issues_block_Nil issues_block_Cons issues_dev_call issues_command
  issues_say issues_print does_return

subsection \<open>Statements that may not return\<close>

text \<open>The combinators are monotone, so that \<open>partial_function (option)\<close> accepts loops over them.\<close>

lemma py_bind_via: "py_bind m f w =
    Option.bind (m w) (\<lambda>p. case fst p of Inl e \<Rightarrow> Some (Inl e, snd p) | Inr x \<Rightarrow> f x (snd p))"
  by (cases "m w") (auto simp: py_bind_def split: sum.split)

lemma py_bind_mono [partial_function_mono]:
  assumes "\<And>w. mono_option (\<lambda>g. B g w)" "\<And>x w. mono_option (\<lambda>g. C g x w)"
  shows "mono_option (\<lambda>g. py_bind (B g) (C g) w)"
  unfolding py_bind_via
proof (rule bind_mono [OF assms(1)])
  fix p show "mono_option (\<lambda>g. case fst p of Inl e \<Rightarrow> Some (Inl e, snd p) | Inr x \<Rightarrow> C g x (snd p))"
    by (cases "fst p") (auto intro: assms(2) option.const_mono)
qed

lemma py_except_via: "py_except m h w =
    Option.bind (m w) (\<lambda>p. case fst p of
      Inl e \<Rightarrow> (if is_exception e then h e (snd p) else Some (Inl e, snd p)) | Inr x \<Rightarrow> Some (Inr x, snd p))"
  by (cases "m w") (auto simp: py_except_def split: sum.split)

lemma py_except_mono [partial_function_mono]:
  assumes "\<And>w. mono_option (\<lambda>g. B g w)" "\<And>x w. mono_option (\<lambda>g. C g x w)"
  shows "mono_option (\<lambda>g. py_except (B g) (C g) w)"
  unfolding py_except_via
proof (rule bind_mono [OF assms(1)])
  fix p show "mono_option (\<lambda>g. case fst p of
      Inl e \<Rightarrow> (if is_exception e then C g e (snd p) else Some (Inl e, snd p)) | Inr x \<Rightarrow> Some (Inr x, snd p))"
  proof (cases "fst p")
    case (Inl e)
    then show ?thesis by (cases "is_exception e") (auto intro: assms(2) option.const_mono)
  qed (simp add: option.const_mono)
qed

subsection \<open>Example worlds\<close>

text \<open>A node that answers every request at once, with a clock moved by sleeping only.\<close>

definition prompt_node :: "rat can_api" where
  "prompt_node = \<lparr>api_time = (\<lambda>d. (d, d)), api_sleep = (\<lambda>t d. (Inr (), d + t)),
     api_add_node = (\<lambda>n od d. (Inr 0, d)), api_timeouts = (\<lambda>n t r d. d),
     api_connect = (\<lambda>i b d. (Inr (), d)), api_disconnect = (\<lambda>d. (Inr (), d)),
     api_read = (\<lambda>n i s d. (Inr 0, d)), api_write = (\<lambda>n i s v d. (Inr (), d)),
     api_set_state = (\<lambda>n s d. (Inr (), d)), api_bootup = (\<lambda>n t d. (Inr (), d)),
     api_open = (\<lambda>n i s bs sz d. (Inr (), d)), api_chunk = (\<lambda>n bs d. (Inr (), d)),
     api_close = (\<lambda>n d. (Inr (), d))\<rparr>"

definition one_file :: "string \<Rightarrow> byte list \<Rightarrow> files" where
  "one_file path data = \<lparr>f_isfile = (\<lambda>p. p = path), f_abspath = id,
     f_size = (\<lambda>p. Inr (length data)), f_data = (\<lambda>p. Inr data)\<rparr>"

definition fresh_world :: "'d \<Rightarrow> input_line list \<Rightarrow> 'd world" where
  "fresh_world d ls = \<lparr>dev = d, inp = ls, out = [], cmds = []\<rparr>"

lemma prompt_api [simp]:
  "api_time prompt_node d = (d, d)" "api_sleep prompt_node t d = (Inr (), d + t)"
  "api_add_node prompt_node n od d = (Inr 0, d)" "api_timeouts prompt_node k t q d = d"
  "api_connect prompt_node i b d = (Inr (), d)" "api_disconnect prompt_node d = (Inr (), d)"
  "api_read prompt_node k x s d = (Inr 0, d)" "api_write prompt_node k x s v d = (Inr (), d)"
  "api_set_state prompt_node k m d = (Inr (), d)" "api_bootup prompt_node k t d = (Inr (), d)"
  "api_open prompt_node k x s bs sz d = (Inr (), d)" "api_chunk prompt_node k bytes d = (Inr (), d)"
  "api_close prompt_node k d = (Inr (), d)"
  by (simp_all add: prompt_node_def)

end
