(* ===== verification/Firmware_Update.thy ===== *)
theory Firmware_Update
  imports Tool_World
begin

text \<open>
  \<open>co-firmware-update.py\<close>: updating the program of a CANopen node over SDO.  The object dictionary
  the script builds, the wait for the flash status, \<open>flash_firmware\<close> step by step, the
  configuration file and \<open>main\<close> with its exit codes.  The loop of the wait may not end, so it is a
  \<open>partial_function (option)\<close>, and that it ends is a theorem about any clock that advances.
\<close>

subsection \<open>Constants and the object dictionary\<close>

definition DEFAULT_TIMEOUT :: rat where "DEFAULT_TIMEOUT = 60"
definition DEFAULT_SDO_TIMEOUT :: rat where "DEFAULT_SDO_TIMEOUT = 10"
definition DEFAULT_SDO_RETRIES :: nat where "DEFAULT_SDO_RETRIES = 1"
definition DEFAULT_BUFFER_SIZE :: nat where "DEFAULT_BUFFER_SIZE = 1024"

definition H1F50_PROGRAM_DATA :: int where "H1F50_PROGRAM_DATA = 0x1F50"
definition H1F51_PROGRAM_CTRL :: int where "H1F51_PROGRAM_CTRL = 0x1F51"
definition H1F56_PROGRAM_SWID :: int where "H1F56_PROGRAM_SWID = 0x1F56"
definition H1F57_FLASH_STATUS :: int where "H1F57_FLASH_STATUS = 0x1F57"
definition PROGRAM_NUMBER :: int where "PROGRAM_NUMBER = 1"

definition PROGRAM_CTRL_STOP :: int where "PROGRAM_CTRL_STOP = 0x00"
definition PROGRAM_CTRL_START :: int where "PROGRAM_CTRL_START = 0x01"
definition PROGRAM_CTRL_CLEAR :: int where "PROGRAM_CTRL_CLEAR = 0x03"
definition PROGRAM_CTRL_CONFIRM :: int where "PROGRAM_CTRL_CONFIRM = 0x80"

lemmas flash_consts = DEFAULT_TIMEOUT_def DEFAULT_SDO_TIMEOUT_def DEFAULT_SDO_RETRIES_def
  DEFAULT_BUFFER_SIZE_def H1F50_PROGRAM_DATA_def H1F51_PROGRAM_CTRL_def H1F56_PROGRAM_SWID_def
  H1F57_FLASH_STATUS_def PROGRAM_NUMBER_def PROGRAM_CTRL_STOP_def PROGRAM_CTRL_START_def
  PROGRAM_CTRL_CLEAR_def PROGRAM_CTRL_CONFIRM_def

text \<open>
  \<open>objdict.add_object\<close> keys the dictionary by index; the four indices differ, so it is the list of
  the arrays in the order they are added.
\<close>

definition create_flash_object_dictionary :: "od_array list" where
  "create_flash_object_dictionary =
     [\<lparr>arr_name = ''Program data'', arr_index = H1F50_PROGRAM_DATA, arr_members =
         [\<lparr>var_name = [], var_index = H1F50_PROGRAM_DATA, var_subindex = 1, var_data_type = DOMAIN\<rparr>]\<rparr>,
      \<lparr>arr_name = ''Program control'', arr_index = H1F51_PROGRAM_CTRL, arr_members =
         [\<lparr>var_name = [], var_index = H1F51_PROGRAM_CTRL, var_subindex = 1, var_data_type = UNSIGNED8\<rparr>]\<rparr>,
      \<lparr>arr_name = ''Program software ID'', arr_index = H1F56_PROGRAM_SWID, arr_members =
         [\<lparr>var_name = [], var_index = H1F56_PROGRAM_SWID, var_subindex = 1, var_data_type = UNSIGNED32\<rparr>]\<rparr>,
      \<lparr>arr_name = ''Flash error ID'', arr_index = H1F57_FLASH_STATUS, arr_members =
         [\<lparr>var_name = [], var_index = H1F57_FLASH_STATUS, var_subindex = 1, var_data_type = UNSIGNED32\<rparr>]\<rparr>]"

subsection \<open>Waiting for the flash status\<close>

text \<open>
  One attempt of the loop: the status read, or \<open>None\<close> when reading raised an \<open>Exception\<close>.
\<close>

definition try_status :: "'d can_api \<Rightarrow> nat \<Rightarrow> (('d, 'z) world_scheme, int option) py" where
  "try_status api node =
     py_except (py_bind (dev_call (api_read api node H1F57_FLASH_STATUS PROGRAM_NUMBER)) (\<lambda>s. py_return (Some s)))
       (\<lambda>e. py_return None)"

partial_function (option) wait_loop ::
    "'d can_api \<Rightarrow> nat \<Rightarrow> rat \<Rightarrow> int \<Rightarrow> (('d, 'z) world_scheme, int) py" where
  "wait_loop api node end_time status w =
     py_bind (try_status api node) (\<lambda>r w1.
       if r = Some 0 then py_return 0 w1
       else py_bind (get_time api) (\<lambda>t w2.
              if t > end_time then py_return (case r of None \<Rightarrow> status | Some s \<Rightarrow> s) w2
              else py_bind (sleep api (1 / 2)) (\<lambda>_ w3.
                     wait_loop api node end_time (case r of None \<Rightarrow> status | Some s \<Rightarrow> s) w3) w2) w1) w"

definition wait_for_flash_status_ok :: "'d can_api \<Rightarrow> nat \<Rightarrow> rat \<Rightarrow> (('d, 'z) world_scheme, int) py" where
  "wait_for_flash_status_ok api node timeout =
     py_bind (get_time api) (\<lambda>t0.
       py_bind (wait_loop api node (t0 + timeout) 0xFFFFFFFF) (\<lambda>status.
         py_bind (record_cmd (C_status status)) (\<lambda>_. py_return status)))"

subsection \<open>The steps of \<open>flash_firmware\<close>\<close>

text \<open>\<open>flash_node.sdo[H1F51_PROGRAM_CTRL][PROGRAM_NUMBER].raw = v\<close>.\<close>

definition program_ctrl :: "'d can_api \<Rightarrow> nat \<Rightarrow> int \<Rightarrow> (('d, 'z) world_scheme, unit) py" where
  "program_ctrl api node v =
     command (C_write H1F51_PROGRAM_CTRL PROGRAM_NUMBER v)
       (api_write api node H1F51_PROGRAM_CTRL PROGRAM_NUMBER v)"

definition enter_preop :: "'d can_api \<Rightarrow> nat \<Rightarrow> (('d, 'z) world_scheme, unit) py" where
  "enter_preop api node =
     command (C_nmt ''PRE-OPERATIONAL'') (api_set_state api node ''PRE-OPERATIONAL'')"

definition read_swid :: "'d can_api \<Rightarrow> nat \<Rightarrow> (('d, 'z) world_scheme, unit) py" where
  "read_swid api node =
     py_except
       (py_bind (dev_call (api_read api node H1F56_PROGRAM_SWID PROGRAM_NUMBER))
          (\<lambda>swid. say (newline @ ''[1/6] Current SW ID: '' @ hex08 swid)))
       (\<lambda>e. say (newline @ ''[1/6] Could not read current SW ID''))"

definition wait_and_warn :: "'d can_api \<Rightarrow> nat \<Rightarrow> (('d, 'z) world_scheme, unit) py" where
  "wait_and_warn api node =
     py_bind (say ''[2/6] Waiting for flash status...'') (\<lambda>_.
       py_bind (wait_for_flash_status_ok api node DEFAULT_TIMEOUT) (\<lambda>status.
         py_when (status \<noteq> 0) (say (''      Warning: flash status '' @ hex08 status))))"

definition stop_and_clear :: "'d can_api \<Rightarrow> nat \<Rightarrow> (('d, 'z) world_scheme, unit) py" where
  "stop_and_clear api node =
     py_block
       [say ''[3/6] Entering pre-operational mode...'',
        enter_preop api node,
        say ''[4/6] Stopping program...'',
        program_ctrl api node PROGRAM_CTRL_STOP,
        say ''[5/6] Clearing program (this may take a few seconds)...'',
        program_ctrl api node PROGRAM_CTRL_CLEAR]"

text \<open>The status check after a step: anything but 0 raises \<open>ValueError\<close>.\<close>

definition check_status :: "'d can_api \<Rightarrow> nat \<Rightarrow> string \<Rightarrow> string \<Rightarrow> (('d, 'z) world_scheme, unit) py" where
  "check_status api node failed ok =
     py_bind (wait_for_flash_status_ok api node DEFAULT_TIMEOUT) (\<lambda>status.
       if status \<noteq> 0 then py_raise (Exn ValueError (failed @ '': status '' @ hex08 status))
       else say ok)"

text \<open>
  The progress line.  \<open>percent\<close> and \<open>filled\<close> are computed exactly; Python computes them in floating
  point.
\<close>

definition show_progress :: "nat \<Rightarrow> nat \<Rightarrow> (('d, 'z) world_scheme, unit) py" where
  "show_progress bin_size total_sent =
     (if bin_size = 0 then py_raise (Exn ZeroDivisionError ''division by zero'')
      else
        let percent = of_nat total_sent / of_nat bin_size :: rat;
            filled = nat \<lfloor>40 * percent\<rfloor>;
            bar = replicate filled CHR ''#'' @ replicate (40 - filled) CHR ''-''
        in py_effect (\<lambda>w. w\<lparr>out := out w @ [Bar percent bar total_sent bin_size]\<rparr>))"

function download :: "'d can_api \<Rightarrow> nat \<Rightarrow> nat \<Rightarrow> nat \<Rightarrow> byte list \<Rightarrow> (('d, 'z) world_scheme, unit) py" where
  "download api node bin_size total_sent infile =
     (let chunk = take (DEFAULT_BUFFER_SIZE div 2) infile
      in if chunk = [] then py_return ()
         else py_bind (command (C_chunk chunk) (api_chunk api node chunk)) (\<lambda>_.
                py_bind (show_progress bin_size (total_sent + length chunk)) (\<lambda>_.
                  download api node bin_size (total_sent + length chunk)
                    (drop (DEFAULT_BUFFER_SIZE div 2) infile))))"
  by pat_completeness auto
termination
  by (relation "measure (\<lambda>(api, node, size, sent, infile). length infile)")
    (auto simp: DEFAULT_BUFFER_SIZE_def)

declare download.simps [simp del]

text \<open>The two \<open>with\<close> blocks: the SDO stream is closed on every path once it is open.\<close>

definition download_firmware :: "'d can_api \<Rightarrow> files \<Rightarrow> nat \<Rightarrow> string \<Rightarrow> (('d, 'z) world_scheme, unit) py" where
  "download_firmware api fs node bin_path =
     py_bind (say ''[6/6] Downloading firmware...'') (\<lambda>_.
       case f_size fs bin_path of
         Inl e \<Rightarrow> py_raise e
       | Inr bin_size \<Rightarrow>
           (case f_data fs bin_path of
              Inl e \<Rightarrow> py_raise e
            | Inr infile \<Rightarrow>
                py_block
                  [command (C_open H1F50_PROGRAM_DATA PROGRAM_NUMBER DEFAULT_BUFFER_SIZE bin_size)
                     (api_open api node H1F50_PROGRAM_DATA PROGRAM_NUMBER DEFAULT_BUFFER_SIZE bin_size),
                   py_finally (download api node bin_size 0 infile) (command C_close (api_close api node)),
                   say []]))"

definition read_new_swid :: "'d can_api \<Rightarrow> nat \<Rightarrow> (('d, 'z) world_scheme, unit) py" where
  "read_new_swid api node =
     py_except
       (py_bind (dev_call (api_read api node H1F56_PROGRAM_SWID PROGRAM_NUMBER))
          (\<lambda>swid. say (''      New SW ID: '' @ hex08 swid)))
       (\<lambda>e. py_return ())"

definition start_program :: "'d can_api \<Rightarrow> nat \<Rightarrow> (('d, 'z) world_scheme, unit) py" where
  "start_program api node =
     py_block
       [say ''      Starting program (waiting for boot-up)...'',
        program_ctrl api node PROGRAM_CTRL_START,
        py_except
          (py_bind (command (C_bootup DEFAULT_TIMEOUT) (api_bootup api node DEFAULT_TIMEOUT))
             (\<lambda>_. say ''      Boot-up received OK''))
          (\<lambda>e. say ''      Warning: no boot-up message received within timeout'')]"

definition confirm_program :: "'d can_api \<Rightarrow> nat \<Rightarrow> (('d, 'z) world_scheme, unit) py" where
  "confirm_program api node =
     py_block
       [say ''      Entering pre-operational mode...'',
        enter_preop api node,
        say ''      Confirming program...'',
        program_ctrl api node PROGRAM_CTRL_CONFIRM,
        say (newline @ ''Firmware update completed successfully!'')]"

definition flash_steps :: "'d can_api \<Rightarrow> files \<Rightarrow> nat \<Rightarrow> string \<Rightarrow> (('d, 'z) world_scheme, unit) py" where
  "flash_steps api fs node bin_path =
     py_block
       [read_swid api node,
        wait_and_warn api node,
        stop_and_clear api node,
        check_status api node ''Flash clear failed'' ''      Flash cleared OK'',
        download_firmware api fs node bin_path,
        check_status api node ''Firmware download failed'' ''      Download OK'',
        read_new_swid api node,
        start_program api node,
        confirm_program api node]"

definition flash_firmware ::
    "'d can_api \<Rightarrow> files \<Rightarrow> int \<Rightarrow> string \<Rightarrow> yaml \<Rightarrow> yaml \<Rightarrow> (('d, 'z) world_scheme, unit) py" where
  "flash_firmware api fs node_id bin_path interface baudrate =
     py_bind (command (C_add_node node_id) (api_add_node api node_id create_flash_object_dictionary)) (\<lambda>node.
       py_block
         [dev_call (\<lambda>d. (Inr (), api_timeouts api node DEFAULT_SDO_TIMEOUT (Some DEFAULT_SDO_RETRIES) d)),
          print_out [Txt ''Connecting to '', Yam interface, Txt '' at '', Yam baudrate, Txt '' baud...''],
          command (C_connect interface baudrate) (api_connect api interface baudrate),
          py_finally (flash_steps api fs node bin_path) (command C_disconnect (api_disconnect api))])"

subsection \<open>Configuration and \<open>main\<close>\<close>

record fw_args =
  arg_node_id :: int
  arg_bin_path :: string
  arg_interface :: "string option"
  arg_baudrate :: "int option"
  arg_yes :: bool

text \<open>
  \<open>have_yaml\<close> says whether PyYAML is installed; \<open>parsed\<close> is what opening and parsing the file gives.
\<close>

definition DEFAULT_CONFIG_FILE :: string where
  "DEFAULT_CONFIG_FILE = ''co-firmware-update.yaml''"

definition fw_load_config ::
    "bool \<Rightarrow> files \<Rightarrow> (string \<Rightarrow> exn + yaml) \<Rightarrow> string \<Rightarrow> (('d, 'z) world_scheme, yaml) py" where
  "fw_load_config have_yaml fs parsed config_path =
     (if \<not> have_yaml then
        py_bind (say (''Warning: PyYAML not installed, ignoring config file '' @ config_path))
          (\<lambda>_. py_return (YDict []))
      else if f_isfile fs config_path then
        py_except
          (case parsed config_path of
             Inl e \<Rightarrow> py_raise e
           | Inr y \<Rightarrow> py_return (if truthy y then y else YDict []))
          (\<lambda>e. py_bind (say (''Warning: could not read config file '' @ config_path @ '': '' @ exn_str e))
             (\<lambda>_. py_return (YDict [])))
      else py_return (YDict []))"

text \<open>\<open>arg or config.get(key)\<close>: the configuration is looked at only when the argument is falsy.\<close>

definition or_config :: "yaml option \<Rightarrow> yaml \<Rightarrow> string \<Rightarrow> exn + yaml" where
  "or_config arg config key =
     (case arg of Some a \<Rightarrow> if truthy a then Inr a else yaml_get config key
                | None \<Rightarrow> yaml_get config key)"

definition sys_exit :: "int \<Rightarrow> exn" where
  "sys_exit n = Exn (SystemExit n) []"

definition fail_with :: "string \<Rightarrow> (('d, 'z) world_scheme, 'a) py" where
  "fail_with msg = py_bind (say msg) (\<lambda>_. py_raise (sys_exit 1))"

text \<open>The question \<open>input(...).strip().lower() != "y"\<close>.\<close>

definition fw_confirm :: "bool \<Rightarrow> (('d, 'z) world_scheme, unit) py" where
  "fw_confirm yes =
     py_when (\<not> yes)
       (py_bind (py_input (newline @ ''Proceed with firmware update? (y/N): '')) (\<lambda>s.
          if lower (strip s) \<noteq> ''y'' then
            py_bind (say ''Firmware update cancelled.'') (\<lambda>_. py_raise (sys_exit 0))
          else py_return ()))"

text \<open>\<open>main\<close> up to the update: what it is called with, or the way out.\<close>

definition fw_checks ::
    "files \<Rightarrow> fw_args \<Rightarrow> yaml \<Rightarrow> (('d, 'z) world_scheme, string \<times> yaml \<times> yaml) py" where
  "fw_checks fs args config =
     (case or_config (map_option YStr (arg_interface args)) config ''interface'' of
        Inl e \<Rightarrow> py_raise e
      | Inr interface \<Rightarrow>
          (case or_config (map_option YInt (arg_baudrate args)) config ''baudrate'' of
             Inl e \<Rightarrow> py_raise e
           | Inr baudrate \<Rightarrow>
               if \<not> truthy interface then
                 fail_with (''Error: '' @ quoted ''interface'' @ '' not set. Provide --interface or set it in co-firmware-update.yaml'')
               else if \<not> truthy baudrate then
                 fail_with (''Error: '' @ quoted ''baudrate'' @ '' not set. Provide --baudrate or set it in co-firmware-update.yaml'')
               else
                 let bin_path = f_abspath fs (arg_bin_path args)
                 in if \<not> f_isfile fs bin_path then fail_with (''Error: firmware file not found: '' @ bin_path)
                    else
                      (case f_size fs bin_path of
                         Inl e \<Rightarrow> py_raise e
                       | Inr bin_size \<Rightarrow>
                           py_bind (py_block
                             [say (newline @ ''Firmware update''),
                              say (''  Node ID   : '' @ int_str (arg_node_id args)),
                              say (''  Binary    : '' @ basename bin_path @ '' ('' @ nat_str bin_size @ '' bytes)''),
                              print_out [Txt ''  Interface : '', Yam interface],
                              print_out [Txt ''  Baudrate  : '', Yam baudrate],
                              fw_confirm (arg_yes args),
                              say []])
                             (\<lambda>_. py_return (bin_path, interface, baudrate)))))"

definition fw_main ::
    "'d can_api \<Rightarrow> files \<Rightarrow> bool \<Rightarrow> (string \<Rightarrow> exn + yaml) \<Rightarrow> fw_args \<Rightarrow> (('d, 'z) world_scheme, unit) py" where
  "fw_main api fs have_yaml parsed args =
     py_bind (fw_load_config have_yaml fs parsed DEFAULT_CONFIG_FILE) (\<lambda>config.
       py_bind (fw_checks fs args config) (\<lambda>(bin_path, interface, baudrate).
         py_except (flash_firmware api fs (arg_node_id args) bin_path interface baudrate)
           (\<lambda>e. fail_with (newline @ ''Firmware update failed: '' @ exn_str e))))"

subsection \<open>What a wait promises\<close>

text \<open>
  A clock that is not set back, and on which sleeping takes at least the time asked for: \<open>now\<close> is
  the time in a state of the outside world.
\<close>

definition steady_clock :: "'d can_api \<Rightarrow> ('d \<Rightarrow> rat) \<Rightarrow> bool" where
  "steady_clock api now \<longleftrightarrow>
     (\<forall>d. fst (api_time api d) = now d \<and> now d \<le> now (snd (api_time api d))) \<and>
     (\<forall>n i s d. now d \<le> now (snd (api_read api n i s d))) \<and>
     (\<forall>t d. fst (api_sleep api t d) = Inr () \<longrightarrow> now d + t \<le> now (snd (api_sleep api t d)))"

text \<open>
  The result of a wait that gives up at \<open>end_time\<close>: 0 exactly when the last thing it did was to
  read a 0, anything else only after a look at the clock past the end.
\<close>

definition wait_result :: "'d can_api \<Rightarrow> nat \<Rightarrow> rat \<Rightarrow> int \<Rightarrow> 'd \<Rightarrow> bool" where
  "wait_result api node end_time s d' \<longleftrightarrow>
     (if s = 0 then (\<exists>d. api_read api node H1F57_FLASH_STATUS PROGRAM_NUMBER d = (Inr 0, d'))
      else (\<exists>d t. api_time api d = (t, d') \<and> t > end_time))"

text \<open>
  The contract of a status wait, for the flash routines that call one: it sends nothing and marks
  its result, it ends when the clock is steady, and its result is as described.
\<close>

locale status_wait =
  fixes wait :: "'d can_api \<Rightarrow> nat \<Rightarrow> rat \<Rightarrow> (('d, 'z) world_scheme, int) py"
  assumes wait_marks:
      "emits (wait api node t) (\<lambda>r cs. case r of Inl _ \<Rightarrow> cs = [] | Inr s \<Rightarrow> cs = [C_status s])"
    and wait_returns: "steady_clock api now \<Longrightarrow> returns (wait api node t) w"
    and wait_outcome:
      "wait api node t w = Some (Inr s, w') \<Longrightarrow>
         wait_result api node (fst (api_time api (dev w)) + t) s (dev w')"
begin

lemma warn_emits:
  "emits (py_bind (wait api node t) (\<lambda>s. py_when (s \<noteq> 0) (say (msg s))))
     (\<lambda>r cs. case r of Inl _ \<Rightarrow> cs = [] | Inr _ \<Rightarrow> \<exists>s. cs = [C_status s])"
proof -
  have "emits (py_when (s \<noteq> 0) (say (msg s))) (\<lambda>r cs. r = Inr () \<and> cs = [])" for s
    by (cases "s = 0") (auto simp: emits_def py_when_def say_def print_out_def py_simps)
  from emits_bind [OF wait_marks this] show ?thesis
    by (rule emits_weaken) (auto split: sum.splits)
qed

lemma check_does:
  "does (py_bind (wait api node t) (\<lambda>s. if s \<noteq> 0 then py_raise (err s) else say ok))
     [C_status 0] (\<lambda>cs. cs = [] \<or> (\<exists>s. s \<noteq> 0 \<and> cs = [C_status s]))"
proof -
  have "emits (if s \<noteq> 0 then py_raise (err s) else say ok) (\<lambda>r cs. cs = [] \<and> (s = 0 \<longleftrightarrow> r = Inr ()))" for s
    by (cases "s = 0") (auto simp: emits_def say_def print_out_def py_simps)
  from emits_bind [OF wait_marks this] show ?thesis
    unfolding does_def by (rule emits_weaken) (auto split: sum.splits)
qed

end

subsection \<open>The script's wait\<close>

lemma try_status_cases:
  obtains e w1 where "try_status api node w = Some (Inl e, w1)" "\<not> is_exception e"
      "api_read api node H1F57_FLASH_STATUS PROGRAM_NUMBER (dev w) = (Inl e, dev w1)" "cmds w1 = cmds w"
  | r w1 where "try_status api node w = Some (Inr r, w1)"
      "dev w1 = snd (api_read api node H1F57_FLASH_STATUS PROGRAM_NUMBER (dev w))"
      "\<forall>s. r = Some s \<longrightarrow> fst (api_read api node H1F57_FLASH_STATUS PROGRAM_NUMBER (dev w)) = Inr s"
      "cmds w1 = cmds w"
proof (cases "api_read api node H1F57_FLASH_STATUS PROGRAM_NUMBER (dev w)")
  case (Pair r d)
  show thesis
  proof (cases r)
    case (Inl e)
    then show thesis
      using Pair that(1) [of e "w\<lparr>dev := d\<rparr>"] that(2) [of None "w\<lparr>dev := d\<rparr>"]
      by (cases "is_exception e") (simp_all add: try_status_def dev_call_def py_simps)
  next
    case (Inr s)
    then show thesis
      using Pair that(2) [of "Some s" "w\<lparr>dev := d\<rparr>"]
      by (simp add: try_status_def dev_call_def py_simps)
  qed
qed


text \<open>One turn of the loop, for any continuation \<open>k\<close>.\<close>

lemma wait_turn:
  assumes run: "py_bind (try_status api node) (\<lambda>q w1.
       if q = Some 0 then py_return 0 w1
       else py_bind (get_time api) (\<lambda>t w2.
              if t > end_time then py_return (case q of None \<Rightarrow> status | Some s \<Rightarrow> s) w2
              else py_bind (sleep api (1 / 2)) (\<lambda>_ w3.
                     k (case q of None \<Rightarrow> status | Some s \<Rightarrow> s) w3) w2) w1) w = Some (r, w')"
    and nz: "status \<noteq> 0"
  obtains (raised) e where "r = Inl e" "cmds w' = cmds w"
  | (result) s where "r = Inr s" "cmds w' = cmds w" "wait_result api node end_time s (dev w')"
  | (again) s w3 where "k s w3 = Some (r, w')" "cmds w3 = cmds w" "s \<noteq> 0"
proof (cases rule: try_status_cases [of api node w])
  case (1 e w1)
  then show thesis using run raised by (auto simp: py_simps)
next
  case (2 q w1)
  show thesis
  proof (cases "q = Some 0")
    case True
    then have "api_read api node H1F57_FLASH_STATUS PROGRAM_NUMBER (dev w) = (Inr 0, dev w1)"
      using 2(2,3) by (simp add: prod_eq_iff)
    then have "wait_result api node end_time 0 (dev w1)" by (auto simp: wait_result_def)
    then show thesis using run 2(1,4) True result [of 0] by (auto simp: py_simps)
  next
    case False
    obtain t d2 where t: "api_time api (dev w1) = (t, d2)" by fastforce
    obtain q' d3 where q': "api_sleep api (1 / 2) d2 = (q', d3)" by fastforce
    let ?s = "case q of None \<Rightarrow> status | Some s \<Rightarrow> s"
    have s: "?s \<noteq> 0" using False nz by (cases q) auto
    show thesis
    proof (cases "t > end_time")
      case True
      then have "wait_result api node end_time ?s d2" using s t by (auto simp: wait_result_def)
      then show thesis
        using run 2 False t True result [of ?s] by (auto simp: py_simps get_time_def dev_call_def)
    next
      case nlt: False
      show thesis
        using run 2 False t q' nlt s raised again [of ?s "w1\<lparr>dev := d3\<rparr>"]
        by (cases q') (auto simp: py_simps get_time_def sleep_def dev_call_def)
    qed
  qed
qed

lemma wait_loop_result:
  assumes "wait_loop api node end_time status w = Some (r, w')" "status \<noteq> 0"
  shows "cmds w' = cmds w \<and> (\<forall>s. r = Inr s \<longrightarrow> wait_result api node end_time s (dev w'))"
proof -
  let ?P = "\<lambda>api node end_time status w y. status \<noteq> 0 \<longrightarrow> cmds (snd y) = cmds w \<and>
      (\<forall>s. fst y = Inr s \<longrightarrow> wait_result api node end_time s (dev (snd y)))"
  have "?P api node end_time status w (r, w')"
  proof (rule wait_loop.raw_induct [where P = ?P, OF _ assms(1)], intro impI, goal_cases)
    case (1 loop api node end_time status w y)
    show ?case
      by (rule wait_turn [where k = "loop api node end_time", OF _ "1"(3), of api node end_time w "fst y" "snd y"])
        (use 1 in \<open>auto dest!: "1"(1)\<close>)
  qed
  then show ?thesis using assms(2) by simp
qed

lemma wait_loop_returns:
  assumes "steady_clock api now" "end_time - now (dev w) < of_nat n / 2"
  shows "returns (wait_loop api node end_time status) w"
  using assms(2)
proof (induction n arbitrary: w status)
  case n: 0
  show ?case
  proof (cases rule: try_status_cases [of api node w])
    case (1 e w1)
    then show ?thesis by (simp add: returns_def wait_loop.simps [of api node end_time status w] py_simps)
  next
    case (2 q w1)
    have "now (dev w) \<le> now (dev w1)" using assms(1) 2(2) by (simp add: steady_clock_def)
    moreover have "fst (api_time api (dev w1)) = now (dev w1)"
      using assms(1) by (simp add: steady_clock_def)
    ultimately have "fst (api_time api (dev w1)) > end_time" using n by simp
    then show ?thesis
      using 2(1) by (cases "api_time api (dev w1)") (simp add: returns_def
          wait_loop.simps [of api node end_time status w] py_simps get_time_def dev_call_def)
  qed
next
  case (Suc n)
  show ?case
  proof (cases rule: try_status_cases [of api node w])
    case (1 e w1)
    then show ?thesis by (simp add: returns_def wait_loop.simps [of api node end_time status w] py_simps)
  next
    case (2 q w1)
    obtain t d2 where t: "api_time api (dev w1) = (t, d2)" by fastforce
    obtain q' d3 where q': "api_sleep api (1 / 2) d2 = (q', d3)" by fastforce
    have "now (dev w) \<le> now (dev w1)" "now (dev w1) \<le> now d2"
      using assms(1) 2(2) t unfolding steady_clock_def by (simp, metis snd_conv)
    moreover have "q' = Inr () \<Longrightarrow> now d2 + 1 / 2 \<le> now d3"
      using assms(1) q' unfolding steady_clock_def by (metis fst_conv snd_conv)
    ultimately have "q' = Inr () \<Longrightarrow> end_time - now (dev (w1\<lparr>dev := d3\<rparr>)) < of_nat n / 2"
      using Suc.prems by (simp add: field_simps)
    then have "q' = Inr () \<Longrightarrow> returns (wait_loop api node end_time s) (w1\<lparr>dev := d3\<rparr>)" for s
      using Suc.IH by blast
    then show ?thesis
      using 2(1) t q' by (cases q') (simp_all add: returns_def wait_loop.simps [of api node end_time status w]
          py_simps get_time_def sleep_def dev_call_def)
  qed
qed

lemma get_time_run: "get_time api w =
    Some (Inr (fst (api_time api (dev w))), w\<lparr>dev := snd (api_time api (dev w))\<rparr>)"
  by (simp add: get_time_def dev_call_def split: prod.split)

interpretation fw: status_wait wait_for_flash_status_ok
proof (unfold_locales, goal_cases)
  case (1 api node t)
  show ?case
    unfolding emits_def wait_for_flash_status_ok_def
    by (auto simp: py_bind_eq_Some get_time_run record_cmd_def py_effect_def py_return_def
        dest!: wait_loop_result)
next
  case (2 api now node t w)
  let ?w = "w\<lparr>dev := snd (api_time api (dev w))\<rparr>"
  let ?e = "fst (api_time api (dev w)) + t"
  obtain n where "2 * (?e - now (dev ?w)) < of_nat n" using reals_Archimedean2 by blast
  then have "?e - now (dev ?w) < of_nat n / 2" by simp
  then have "returns (wait_loop api node ?e 0xFFFFFFFF) ?w" using wait_loop_returns [OF 2] by blast
  then show ?case
    unfolding wait_for_flash_status_ok_def
    by (intro returns_bind) (auto simp: get_time_run returns_def record_cmd_def py_simps)
next
  case (3 api node t w s w')
  then show ?case
    unfolding wait_for_flash_status_ok_def
    by (auto simp: py_bind_eq_Some get_time_run record_cmd_def py_effect_def py_return_def
        dest!: wait_loop_result)
qed

subsection \<open>The commands of an update\<close>

text \<open>
  The specification of a run, in terms of what is sent: preparation, the image in pieces of at
  most 512 bytes, and the start of the new program.
\<close>

fun file_chunks :: "byte list \<Rightarrow> byte list list" where
  "file_chunks [] = []"
| "file_chunks (b # bs) = take 512 (b # bs) # file_chunks (drop 512 (b # bs))"

definition prepare_log :: "int \<Rightarrow> command list" where
  "prepare_log s1 =
     [C_status s1, C_nmt ''PRE-OPERATIONAL'', C_write 0x1F51 1 0x00, C_write 0x1F51 1 0x03, C_status 0]"

definition image_log :: "nat \<Rightarrow> byte list \<Rightarrow> command list" where
  "image_log sz data = C_open 0x1F50 1 1024 sz # map C_chunk (file_chunks data) @ [C_close]"

definition finish_log :: "command list" where
  "finish_log =
     [C_status 0, C_write 0x1F51 1 0x01, C_bootup 60, C_nmt ''PRE-OPERATIONAL'', C_write 0x1F51 1 0x80]"

definition flash_log :: "int \<Rightarrow> nat \<Rightarrow> byte list \<Rightarrow> command list" where
  "flash_log s1 sz data = prepare_log s1 @ image_log sz data @ finish_log"

text \<open>
  Where a run that raises may have stopped: at any point of the sequence, after a status that is
  not 0, or in the middle of the image, and then the SDO stream has been closed.
\<close>

definition flash_stopped :: "int \<Rightarrow> nat \<Rightarrow> byte list \<Rightarrow> command list \<Rightarrow> bool" where
  "flash_stopped s1 sz data cs \<longleftrightarrow>
     prefix cs (flash_log s1 sz data) \<or>
     (\<exists>s. s \<noteq> 0 \<and> cs = butlast (prepare_log s1) @ [C_status s]) \<or>
     (\<exists>bs. prefix bs (map C_chunk (file_chunks data)) \<and>
        cs = prepare_log s1 @ [C_open 0x1F50 1 1024 sz] @ bs @ [C_close]) \<or>
     (\<exists>s. s \<noteq> 0 \<and> cs = prepare_log s1 @ image_log sz data @ [C_status s])"

lemma file_chunks_concat: "concat (file_chunks bs) = bs"
  by (induction bs rule: file_chunks.induct) (simp_all only: file_chunks.simps concat.simps
    append_take_drop_id)

lemma file_chunks_length: "c \<in> set (file_chunks bs) \<Longrightarrow> c \<noteq> [] \<and> length c \<le> 512"
  by (induction bs rule: file_chunks.induct) auto

subsection \<open>The commands of each step\<close>

lemma issues_wait_free:
  "issues (read_swid api node) []" "issues (read_new_swid api node) []"
  "issues (show_progress sz sent) []"
proof -
  show "issues (read_swid api node) []" "issues (read_new_swid api node) []"
    unfolding issues_quiet read_swid_def read_new_swid_def by (intro always_rules)+
  show "issues (show_progress sz sent) []"
    unfolding issues_quiet show_progress_def
    by (cases "sz = 0") (auto simp: always_def emits_def py_simps Let_def)
qed

lemma download_issues:
  "issues (download api node sz sent infile :: (('d, 'z) world_scheme, unit) py)
     (map C_chunk (file_chunks infile))"
proof (induction api node sz sent infile rule: download.induct)
  case (1 api node sz sent infile)
  show ?case
  proof (cases infile)
    case Nil
    then show ?thesis by (simp add: download.simps [of api node sz sent] does_return)
  next
    case (Cons b bs)
    let ?c = "take 512 infile"
    have ne: "take (DEFAULT_BUFFER_SIZE div 2) infile \<noteq> []" by (simp add: Cons DEFAULT_BUFFER_SIZE_def)
    have "issues (py_bind (command (C_chunk ?c) (api_chunk api node ?c)) (\<lambda>_.
        py_bind (show_progress sz (sent + length ?c)) (\<lambda>_.
          download api node sz (sent + length ?c) (drop 512 infile))) :: (('d, 'z) world_scheme, unit) py)
        ([C_chunk ?c] @ [] @ map C_chunk (file_chunks (drop 512 infile)))"
      using "1.IH" [OF refl ne]
      by (intro issues_bind issues_command issues_wait_free) (simp add: DEFAULT_BUFFER_SIZE_def)
    moreover have "map C_chunk (file_chunks infile) = [C_chunk ?c] @ [] @ map C_chunk (file_chunks (drop 512 infile))"
      by (simp add: Cons)
    moreover have "infile \<noteq> []" by (simp add: Cons)
    ultimately show ?thesis
      by (simp add: download.simps [of api node sz sent infile] Let_def DEFAULT_BUFFER_SIZE_def)
  qed
qed

lemma program_ctrl_issues: "issues (program_ctrl api node v) [C_write 0x1F51 1 v]"
  unfolding program_ctrl_def by (simp add: issues_command flash_consts)

lemma stop_and_clear_issues: "issues (stop_and_clear api node) (butlast (tl (prepare_log s1)))"
proof -
  have "issues (stop_and_clear api node)
      ([] @ [C_nmt ''PRE-OPERATIONAL''] @ [] @ [C_write 0x1F51 1 0] @ [] @ [C_write 0x1F51 1 3] @ [])"
    unfolding stop_and_clear_def enter_preop_def PROGRAM_CTRL_STOP_def PROGRAM_CTRL_CLEAR_def
    by (intro issues_rules program_ctrl_issues)
  then show ?thesis by (simp add: prepare_log_def)
qed

lemma start_program_issues: "issues (start_program api node) [C_write 0x1F51 1 1, C_bootup 60]"
proof -
  have "issues (start_program api node) ([] @ [C_write 0x1F51 1 1] @ [C_bootup 60] @ [])"
    unfolding start_program_def DEFAULT_TIMEOUT_def PROGRAM_CTRL_START_def
    by (intro issues_rules program_ctrl_issues always_issues always_rules)
  then show ?thesis by simp
qed

lemma confirm_program_issues:
  "issues (confirm_program api node) [C_nmt ''PRE-OPERATIONAL'', C_write 0x1F51 1 0x80]"
proof -
  have "issues (confirm_program api node)
      ([] @ [C_nmt ''PRE-OPERATIONAL''] @ [] @ [C_write 0x1F51 1 0x80] @ [] @ [])"
    unfolding confirm_program_def enter_preop_def PROGRAM_CTRL_CONFIRM_def
    by (intro issues_rules program_ctrl_issues)
  then show ?thesis by simp
qed

lemma finally_close_does:
  "issues m bs \<Longrightarrow> does (py_finally m (command C_close f)) (bs @ [C_close])
     (\<lambda>cs. \<exists>ds. prefix ds bs \<and> cs = ds @ [C_close])"
  unfolding does_def
  by (drule emits_finally [OF _ always_command [unfolded always_def], of m _ C_close f],
      erule emits_weaken) (auto split: sum.splits; metis sum.exhaust)

lemma download_firmware_does:
  assumes "f_size fs path = Inr sz" "f_data fs path = Inr data"
  shows "does (download_firmware api fs node path) (image_log sz data)
     (\<lambda>cs. cs = [] \<or> cs = [C_open 0x1F50 1 1024 sz] \<or>
        (\<exists>bs. prefix bs (map C_chunk (file_chunks data)) \<and> cs = [C_open 0x1F50 1 1024 sz] @ bs @ [C_close]))"
proof -
  note parts = does_bind [OF issues_say does_Cons [OF issues_command does_Cons
      [OF finally_close_does [OF download_issues] issues_block_Cons [OF issues_say issues_block_Nil]]]]
  show ?thesis
    unfolding download_firmware_def assms sum.case H1F50_PROGRAM_DATA_def PROGRAM_NUMBER_def DEFAULT_BUFFER_SIZE_def
    by (rule does_eq, rule parts) (auto simp: then_stop_def image_log_def prefix_Cons)
qed

lemma wait_and_warn_emits:
  "emits (wait_and_warn api node) (\<lambda>r cs. case r of Inl _ \<Rightarrow> cs = [] | Inr _ \<Rightarrow> \<exists>s. cs = [C_status s])"
  unfolding wait_and_warn_def
  by (rule emits_weaken [OF emits_bind [OF always_quiet(1) [unfolded always_def] fw.warn_emits]])
    (auto split: sum.splits)

lemma check_status_does:
  "does (check_status api node failed ok) [C_status 0] (\<lambda>cs. cs = [] \<or> (\<exists>s. s \<noteq> 0 \<and> cs = [C_status s]))"
  unfolding check_status_def by (rule fw.check_does)

text \<open>Everything after the first wait, whose status is only reported.\<close>

lemma after_warning_does:
  assumes "f_size fs path = Inr sz" "f_data fs path = Inr data"
  shows "does (py_block
      [stop_and_clear api node,
       check_status api node failed1 ok1,
       download_firmware api fs node path,
       check_status api node failed2 ok2,
       read_new_swid api node,
       start_program api node,
       confirm_program api node])
     (tl (flash_log s1 sz data)) (\<lambda>cs. flash_stopped s1 sz data (C_status s1 # cs))"
proof -
  note parts = does_Cons [OF stop_and_clear_issues [of _ _ s1] does_Cons [OF check_status_does
      does_Cons [OF download_firmware_does [OF assms] does_Cons [OF check_status_does
      issues_block_Cons [OF issues_wait_free(2) issues_block_Cons [OF start_program_issues
      issues_block_Cons [OF confirm_program_issues issues_block_Nil]]]]]]]
  show ?thesis
  proof (rule does_eq, rule parts)
    fix cs
    obtain A I E where A: "A = [C_nmt ''PRE-OPERATIONAL'', C_write 0x1F51 1 0, C_write 0x1F51 1 3]"
      and I: "I = image_log sz data" and E: "E = tl finish_log" by blast
    have pre: "prepare_log s1 = C_status s1 # A @ [C_status 0]" by (simp add: prepare_log_def A)
    have log: "flash_log s1 sz data = C_status s1 # A @ C_status 0 # I @ C_status 0 # E"
      by (simp add: flash_log_def pre finish_log_def I E)
    have fin: "[] @ [C_write 0x1F51 1 1, C_bootup 60] @ [C_nmt ''PRE-OPERATIONAL'', C_write 0x1F51 1 128] @ [] = E"
      by (simp add: finish_log_def E)
    have btl: "butlast (tl (prepare_log s1)) = A" by (simp add: pre)
    assume "then_stop (\<lambda>cs. prefix cs (butlast (tl (prepare_log s1)))) (butlast (tl (prepare_log s1)))
      (then_stop (\<lambda>cs. cs = [] \<or> (\<exists>s. s \<noteq> 0 \<and> cs = [C_status s])) [C_status 0]
      (then_stop (\<lambda>cs. cs = [] \<or> cs = [C_open 0x1F50 1 1024 sz] \<or>
        (\<exists>bs. prefix bs (map C_chunk (file_chunks data)) \<and> cs = [C_open 0x1F50 1 1024 sz] @ bs @ [C_close]))
        (image_log sz data)
      (then_stop (\<lambda>cs. cs = [] \<or> (\<exists>s. s \<noteq> 0 \<and> cs = [C_status s])) [C_status 0]
      (\<lambda>cs. prefix cs ([] @ [C_write 0x1F51 1 1, C_bootup 60] @ [C_nmt ''PRE-OPERATIONAL'', C_write 0x1F51 1 128] @ []))))) cs"
    then consider "prefix cs (A @ [C_status 0])"
      | s where "s \<noteq> 0" "cs = A @ [C_status s]"
      | "cs = A @ [C_status 0, C_open 0x1F50 1 1024 sz]"
      | bs where "prefix bs (map C_chunk (file_chunks data))"
          "cs = A @ C_status 0 # C_open 0x1F50 1 1024 sz # bs @ [C_close]"
      | "cs = A @ C_status 0 # I"
      | s where "s \<noteq> 0" "cs = A @ C_status 0 # I @ [C_status s]"
      | ds where "prefix ds E" "cs = A @ C_status 0 # I @ C_status 0 # ds"
      unfolding then_stop_def btl fin I [symmetric] by (fastforce simp: prefix_append)
    then show "flash_stopped s1 sz data (C_status s1 # cs)"
    proof cases
      case 1
      then have "prefix cs ((A @ [C_status 0]) @ I @ C_status 0 # E)" by (rule prefix_prefix)
      then show ?thesis by (simp add: flash_stopped_def log)
    next
      case 3
      then have "prefix (C_status s1 # cs) (flash_log s1 sz data)" by (simp add: log I image_log_def)
      then show ?thesis by (simp add: flash_stopped_def)
    qed (auto simp: flash_stopped_def log pre I [symmetric])
  qed (simp add: flash_log_def prepare_log_def finish_log_def)
qed

lemma after_warning_emits:
  assumes "f_size fs path = Inr sz" "f_data fs path = Inr data"
  shows "emits (py_block
      [stop_and_clear api node,
       check_status api node failed1 ok1,
       download_firmware api fs node path,
       check_status api node failed2 ok2,
       read_new_swid api node,
       start_program api node,
       confirm_program api node])
     (\<lambda>r cs. \<forall>s1. case r of Inr _ \<Rightarrow> cs = tl (flash_log s1 sz data)
                 | Inl _ \<Rightarrow> flash_stopped s1 sz data (C_status s1 # cs))"
  by (rule emits_all) (rule after_warning_does [OF assms, unfolded does_def])

lemma flash_steps_emits:
  assumes "f_size fs path = Inr sz" "f_data fs path = Inr data"
  shows "emits (flash_steps api fs node path)
     (\<lambda>r cs. \<exists>s1. if isl r then flash_stopped s1 sz data cs else cs = flash_log s1 sz data)"
proof -
  have stop: "flash_stopped s1 sz data []" for s1 by (simp add: flash_stopped_def)
  have log: "C_status s1 # tl (flash_log s1 sz data) = flash_log s1 sz data" for s1
    by (simp add: flash_log_def prepare_log_def)
  note rest = emits_bind [OF wait_and_warn_emits [of api node] after_warning_emits [OF assms]]
  note all = emits_bind [OF issues_wait_free(1) [unfolded issues_quiet always_def] rest]
  show ?thesis
    unfolding flash_steps_def py_block.simps(2) [of "read_swid api node"] py_block.simps(2) [of "wait_and_warn api node"]
  proof (rule emits_weaken, rule all)
    fix r cs
    assume *: "(\<exists>e. r = Inl e \<and> cs = []) \<or> (\<exists>x as bs. cs = as @ bs \<and> as = [] \<and>
        ((\<exists>e. r = Inl e \<and> (case Inl e of Inl _ \<Rightarrow> bs = [] | Inr _ \<Rightarrow> \<exists>s. bs = [C_status s])) \<or>
         (\<exists>x as bs'. bs = as @ bs' \<and> (case Inr x of Inl _ \<Rightarrow> as = [] | Inr _ \<Rightarrow> \<exists>s. as = [C_status s]) \<and>
           (\<forall>s1. case r of Inl _ \<Rightarrow> flash_stopped s1 sz data (C_status s1 # bs')
                       | Inr _ \<Rightarrow> bs' = tl (flash_log s1 sz data)))))"
    show "\<exists>s1. if isl r then flash_stopped s1 sz data cs else cs = flash_log s1 sz data"
    proof (cases r)
      case (Inl e)
      then show ?thesis using * stop by (auto; blast)
    next
      case (Inr u)
      then show ?thesis using * log by auto
    qed
  qed
qed

lemma flash_firmware_emits:
  assumes "f_size fs path = Inr sz" "f_data fs path = Inr data"
  shows "emits (flash_firmware api fs node_id path i b)
     (\<lambda>r cs. case r of
        Inr _ \<Rightarrow> \<exists>s1. cs = [C_add_node node_id, C_connect i b] @ flash_log s1 sz data @ [C_disconnect]
      | Inl _ \<Rightarrow> prefix cs [C_add_node node_id, C_connect i b] \<or>
          (\<exists>s1 ds. flash_stopped s1 sz data ds \<and>
             cs = [C_add_node node_id, C_connect i b] @ ds @ [C_disconnect]))"
proof -
  have full: "flash_stopped s1 sz data (flash_log s1 sz data)" for s1 by (simp add: flash_stopped_def)
  have session: "emits (py_finally (flash_steps api fs node path) (command C_disconnect (api_disconnect api)))
      (\<lambda>r cs. case r of
         Inr _ \<Rightarrow> \<exists>s1. cs = flash_log s1 sz data @ [C_disconnect]
       | Inl _ \<Rightarrow> \<exists>s1 ds. flash_stopped s1 sz data ds \<and> cs = ds @ [C_disconnect])" for node
    by (rule emits_weaken, rule emits_finally [OF flash_steps_emits [OF assms]
          always_command [unfolded always_def]])
      (use full in \<open>auto split: sum.splits if_splits simp: isl_def\<close>)
  note quiet = always_quiet [unfolded always_def]
  note cmd = always_command [unfolded always_def]
  have "emits (py_block
      [dev_call (\<lambda>d. (Inr (), api_timeouts api node DEFAULT_SDO_TIMEOUT (Some DEFAULT_SDO_RETRIES) d)),
       print_out [Txt ''Connecting to '', Yam i, Txt '' at '', Yam b, Txt '' baud...''],
       command (C_connect i b) (api_connect api i b),
       py_finally (flash_steps api fs node path) (command C_disconnect (api_disconnect api))])
      (\<lambda>r cs. case r of
         Inr _ \<Rightarrow> \<exists>s1. cs = [C_connect i b] @ flash_log s1 sz data @ [C_disconnect]
       | Inl _ \<Rightarrow> prefix cs [C_connect i b] \<or>
           (\<exists>s1 ds. flash_stopped s1 sz data ds \<and> cs = [C_connect i b] @ ds @ [C_disconnect]))" for node
    unfolding py_block.simps py_bind_return_unit
    by (rule emits_weaken, rule emits_bind [OF quiet(3) emits_bind [OF quiet(2) emits_bind [OF cmd session]]])
      (auto split: sum.splits)
  then show ?thesis
    unfolding flash_firmware_def
    by (rule emits_weaken [OF emits_bind [OF cmd]]) (fastforce split: sum.splits)
qed

subsection \<open>Properties of the update\<close>


lemma prompt_wait: "wait_for_flash_status_ok prompt_node node t w =
    Some (Inr 0, w\<lparr>cmds := cmds w @ [C_status 0]\<rparr>)"
  by (simp add: wait_for_flash_status_ok_def get_time_run wait_loop.simps try_status_def dev_call_def
      record_cmd_def py_simps)

lemmas flash_run_simps = flash_firmware_def flash_steps_def read_swid_def wait_and_warn_def
  stop_and_clear_def check_status_def download_firmware_def read_new_swid_def start_program_def
  confirm_program_def enter_preop_def program_ctrl_def show_progress_def download.simps
  command_def dev_call_def record_cmd_def say_def print_out_def py_simps

lemma prompt_run:
  "\<exists>w'. flash_firmware prompt_node (one_file path [7, 8, 9]) 5 path i b (fresh_world 0 []) = Some (Inr (), w') \<and>
     cmds w' = [C_add_node 5, C_connect i b] @ flash_log 0 3 [7, 8, 9] @ [C_disconnect]"
  by (simp add: flash_run_simps prompt_wait Let_def one_file_def fresh_world_def flash_consts
      flash_log_def prepare_log_def image_log_def finish_log_def)


lemma prefix_of_parts: "prefix cs (X @ Z) \<Longrightarrow> prefix cs X \<or> (\<exists>ds. cs = X @ ds)"
  by (auto simp: prefix_append)

lemma no_start_before:
  assumes "v = 0x01 \<or> v = 0x80"
  shows "C_write 0x1F51 1 v \<notin> set (prepare_log s1 @ image_log sz data @ [C_status s])"
    and "prefix bs (map C_chunk (file_chunks data)) \<Longrightarrow> C_write 0x1F51 1 v \<notin> set bs"
  using assms by (auto simp: prepare_log_def image_log_def dest!: set_mono_prefix)

lemma stopped_start:
  assumes "flash_stopped s1 sz data ds" "C_write 0x1F51 1 v \<in> set ds" "v = 0x01 \<or> v = 0x80"
  shows "\<exists>rest. ds = prepare_log s1 @ image_log sz data @ [C_status 0] @ rest"
proof -
  let ?X = "prepare_log s1 @ image_log sz data @ [C_status 0]"
  have bl: "C_write 0x1F51 1 v \<notin> set (butlast (prepare_log s1) @ [C_status s])" for s
    using assms(3) by (auto simp: prepare_log_def)
  from assms(1) show ?thesis unfolding flash_stopped_def
  proof (elim disjE exE conjE)
    assume "prefix ds (flash_log s1 sz data)"
    moreover have "flash_log s1 sz data = ?X @ tl finish_log" by (simp add: flash_log_def finish_log_def)
    ultimately have "prefix ds ?X \<or> (\<exists>rest. ds = ?X @ rest)" using prefix_of_parts by metis
    moreover have "\<not> prefix ds ?X"
      using no_start_before(1) [OF assms(3), of s1 sz data 0] assms(2) by (meson set_mono_prefix subsetD)
    ultimately show ?thesis by auto
  next
    fix bs assume "prefix bs (map C_chunk (file_chunks data))"
      "ds = prepare_log s1 @ [C_open 0x1F50 1 1024 sz] @ bs @ [C_close]"
    then show ?thesis
      using assms(2) no_start_before(2) [OF assms(3)] no_start_before(1) [OF assms(3), of s1 sz data 0] by auto
  qed (use assms(2,3) bl no_start_before(1) [OF assms(3), of s1 sz data] in auto)
qed

text \<open>(C4) The new program is started and confirmed only after the whole file has been written and
  the node has reported status 0 for it: if one of the two commands was sent, then everything up
  to that status was sent before.\<close>

theorem start_needs_image:
  assumes "f_size fs path = Inr sz" "f_data fs path = Inr data"
    and "flash_firmware api fs node_id path i b w = Some (r, w')" "cmds w' = cmds w @ issued"
    and "C_write 0x1F51 1 v \<in> set issued" "v = 0x01 \<or> v = 0x80"
  shows "\<exists>s1 rest. issued = [C_add_node node_id, C_connect i b] @ prepare_log s1 @
     image_log sz data @ [C_status 0] @ rest"
proof (cases r)
  case (Inr u)
  then obtain s1 where "issued = [C_add_node node_id, C_connect i b] @ flash_log s1 sz data @ [C_disconnect]"
    using emitsD [OF flash_firmware_emits [OF assms(1,2)] assms(3)] assms(4) by auto
  then show ?thesis by (auto simp: flash_log_def finish_log_def)
next
  case (Inl e)
  then consider "prefix issued [C_add_node node_id, C_connect i b]"
    | s1 ds where "flash_stopped s1 sz data ds"
        "issued = [C_add_node node_id, C_connect i b] @ ds @ [C_disconnect]"
    using emitsD [OF flash_firmware_emits [OF assms(1,2)] assms(3)] assms(4) by auto
  then show ?thesis
  proof cases
    case 1
    then show ?thesis using assms(5) by (auto dest!: set_mono_prefix)
  next
    case (2 s1 ds)
    have "C_write 0x1F51 1 v \<in> set ds" using 2(2) assms(5) by auto
    then obtain rest where "ds = prepare_log s1 @ image_log sz data @ [C_status 0] @ rest"
      using stopped_start [OF 2(1) _ assms(6)] by blast
    then have "issued = [C_add_node node_id, C_connect i b] @ prepare_log s1 @
        image_log sz data @ [C_status 0] @ rest @ [C_disconnect]" using 2(2) by simp
    then show ?thesis by blast
  qed
qed

theorem start_needs_image_witness:
  "\<exists>s1 rest. [C_add_node 5, C_connect YNull YNull] @ flash_log 0 3 [7, 8, 9] @ [C_disconnect] =
     [C_add_node 5, C_connect YNull YNull] @ prepare_log s1 @ image_log 3 [7, 8, 9] @ [C_status 0] @ rest"
proof -
  obtain w' where "flash_firmware prompt_node (one_file ''f'' [7, 8, 9]) 5 ''f'' YNull YNull (fresh_world 0 []) = Some (Inr (), w')"
    and "cmds w' = [C_add_node 5, C_connect YNull YNull] @ flash_log 0 3 [7, 8, 9] @ [C_disconnect]"
    using prompt_run by blast
  then show ?thesis
    by (intro start_needs_image [where fs = "one_file ''f'' [7, 8, 9]" and path = "''f''" and v = 1 and
          w = "fresh_world 0 []" and w' = w' and api = prompt_node])
      (auto simp: one_file_def fresh_world_def flash_log_def finish_log_def)
qed

lemma returns_command [simp]: "returns (command c f) w" "returns (dev_call f) w" "returns (say s) w"
    "returns (print_out ps) w" "returns (get_time api) w" "returns (py_input prompt) w"
  by (auto simp: returns_def command_def record_cmd_def dev_call_def say_def print_out_def get_time_def
      py_input_def ask_def py_simps Let_def split: prod.split list.split input_line.split)

lemma returns_block: "(\<And>m w. m \<in> set ms \<Longrightarrow> returns m w) \<Longrightarrow> returns (py_block ms) w"
  by (induction ms arbitrary: w) (auto intro: returns_bind)

lemma download_returns: "returns (download api node sz sent infile) w"
proof (induction api node sz sent infile arbitrary: w rule: download.induct)
  case (1 api node sz sent infile)
  then show ?case
    unfolding download.simps [of api node sz sent infile] Let_def
    by (cases "take (DEFAULT_BUFFER_SIZE div 2) infile = []")
      (auto intro!: returns_bind simp: show_progress_def Let_def)
qed

lemma flash_steps_return:
  assumes "steady_clock api now"
  shows "returns (flash_steps api fs node path) w"
proof -
  note wait = fw.wait_returns [OF assms]
  have "returns (download_firmware api fs node path) w" for w
    unfolding download_firmware_def
    by (auto intro!: returns_bind returns_block returns_finally download_returns split: sum.split)
  moreover have "returns (wait_and_warn api node) w" "returns (check_status api node f k) w" for w f k
    unfolding wait_and_warn_def check_status_def
    by (auto intro!: returns_bind wait simp: py_when_def)
  moreover have "returns (read_swid api node) w" "returns (read_new_swid api node) w"
    "returns (stop_and_clear api node) w" "returns (start_program api node) w"
    "returns (confirm_program api node) w" for w
    unfolding read_swid_def read_new_swid_def stop_and_clear_def start_program_def confirm_program_def
      enter_preop_def program_ctrl_def
    by (auto intro!: returns_bind returns_except returns_block simp del: py_block.simps)
  ultimately show ?thesis
    unfolding flash_steps_def by (intro returns_block) auto
qed

text \<open>(C26) An update ends: with a clock that is not set back and on which sleeping advances time, the
  three waits give up at the latest after their time-out, so \<open>flash_firmware\<close> returns or raises,
  whatever the node answers.\<close>

theorem flash_firmware_returns:
  assumes "steady_clock api now"
  shows "flash_firmware api fs node_id path i b w \<noteq> None"
  unfolding returns_def [symmetric] flash_firmware_def
  by (auto intro!: returns_bind returns_block returns_finally flash_steps_return [OF assms] simp del: py_block.simps)

text \<open>A node that never answers, and takes a second to fail.\<close>

definition dead_node :: "rat can_api" where
  "dead_node = prompt_node\<lparr>api_read := (\<lambda>n i s d. (Inl (Exn TimeoutError ''No SDO response received''), d + 1))\<rparr>"

theorem flash_firmware_returns_witness:
  "flash_firmware dead_node (one_file ''f'' [1]) 5 ''f'' YNull YNull (fresh_world 0 []) \<noteq> None"
  by (rule flash_firmware_returns [where now = id]) (simp add: steady_clock_def dead_node_def)

text \<open>(C27) What a wait for the flash status returns: 0 exactly when the last thing it did was to
  read status 0 from the node, and any other value only after the time-out has passed.  A node
  that cannot be read, or reports errors, therefore never counts as ready.\<close>

theorem wait_reports_last_status:
  assumes "wait_for_flash_status_ok api node timeout w = Some (Inr s, w')"
  shows "if s = 0
     then \<exists>d. api_read api node 0x1F57 1 d = (Inr 0, dev w')
     else \<exists>d t. api_time api d = (t, dev w') \<and> t > fst (api_time api (dev w)) + timeout"
  using fw.wait_outcome [OF assms] by (auto simp: wait_result_def flash_consts split: if_splits)

theorem wait_reports_last_status_witness:
  "\<exists>d. api_read prompt_node 0 0x1F57 1 d = (Inr 0, 0)"
  using wait_reports_last_status [OF prompt_wait [of 0 60 "fresh_world 0 []"]]
  by (simp add: fresh_world_def)

subsection \<open>Properties of \<open>main\<close>\<close>

lemma fw_load_config_quiet: "always (fw_load_config hy fs parsed path) []"
  unfolding fw_load_config_def
  by (cases "parsed path") (auto intro!: always_rules)

text \<open>What is known when the checks succeed.\<close>

lemma fw_confirm_ok:
  "fw_confirm yes w = Some (Inr u, w') \<Longrightarrow>
     (yes \<or> (\<exists>l rest. inp w = Line l # rest \<and> lower (strip l) = ''y'')) \<and> cmds w' = cmds w"
  by (auto simp: fw_confirm_def py_input_def ask_def say_def print_out_def py_simps Let_def
      split: if_splits list.splits input_line.splits)

lemma fw_confirm_quiet: "always (fw_confirm yes) []"
proof -
  have "always (if lower (strip s) \<noteq> ''y'' then
      py_bind (say ''Firmware update cancelled.'') (\<lambda>_. py_raise (sys_exit 0)) else py_return ()) []" for s
    by (cases "lower (strip s) = ''y''") (auto intro!: always_rules)
  then show ?thesis
    unfolding fw_confirm_def py_when_def by (auto intro!: always_rules)
qed

lemma fw_checks_quiet: "always (fw_checks fs args config) []"
  unfolding fw_checks_def fail_with_def Let_def py_block.simps
  by (auto intro!: always_rules fw_confirm_quiet split: sum.split)

lemma fw_checks_ok:
  assumes "fw_checks fs args config w = Some (Inr (p, i, b), w')"
  shows "p = f_abspath fs (arg_bin_path args) \<and> f_isfile fs p \<and> truthy i \<and> truthy b \<and>
     (arg_yes args \<or> (\<exists>l rest. inp w = Line l # rest \<and> lower (strip l) = ''y'')) \<and> cmds w' = cmds w"
  using assms
  by (auto simp: fw_checks_def fail_with_def Let_def py_bind_eq_Some say_def print_out_def py_effect_def
      py_return_def py_raise_def dest!: fw_confirm_ok split: sum.splits if_splits)

text \<open>A run of \<open>main\<close> that leaves a trace on the network went through the checks.\<close>

lemma fw_main_cases:
  fixes w w' :: "('d, 'z) world_scheme"
  assumes "fw_main api fs hy parsed args w = Some (r, w')"
  obtains "cmds w' = cmds w" "r \<noteq> Inr ()"
  | i b rf and w1 w2 :: "('d, 'z) world_scheme" where "f_isfile fs (f_abspath fs (arg_bin_path args))" "truthy i" "truthy b"
      "arg_yes args \<or> (\<exists>l rest. inp w = Line l # rest \<and> lower (strip l) = ''y'')" "cmds w1 = cmds w"
      "flash_firmware api fs (arg_node_id args) (f_abspath fs (arg_bin_path args)) i b w1 = Some (rf, w2)"
      "r = Inr () \<longleftrightarrow> rf = Inr ()" "cmds w' = cmds w2"
proof -
  have inp: "fw_load_config hy fs parsed DEFAULT_CONFIG_FILE w = Some (x, w0) \<Longrightarrow> inp w0 = inp w \<and> cmds w0 = cmds w"
    for x and w0 :: "('d, 'z) world_scheme"
    by (auto simp: fw_load_config_def say_def print_out_def py_simps split: if_splits sum.splits)
  from assms consider e where "r = Inl e" "fw_load_config hy fs parsed DEFAULT_CONFIG_FILE w = Some (Inl e, w')"
    | config w0 e where "fw_load_config hy fs parsed DEFAULT_CONFIG_FILE w = Some (Inr config, w0)"
        "fw_checks fs args config w0 = Some (Inl e, w')" "r = Inl e"
    | config w0 p i b w1 where "fw_load_config hy fs parsed DEFAULT_CONFIG_FILE w = Some (Inr config, w0)"
        "fw_checks fs args config w0 = Some (Inr (p, i, b), w1)"
        "py_except (flash_firmware api fs (arg_node_id args) p i b)
           (\<lambda>e. fail_with (newline @ ''Firmware update failed: '' @ exn_str e)) w1 = Some (r, w')"
    unfolding fw_main_def by (auto simp: py_bind_eq_Some)
  then show thesis
  proof cases
    case (1 e)
    then show thesis using inp that(1) by simp
  next
    case (2 config w0 e)
    then show thesis using inp [OF 2(1)] that(1) fw_checks_quiet [of fs args config]
      by (auto simp: always_def dest!: emitsD)
  next
    case (3 config w0 p i b w1)
    note ok = fw_checks_ok [OF 3(2)]
    from 3(3) obtain rf w2 where "flash_firmware api fs (arg_node_id args) p i b w1 = Some (rf, w2)"
      "r = Inr () \<longleftrightarrow> rf = Inr ()" "cmds w' = cmds w2"
      by (auto simp: py_except_def fail_with_def say_def print_out_def py_effect_def py_bind_def py_raise_def
          split: option.splits sum.splits if_splits)
    then show thesis using that(2) [of i b w1 rf w2] ok inp [OF 3(1)] by auto
  qed
qed

lemma fw_main_consent:
  assumes "fw_main api fs hy parsed args w = Some (r, w')" "cmds w' \<noteq> cmds w"
  shows "f_isfile fs (f_abspath fs (arg_bin_path args)) \<and>
     (arg_yes args \<or> (\<exists>l rest. inp w = Line l # rest \<and> lower (strip l) = ''y''))"
  by (rule fw_main_cases [OF assms(1)]) (use assms(2) in auto)

text \<open>Nothing is sent without a file and the user's consent: if \<open>main\<close> sends any command, the
  file exists, and either \<open>--yes\<close> was given or the first line typed is a y, in either case and
  with white space around it.\<close>

theorem update_needs_consent:
  assumes "fw_main api fs hy parsed args w = Some (r, w')" "cmds w' \<noteq> cmds w"
  shows "f_isfile fs (f_abspath fs (arg_bin_path args)) \<and>
     (arg_yes args \<or> (\<exists>l rest. inp w = Line l # rest \<and> lower (strip l) = ''y''))"
  by (rule fw_main_consent [OF assms])

lemma prompt_flash_run:
  "f_data fs p = Inr [7] \<Longrightarrow> f_size fs p = Inr 1 \<Longrightarrow>
   \<exists>w'. flash_firmware prompt_node fs n p i b w = Some (Inr (), w') \<and>
     cmds w' = cmds w @ [C_add_node n, C_connect i b] @ flash_log 0 1 [7] @ [C_disconnect]"
  by (simp add: flash_run_simps prompt_wait Let_def flash_consts
      flash_log_def prepare_log_def image_log_def finish_log_def)

definition demo_args :: fw_args where
  "demo_args = \<lparr>arg_node_id = 5, arg_bin_path = ''f'', arg_interface = Some ''can0'',
     arg_baudrate = None, arg_yes = False\<rparr>"

lemma demo_main_run:
  "\<exists>w'. fw_main prompt_node (one_file ''f'' [7]) True parsed
       (demo_args\<lparr>arg_baudrate := Some 125000\<rparr>) (fresh_world 0 [Line '' Y'']) = Some (Inr (), w') \<and>
     cmds w' = [C_add_node 5, C_connect (YStr ''can0'') (YInt 125000)] @ flash_log 0 1 [7] @ [C_disconnect]"
proof -
  have consent: "lower (strip '' Y'') = ''y''"
    by code_simp
  obtain w1 where w1: "fw_checks (one_file ''f'' [7]) (demo_args\<lparr>arg_baudrate := Some 125000\<rparr>) (YDict [])
      (fresh_world (0 :: rat) [Line '' Y'']) = Some (Inr (''f'', YStr ''can0'', YInt 125000), w1)" "cmds w1 = []"
    by (simp add: fw_checks_def demo_args_def or_config_def one_file_def fresh_world_def fw_confirm_def
        py_input_def ask_def say_def print_out_def py_simps Let_def consent)
  have cfg: "fw_load_config True (one_file ''f'' [7]) parsed DEFAULT_CONFIG_FILE w = Some (Inr (YDict []), w)"
    for parsed w
    by (simp add: fw_load_config_def one_file_def DEFAULT_CONFIG_FILE_def py_return_def)
  obtain w2 where "flash_firmware prompt_node (one_file ''f'' [7]) 5 ''f'' (YStr ''can0'') (YInt 125000) w1 = Some (Inr (), w2)"
    "cmds w2 = cmds w1 @ [C_add_node 5, C_connect (YStr ''can0'') (YInt 125000)] @ flash_log 0 1 [7] @ [C_disconnect]"
    using prompt_flash_run [of "one_file ''f'' [7]" "''f''" 5 "YStr ''can0''" "YInt 125000" w1]
    by (fastforce simp: one_file_def)
  then show ?thesis using w1 by (simp add: fw_main_def cfg py_simps demo_args_def)
qed

theorem update_needs_consent_witness:
  "\<exists>l rest. inp (fresh_world 0 [Line '' Y'']) = Line l # rest \<and> lower (strip l) = ''y''"
proof -
  obtain w' where "fw_main prompt_node (one_file ''f'' [7]) True (\<lambda>_. Inr (YDict [(''baudrate'', YInt 125000)]))
       (demo_args\<lparr>arg_baudrate := Some 125000\<rparr>) (fresh_world 0 [Line '' Y'']) = Some (Inr (), w')"
    "cmds w' \<noteq> []"
    using demo_main_run [where parsed = "\<lambda>_. Inr (YDict [(''baudrate'', YInt 125000)])"]
    by (auto simp: flash_log_def prepare_log_def)
  from update_needs_consent [OF this(1)] this(2) show ?thesis by (auto simp: fresh_world_def demo_args_def)
qed

text \<open>When \<open>main\<close> ends normally, which is exit status 0, the update has been carried out: the
  complete sequence was sent for the file named, over an interface and at a rate that are set.
  Every failure, and a refusal, leaves \<open>main\<close> with an exception.\<close>

theorem main_ends_normally_after_update:
  assumes "fw_main api fs hy parsed args w = Some (Inr (), w')"
    and "f_size fs (f_abspath fs (arg_bin_path args)) = Inr sz"
    and "f_data fs (f_abspath fs (arg_bin_path args)) = Inr data"
  shows "\<exists>i b s1. truthy i \<and> truthy b \<and>
     cmds w' = cmds w @ [C_add_node (arg_node_id args), C_connect i b] @ flash_log s1 sz data @ [C_disconnect]"
proof (rule fw_main_cases [OF assms(1)])
  fix i b rf and w1 w2 :: "('a, 'b) world_scheme"
  assume *: "truthy i" "truthy b" "cmds w1 = cmds w" "Inr () = Inr () \<longleftrightarrow> rf = Inr ()" "cmds w' = cmds w2"
    "flash_firmware api fs (arg_node_id args) (f_abspath fs (arg_bin_path args)) i b w1 = Some (rf, w2)"
  then show ?thesis
    using emitsD [OF flash_firmware_emits [OF assms(2,3)] *(6)] by auto
qed simp

theorem main_ends_normally_after_update_witness:
  "\<exists>i b s1. truthy i \<and> truthy b \<and>
     [C_add_node 5, C_connect (YStr ''can0'') (YInt 125000)] @ flash_log 0 1 [7] @ [C_disconnect] =
     [C_add_node 5, C_connect i b] @ flash_log s1 1 [7] @ [C_disconnect]"
proof -
  obtain w' where run: "fw_main prompt_node (one_file ''f'' [7]) True (\<lambda>_. Inr (YDict [(''baudrate'', YInt 125000)]))
       (demo_args\<lparr>arg_baudrate := Some 125000\<rparr>) (fresh_world 0 [Line '' Y'']) = Some (Inr (), w')"
    "cmds w' = [C_add_node 5, C_connect (YStr ''can0'') (YInt 125000)] @ flash_log 0 1 [7] @ [C_disconnect]"
    using demo_main_run by blast
  show ?thesis
    using main_ends_normally_after_update [OF run(1), of 1 "[7]"] run(2)
    by (auto simp: one_file_def fresh_world_def demo_args_def)
qed

text \<open>Types in an object dictionary, and the commands that respect them.\<close>

definition od_lookup :: "od_array list \<Rightarrow> int \<Rightarrow> int \<Rightarrow> od_type option" where
  "od_lookup od i s =
     (case find (\<lambda>a. arr_index a = i) od of
        None \<Rightarrow> None
      | Some a \<Rightarrow> map_option var_data_type (find (\<lambda>v. var_index v = i \<and> var_subindex v = s) (arr_members a)))"

fun fits_od :: "od_array list \<Rightarrow> command \<Rightarrow> bool" where
  "fits_od od (C_write i s v) = (od_lookup od i s = Some UNSIGNED8 \<and> 0 \<le> v \<and> v < 256)"
| "fits_od od (C_open i s bs sz) = (od_lookup od i s = Some DOMAIN)"
| "fits_od od _ = True"

lemma od_lookups:
  "od_lookup create_flash_object_dictionary 0x1F50 1 = Some DOMAIN"
  "od_lookup create_flash_object_dictionary 0x1F51 1 = Some UNSIGNED8"
  "od_lookup create_flash_object_dictionary 0x1F56 1 = Some UNSIGNED32"
  "od_lookup create_flash_object_dictionary 0x1F57 1 = Some UNSIGNED32"
  by (simp_all add: od_lookup_def create_flash_object_dictionary_def flash_consts)

lemma flash_log_fits: "c \<in> set (flash_log s1 sz data) \<Longrightarrow> fits_od create_flash_object_dictionary c"
  by (auto simp: flash_log_def prepare_log_def image_log_def finish_log_def od_lookups)

lemma chunks_fit: "prefix bs (map C_chunk cs) \<Longrightarrow> c \<in> set bs \<Longrightarrow> fits_od od c"
  using set_mono_prefix [of bs "map C_chunk cs"] by (auto dest: subsetD)

lemma flash_stopped_fits:
  assumes "flash_stopped s1 sz data cs" "c \<in> set cs"
  shows "fits_od create_flash_object_dictionary c"
  using assms(1) unfolding flash_stopped_def
proof (elim disjE exE conjE)
  assume "prefix cs (flash_log s1 sz data)"
  then show ?thesis using assms(2) flash_log_fits set_mono_prefix by blast
qed (use assms(2) in \<open>auto simp: prepare_log_def image_log_def od_lookups chunks_fit\<close>)



text \<open>(C31) The progress bar always has 40 characters, of which \<open>40 * sent / size\<close>, rounded down, are
  filled; a file that was empty when its size was taken but has data makes the division fail.\<close>

theorem progress_bar:
  assumes "sent \<le> sz" "0 < sent"
  shows "\<exists>bar. show_progress sz sent w =
       Some (Inr (), w\<lparr>out := out w @ [Bar (of_nat sent / of_nat sz) bar sent sz]\<rparr>) \<and>
     length bar = 40 \<and> count_list bar CHR ''#'' = 40 * sent div sz \<and>
     show_progress 0 sent w = Some (Inl (Exn ZeroDivisionError ''division by zero''), w)"
proof -
  have fl: "\<lfloor>40 * of_nat sent / (of_nat sz :: rat)\<rfloor> = int (40 * sent div sz)"
    using floor_divide_of_nat_eq [where 'a = rat, of "40 * sent" sz] by simp
  have "40 * sent div sz \<le> 40 * sz div sz" using assms(1) by (intro div_le_mono) simp
  then have le: "40 * sent div sz \<le> 40" using assms by simp
  have "count_list (replicate n c) d = (if c = d then n else 0)" for n and c d :: char
    by (induction n) auto
  then show ?thesis
    using assms le by (auto simp: show_progress_def py_simps Let_def fl)
qed

theorem progress_bar_witness:
  "\<exists>bar. length bar = 40 \<and> count_list bar CHR ''#'' = 13"
  using progress_bar [of 512 1536 "fresh_world 0 []"] by auto

end
