(* ===== verification/Bridge_Config.thy ===== *)
theory Bridge_Config
  imports Py_Value
begin

text \<open>
  The configuration of the bridge and what is done with it before the loops start:
  \<open>DEFAULT_CONFIG\<close>, \<open>load_config\<close> with its \<open>merge\<close>, \<open>bring_up_interface\<close>, \<open>make_bus\<close>,
  \<open>set_tcp_keepalive\<close> and the host and port each role uses.  Parsing the file, running a command
  and opening the bus belong to PyYAML, the operating system and python-can: their results are
  parameters.
\<close>

subsection \<open>Defaults and merging\<close>

definition DEFAULT_CAN :: yaml_dict where
  "DEFAULT_CAN =
     [(''iface'', YStr ''vcan0''), (''bitrate'', YInt 250000), (''fd'', YBool False),
      (''data_bitrate'', YInt 2000000), (''brs'', YBool False), (''bringup'', YBool False),
      (''restart_ms'', YInt 100)]"

definition DEFAULT_CONFIG :: yaml_dict where
  "DEFAULT_CONFIG =
     [(''role'', YStr ''server''), (''bind_host'', YStr ''0.0.0.0''), (''port'', YInt 50000),
      (''peer_host'', YStr ''127.0.0.1''), (''peer_port'', YInt 50000),
      (''tcp_keepalive'', YBool True), (''reconnect_delay_sec'', YFloat 2),
      (''can'', YDict DEFAULT_CAN)]"

text \<open>\<open>dst.setdefault(k, v)\<close> on a value without that method raises \<open>AttributeError\<close>.\<close>

definition no_setdefault :: exn where
  "no_setdefault = Exn AttributeError ''object has no attribute setdefault''"

function merge :: "yaml \<Rightarrow> yaml_dict \<Rightarrow> exn + yaml" where
  "merge dst [] = Inr dst"
| "merge dst ((k, v) # src) =
     (case dst of
        YDict d \<Rightarrow>
          (case v of
             YDict sub \<Rightarrow>
               (case merge (get_or d k (YDict [])) sub of
                  Inl e \<Rightarrow> Inl e
                | Inr node \<Rightarrow> merge (YDict (dict_put k node d)) src)
           | _ \<Rightarrow> merge (YDict (dict_put k (get_or d k v) d)) src)
      | _ \<Rightarrow> Inl no_setdefault)"
  by pat_completeness auto
termination
  by (relation "measure (\<lambda>(dst, src). size_list (size_prod (\<lambda>_. 0) size) src)") auto

declare merge.simps(2) [simp del]

text \<open>The argument is what \<open>open\<close> and \<open>yaml.safe_load\<close> made of the file.\<close>

definition load_config :: "exn + yaml \<Rightarrow> exn + yaml" where
  "load_config parsed = (case parsed of Inl e \<Rightarrow> Inl e | Inr cfg \<Rightarrow> merge cfg DEFAULT_CONFIG)"

subsection \<open>Bringing the interface up\<close>

text \<open>\<open>run\<close>: a command that fails is ignored, any other exception is not.\<close>

definition run_ignoring :: "(string list \<Rightarrow> 'w \<Rightarrow> (exn + unit) \<times> 'w) \<Rightarrow> string list \<Rightarrow> ('w, unit) py" where
  "run_ignoring exec cmd w =
     (case exec cmd w of
        (Inl e, w') \<Rightarrow>
          (if exn_kind e = CalledProcessError then Some (Inr (), w') else Some (Inl e, w'))
      | (Inr _, w') \<Rightarrow> Some (Inr (), w'))"

definition link_type_cmd :: "string \<Rightarrow> int \<Rightarrow> bool \<Rightarrow> int \<Rightarrow> string list" where
  "link_type_cmd iface bitrate use_fd data_bitrate =
     (if use_fd
      then [''ip'', ''link'', ''set'', iface, ''type'', ''can'', ''bitrate'', int_str bitrate,
            ''dbitrate'', int_str (if data_bitrate \<noteq> 0 then data_bitrate else 2000000), ''fd'', ''on'']
      else [''ip'', ''link'', ''set'', iface, ''type'', ''can'', ''bitrate'', int_str bitrate])"

text \<open>\<open>cmd += ["restart-ms", str(int(restart_ms))]\<close> under its guard.\<close>

definition with_restart :: "yaml \<Rightarrow> string list \<Rightarrow> exn + string list" where
  "with_restart restart_ms cmd =
     (if truthy restart_ms
      then (case yaml_int restart_ms of
              Inl e \<Rightarrow> Inl e
            | Inr n \<Rightarrow> Inr (cmd @ [''restart-ms'', int_str n]))
      else Inr cmd)"

text \<open>
  The two integers are converted before \<open>bringup\<close> is looked at.  A command with an element that
  is not a string makes \<open>" ".join(cmd)\<close> raise \<open>TypeError\<close>.
\<close>

definition bring_up_interface ::
    "(string list \<Rightarrow> 'w \<Rightarrow> (exn + unit) \<times> 'w) \<Rightarrow> bool \<Rightarrow> yaml_dict \<Rightarrow> ('w, unit) py" where
  "bring_up_interface exec is_root can_cfg =
     (let iface = get_or can_cfg ''iface'' (YStr ''can0'');
          bringup = truthy (get_or can_cfg ''bringup'' (YBool False));
          restart_ms = get_or can_cfg ''restart_ms'' YNull;
          use_fd = truthy (get_or can_cfg ''fd'' (YBool False))
      in case yaml_int (get_or can_cfg ''bitrate'' (YInt 250000)) of
           Inl e \<Rightarrow> py_raise e
         | Inr bitrate \<Rightarrow>
             (case yaml_int (get_or can_cfg ''data_bitrate'' (YInt 0)) of
                Inl e \<Rightarrow> py_raise e
              | Inr data_bitrate \<Rightarrow>
                  (if \<not> bringup then py_return ()
                   else if \<not> is_root then py_return ()
                   else (case iface of
                           YStr i \<Rightarrow>
                             py_bind (run_ignoring exec [''ip'', ''link'', ''set'', i, ''down'']) (\<lambda>_.
                               (case with_restart restart_ms
                                        (link_type_cmd i bitrate use_fd data_bitrate) of
                                  Inl e \<Rightarrow> py_raise e
                                | Inr cmd \<Rightarrow>
                                    py_block [run_ignoring exec cmd,
                                      run_ignoring exec [''ip'', ''link'', ''set'', i, ''up'']]))
                         | _ \<Rightarrow> py_raise (Exn TypeError ''expected str instance'')))))"

subsection \<open>Bus, keep-alive, hosts and ports\<close>

text \<open>The arguments of \<open>can.Bus\<close>.\<close>

record bus_args =
  bus_channel :: yaml
  bus_interface :: string
  bus_fd :: bool

definition make_bus :: "yaml_dict \<Rightarrow> bus_args" where
  "make_bus can_cfg =
     \<lparr>bus_channel = get_or can_cfg ''iface'' (YStr ''vcan0''), bus_interface = ''socketcan'',
      bus_fd = truthy (get_or can_cfg ''fd'' (YBool False))\<rparr>"

datatype sock_opt = SO_KEEPALIVE | TCP_KEEPIDLE | TCP_KEEPINTVL | TCP_KEEPCNT

text \<open>The options set, given which constants the \<open>socket\<close> module has on this system.\<close>

definition set_tcp_keepalive :: "sock_opt list \<Rightarrow> (sock_opt \<times> int) list" where
  "set_tcp_keepalive available =
     [(SO_KEEPALIVE, 1)] @
     (if TCP_KEEPIDLE \<in> set available then [(TCP_KEEPIDLE, 30)] else []) @
     (if TCP_KEEPINTVL \<in> set available then [(TCP_KEEPINTVL, 10)] else []) @
     (if TCP_KEEPCNT \<in> set available then [(TCP_KEEPCNT, 3)] else [])"

definition server_address :: "yaml_dict \<Rightarrow> exn + yaml \<times> int" where
  "server_address cfg =
     map_sum id (Pair (get_or cfg ''bind_host'' (YStr ''0.0.0.0'')))
       (yaml_int (get_or cfg ''port'' (YInt 50000)))"

text \<open>The default of \<open>peer_port\<close> is evaluated whether it is needed or not.\<close>

definition client_address :: "yaml_dict \<Rightarrow> exn + yaml \<times> int" where
  "client_address cfg =
     (case yaml_int (get_or cfg ''port'' (YInt 50000)) of
        Inl e \<Rightarrow> Inl e
      | Inr port \<Rightarrow>
          map_sum id (Pair (get_or cfg ''peer_host'' (YStr ''127.0.0.1'')))
            (yaml_int (get_or cfg ''peer_port'' (YInt port))))"

definition is_server :: "yaml_dict \<Rightarrow> bool" where
  "is_server cfg \<longleftrightarrow> get_or cfg ''role'' (YStr ''server'') = YStr ''server''"

text \<open>\<open>bool(self.cfg["can"].get("fd", False))\<close> of the sending loop.\<close>

definition use_fd_cfg :: "yaml_dict \<Rightarrow> bool" where
  "use_fd_cfg can_cfg = truthy (get_or can_cfg ''fd'' (YBool False))"

subsection \<open>Lemmas on merging\<close>

fun is_dict :: "yaml \<Rightarrow> bool" where
  "is_dict (YDict _) = True"
| "is_dict _ = False"

definition flat :: "yaml_dict \<Rightarrow> bool" where
  "flat src \<longleftrightarrow> (\<forall>v\<in>snd ` set src. \<not> is_dict v)"

text \<open>The lookups of a dictionary completed with defaults.\<close>

definition completed :: "yaml_dict \<Rightarrow> yaml_dict \<Rightarrow> string \<Rightarrow> yaml option" where
  "completed u dflt k = (case dict_get u k of None \<Rightarrow> dict_get dflt k | Some v \<Rightarrow> Some v)"

lemma merge_scalar:
  "\<not> is_dict v \<Longrightarrow> merge (YDict d) ((k, v) # src) = merge (YDict (dict_put k (get_or d k v) d)) src"
  by (cases v) (auto simp: merge.simps)

lemma merge_not_dict: "\<not> is_dict v \<Longrightarrow> merge v ((k, x) # src) = Inl no_setdefault"
  by (cases v) (auto simp: merge.simps)

lemma merge_append:
  "merge dst (s1 @ s2) = (case merge dst s1 of Inl e \<Rightarrow> Inl e | Inr x \<Rightarrow> merge x s2)"
proof (induction s1 arbitrary: dst)
  case Nil
  then show ?case by simp
next
  case (Cons p s1)
  obtain k v where p: "p = (k, v)" by fastforce
  show ?case
    by (cases dst; cases v) (simp_all add: p merge.simps Cons.IH split: sum.split)
qed

lemma dict_get_put_default:
  "dict_get (dict_put k (get_or d k v) d) k' =
     (case dict_get d k' of None \<Rightarrow> if k' = k then Some v else None | Some x \<Rightarrow> Some x)"
  by (auto simp: dict_get_put get_or_def split: option.split)

lemma merge_flat:
  "flat src \<Longrightarrow> \<exists>d'. merge (YDict d) src = Inr (YDict d') \<and> dict_get d' = completed d src"
proof (induction src arbitrary: d)
  case Nil
  then show ?case by (auto simp: completed_def fun_eq_iff split: option.split)
next
  case (Cons p src)
  obtain k v where p: "p = (k, v)" by fastforce
  have v: "\<not> is_dict v" and fl: "flat src" using Cons.prems by (auto simp: flat_def p)
  obtain d' where "merge (YDict (dict_put k (get_or d k v) d)) src = Inr (YDict d')"
    "dict_get d' = completed (dict_put k (get_or d k v) d) src"
    using Cons.IH [OF fl] by blast
  then show ?case
    using merge_scalar [OF v]
    by (auto simp: p completed_def dict_get_put_default fun_eq_iff split: option.split)
qed

lemma merge_flat_stable:
  "flat src \<Longrightarrow> \<forall>k\<in>fst ` set src. dict_get d k \<noteq> None \<Longrightarrow> merge (YDict d) src = Inr (YDict d)"
proof (induction src)
  case (Cons p src)
  obtain k v x where p: "p = (k, v)" "dict_get d k = Some x" using Cons.prems(2) by (cases p) auto
  have "\<not> is_dict v" "flat src" using Cons.prems by (auto simp: flat_def p)
  then show ?case
    using Cons p by (simp add: merge_scalar get_or_def dict_put_same)
qed simp

definition DEFAULT_FLAT :: yaml_dict where
  "DEFAULT_FLAT = butlast DEFAULT_CONFIG"

lemma default_split: "DEFAULT_CONFIG = DEFAULT_FLAT @ [(''can'', YDict DEFAULT_CAN)]"
  by (simp add: DEFAULT_CONFIG_def DEFAULT_FLAT_def)

lemma default_flat: "flat DEFAULT_FLAT" "flat DEFAULT_CAN"
  by (simp_all add: flat_def DEFAULT_FLAT_def DEFAULT_CONFIG_def DEFAULT_CAN_def)

lemma default_can_absent: "dict_get DEFAULT_FLAT ''can'' = None"
  by (simp add: DEFAULT_FLAT_def DEFAULT_CONFIG_def)

lemma default_get: "k \<noteq> ''can'' \<Longrightarrow> dict_get DEFAULT_CONFIG k = dict_get DEFAULT_FLAT k"
  by (simp add: default_split map_add_def split: option.split)

text \<open>The result of \<open>load_config\<close> on a dictionary.\<close>

lemma load_config_dict:
  obtains (bad) "\<not> is_dict (get_or u ''can'' (YDict []))"
      "load_config (Inr (YDict u)) = Inl no_setdefault"
  | (good) c d c' where "get_or u ''can'' (YDict []) = YDict c"
      "load_config (Inr (YDict u)) = Inr (YDict d)" "dict_get d ''can'' = Some (YDict c')"
      "\<forall>k. k \<noteq> ''can'' \<longrightarrow> dict_get d k = completed u DEFAULT_CONFIG k"
      "dict_get c' = completed c DEFAULT_CAN"
proof -
  obtain d1 where d1: "merge (YDict u) DEFAULT_FLAT = Inr (YDict d1)"
    "dict_get d1 = completed u DEFAULT_FLAT"
    using merge_flat [OF default_flat(1)] by blast
  have can: "get_or d1 ''can'' (YDict []) = get_or u ''can'' (YDict [])"
    by (simp add: get_or_def d1(2) completed_def default_can_absent split: option.split)
  have run: "load_config (Inr (YDict u)) = merge (YDict d1) [(''can'', YDict DEFAULT_CAN)]"
    by (simp add: load_config_def default_split merge_append d1(1))
  show thesis
  proof (cases "is_dict (get_or u ''can'' (YDict []))")
    case False
    then have "merge (get_or d1 ''can'' (YDict [])) DEFAULT_CAN = Inl no_setdefault"
      by (simp add: can merge_not_dict DEFAULT_CAN_def)
    then show thesis using bad [OF False] run by (simp add: merge.simps)
  next
    case True
    then obtain c where c: "get_or u ''can'' (YDict []) = YDict c"
      by (cases "get_or u ''can'' (YDict [])") auto
    obtain c' where c': "merge (YDict c) DEFAULT_CAN = Inr (YDict c')"
      "dict_get c' = completed c DEFAULT_CAN"
      using merge_flat [OF default_flat(2)] by blast
    have "load_config (Inr (YDict u)) = Inr (YDict (dict_put ''can'' (YDict c') d1))"
      using run c c'(1) can by (simp add: merge.simps)
    then show thesis
      by (rule good [OF c _ _ _ c'(2)])
        (auto simp: dict_get_put d1(2) completed_def default_get split: option.split)
  qed
qed

lemma completed_present: "dict_get dflt k \<noteq> None \<Longrightarrow> completed u dflt k \<noteq> None"
  by (simp add: completed_def split: option.split)

lemma dict_get_present: "k \<in> fst ` set d \<Longrightarrow> dict_get d k \<noteq> None"
  by (simp add: map_of_eq_None_iff)

subsection \<open>Properties of the configuration\<close>

text \<open>(C29) What \<open>load_config\<close> returns.  A user's dictionary is completed at both levels: every key
  the user gives keeps its value, every other key of \<open>DEFAULT_CONFIG\<close> gets its default, and the
  same holds inside \<open>can\<close>, so the merge is not shallow.  If \<open>can\<close> is given and is not a
  dictionary, loading fails.\<close>

theorem load_config_completes:
  "case get_or u ''can'' (YDict []) of
     YDict c \<Rightarrow>
       (\<exists>d c'. load_config (Inr (YDict u)) = Inr (YDict d) \<and> dict_get d ''can'' = Some (YDict c') \<and>
          (\<forall>k. k = ''can'' \<or> dict_get d k = completed u DEFAULT_CONFIG k) \<and>
          dict_get c' = completed c DEFAULT_CAN)
   | _ \<Rightarrow> load_config (Inr (YDict u)) = Inl no_setdefault"
proof (cases rule: load_config_dict [of u])
  case bad
  then show ?thesis by (cases "get_or u ''can'' (YDict [])") simp_all
next
  case (good c d c')
  then show ?thesis by simp blast
qed

text \<open>Loading is idempotent: a configuration that has been completed is left as it is.\<close>

theorem load_config_idempotent:
  assumes "load_config (Inr cfg) = Inr cfg'"
  shows "load_config (Inr cfg') = Inr cfg'"
proof -
  obtain u where u: "cfg = YDict u"
    using assms by (cases cfg) (auto simp: load_config_def DEFAULT_CONFIG_def merge_not_dict)
  show ?thesis
  proof (cases rule: load_config_dict [of u])
    case bad
    then show ?thesis using assms u by simp
  next
    case (good c d c')
    have cfg': "cfg' = YDict d" using assms u good(2) by simp
    have "\<forall>k\<in>fst ` set DEFAULT_FLAT. dict_get d k \<noteq> None"
    proof
      fix k assume k: "k \<in> fst ` set DEFAULT_FLAT"
      then have "k \<noteq> ''can''" using default_can_absent by (metis map_of_eq_None_iff)
      then show "dict_get d k \<noteq> None"
        using good(4) completed_present [of DEFAULT_CONFIG k u] dict_get_present [OF k]
        by (simp add: default_get)
    qed
    then have "merge (YDict d) DEFAULT_FLAT = Inr (YDict d)"
      by (rule merge_flat_stable [OF default_flat(1)])
    moreover have "merge (YDict c') DEFAULT_CAN = Inr (YDict c')"
      by (rule merge_flat_stable [OF default_flat(2)])
        (auto simp: good(5) intro!: completed_present dict_get_present simp del: not_None_eq)
    ultimately show ?thesis
      using good(3)
      by (simp add: cfg' load_config_def default_split merge_append merge.simps get_or_def dict_put_same)
  qed
qed

theorem load_config_idempotent_witness:
  "load_config (Inr (YDict [(''role'', YStr ''client''), (''can'', YDict [(''fd'', YBool True)])])) \<noteq> Inl no_setdefault \<and>
   (\<exists>c. load_config (Inr (YDict [(''role'', YStr ''client'')])) = Inr c \<and> load_config (Inr c) = Inr c)"
proof -
  obtain c where c: "load_config (Inr (YDict [(''role'', YStr ''client'')])) = Inr c"
    by (cases rule: load_config_dict [of "[(''role'', YStr ''client'')]"]) (auto simp: get_or_def)
  have "load_config (Inr (YDict [(''role'', YStr ''client''), (''can'', YDict [(''fd'', YBool True)])])) \<noteq>
      Inl no_setdefault"
    by (cases rule: load_config_dict [of "[(''role'', YStr ''client''), (''can'', YDict [(''fd'', YBool True)])]"])
      (auto simp: get_or_def)
  then show ?thesis using c load_config_idempotent [OF c] by blast
qed

text \<open>The client's port.  \<open>_connect_once\<close> means \<open>port\<close> to be the fallback of \<open>peer_port\<close>, but
  a loaded configuration always has a \<open>peer_port\<close>: when the user sets only \<open>port\<close>, the client
  still connects to port 50000.\<close>

theorem client_ignores_port:
  assumes "dict_get u ''peer_port'' = None" "dict_get u ''can'' = None"
    and "dict_get u ''port'' = Some (YInt p)"
  shows "\<exists>d host. load_config (Inr (YDict u)) = Inr (YDict d) \<and>
     server_address d = Inr (get_or d ''bind_host'' YNull, p) \<and> client_address d = Inr (host, 50000)"
proof (cases rule: load_config_dict [of u])
  case bad
  then show ?thesis using assms(2) by (simp add: get_or_def)
next
  case (good c d c')
  have "dict_get d ''port'' = Some (YInt p)" "dict_get d ''peer_port'' = Some (YInt 50000)"
    "dict_get d ''bind_host'' \<noteq> None"
    using good(4) assms by (auto simp: completed_def DEFAULT_CONFIG_def split: option.split)
  then show ?thesis using good(2) by (auto simp: client_address_def server_address_def get_or_def)
qed

theorem client_ignores_port_witness:
  "\<exists>d host. load_config (Inr (YDict [(''port'', YInt 6000)])) = Inr (YDict d) \<and>
     server_address d = Inr (get_or d ''bind_host'' YNull, 6000) \<and> client_address d = Inr (host, 50000)"
  by (rule client_ignores_port) simp_all

text \<open>The option \<open>brs\<close> does nothing: the three readers of the CAN part of the configuration
  give the same result whatever its value, so frames the bus sends are never switched to the
  data bit rate because of it.\<close>

theorem brs_has_no_effect:
  "bring_up_interface exec is_root (dict_put ''brs'' v c) = bring_up_interface exec is_root c \<and>
   make_bus (dict_put ''brs'' v c) = make_bus c \<and> use_fd_cfg (dict_put ''brs'' v c) = use_fd_cfg c"
proof -
  have g: "get_or (dict_put ''brs'' v c) k x = get_or c k x" if "k \<noteq> ''brs''" for k x
    using that by (simp add: get_or_def dict_get_put)
  have keys: "get_or (dict_put ''brs'' v c) ''iface'' x = get_or c ''iface'' x"
    "get_or (dict_put ''brs'' v c) ''bringup'' x = get_or c ''bringup'' x"
    "get_or (dict_put ''brs'' v c) ''restart_ms'' x = get_or c ''restart_ms'' x"
    "get_or (dict_put ''brs'' v c) ''fd'' x = get_or c ''fd'' x"
    "get_or (dict_put ''brs'' v c) ''bitrate'' x = get_or c ''bitrate'' x"
    "get_or (dict_put ''brs'' v c) ''data_bitrate'' x = get_or c ''data_bitrate'' x" for x
    by (simp_all add: g)
  show ?thesis unfolding bring_up_interface_def make_bus_def use_fd_cfg_def keys by simp
qed

text \<open>The command log of an \<open>exec\<close> whose result depends on the command only.\<close>

definition logged :: "(string list \<Rightarrow> exn + unit) \<Rightarrow> string list \<Rightarrow> string list list \<Rightarrow> (exn + unit) \<times> string list list" where
  "logged f cmd w = (f cmd, w @ [cmd])"

lemma run_ignoring_logged:
  "\<forall>c e. f c = Inl e \<longrightarrow> exn_kind e = CalledProcessError \<Longrightarrow>
     run_ignoring (logged f) cmd w = Some (Inr (), w @ [cmd])"
  by (auto simp: run_ignoring_def logged_def split: sum.split)



end
