(* ===== verification/Bridge_Main.thy ===== *)
theory Bridge_Main
  imports Bridge_Config Bridge_Loops
begin

text \<open>
  \<open>main\<close>, \<open>Bridge.start\<close> and \<open>Bridge.stop\<close> of \<open>can_tcp_bridge.py\<close>, as the main thread runs them:
  reading the configuration, setting the log level, opening the bus, starting the manager thread,
  the sending loop of \<open>Bridge_Loops\<close>, and the clean-up on every way out.  The operating system,
  argparse, PyYAML, python-can and the manager thread are parameters; \<open>os_sock\<close> is a reading of
  \<open>self.sock\<close>, which the manager may change between two readings.  The events of a run are logged.
\<close>

datatype log_level = WARNING | INFO | DEBUG

datatype bridge_event =
    E_level log_level
  | E_cmd "string list"
  | E_bus bus_args          \<comment> \<open>the bus has been opened\<close>
  | E_thread                \<comment> \<open>the manager thread has been started\<close>
  | E_loop                  \<comment> \<open>the sending loop has been entered\<close>
  | E_interrupted           \<comment> \<open>\<open>"\nInterrupted, stopping ..."\<close> has been printed\<close>
  | E_stop_event
  | E_shutdown nat
  | E_close nat
  | E_bus_shutdown
  | E_missing_can           \<comment> \<open>that python-can is missing has been printed to \<open>sys.stderr\<close>\<close>

text \<open>The levels in the order of \<open>logging\<close>: what is below the level set is not logged.\<close>

instantiation log_level :: linorder
begin

fun severity :: "log_level \<Rightarrow> nat" where
  "severity DEBUG = 10" | "severity INFO = 20" | "severity WARNING = 30"

definition less_eq_log_level :: "log_level \<Rightarrow> log_level \<Rightarrow> bool" where
  "less_eq_log_level a b \<longleftrightarrow> severity a \<le> severity b"

definition less_log_level :: "log_level \<Rightarrow> log_level \<Rightarrow> bool" where
  "less_log_level a b \<longleftrightarrow> severity a < severity b"

instance
proof
  fix a b :: log_level
  show "a \<le> b \<Longrightarrow> b \<le> a \<Longrightarrow> a = b" by (cases a; cases b) (simp_all add: less_eq_log_level_def)
qed (auto simp: less_eq_log_level_def less_log_level_def)

end

record 'd bridge_world =
  env :: 'd
  events :: "bridge_event list"
  has_bus :: bool

record 'd bridge_os =
  os_root :: bool
  os_exec :: "string list \<Rightarrow> 'd \<Rightarrow> (exn + unit) \<times> 'd"
  os_open_bus :: "bus_args \<Rightarrow> 'd \<Rightarrow> (exn + unit) \<times> 'd"
  os_start_thread :: "'d \<Rightarrow> (exn + unit) \<times> 'd"
  os_ticks :: "'d \<Rightarrow> tx_tick list \<times> 'd"
  os_sock :: "'d \<Rightarrow> nat option \<times> 'd"
  os_sock_shutdown :: "nat \<Rightarrow> 'd \<Rightarrow> (exn + unit) \<times> 'd"
  os_sock_close :: "nat \<Rightarrow> 'd \<Rightarrow> (exn + unit) \<times> 'd"
  os_bus_shutdown :: "'d \<Rightarrow> (exn + unit) \<times> 'd"

definition log_event :: "bridge_event \<Rightarrow> ('d bridge_world, unit) py" where
  "log_event x = py_effect (\<lambda>w. w\<lparr>events := events w @ [x]\<rparr>)"

definition os_call :: "('d \<Rightarrow> (exn + 'a) \<times> 'd) \<Rightarrow> ('d bridge_world, 'a) py" where
  "os_call f w = (case f (env w) of (r, d) \<Rightarrow> Some (r, w\<lparr>env := d\<rparr>))"

subsection \<open>\<open>start\<close>\<close>

text \<open>\<open>cfg["can"]\<close>, which the functions that take it use as a dictionary.\<close>

definition can_section :: "yaml \<Rightarrow> exn + yaml_dict" where
  "can_section cfg =
     (case cfg of
        YDict d \<Rightarrow>
          (case dict_get d ''can'' of
             None \<Rightarrow> Inl (Exn KeyError ''can'')
           | Some (YDict c) \<Rightarrow> Inr c
           | Some _ \<Rightarrow> Inl no_get)
      | _ \<Rightarrow> Inl (Exn TypeError ''object is not subscriptable''))"

definition exec_cmd :: "'d bridge_os \<Rightarrow> string list \<Rightarrow> 'd bridge_world \<Rightarrow> (exn + unit) \<times> 'd bridge_world" where
  "exec_cmd os cmd w =
     (case os_exec os cmd (env w) of (r, d) \<Rightarrow> (r, w\<lparr>env := d, events := events w @ [E_cmd cmd]\<rparr>))"

definition open_bus :: "'d bridge_os \<Rightarrow> yaml_dict \<Rightarrow> ('d bridge_world, unit) py" where
  "open_bus os can_cfg =
     py_bind (os_call (os_open_bus os (make_bus can_cfg))) (\<lambda>_.
       py_effect (\<lambda>w. w\<lparr>events := events w @ [E_bus (make_bus can_cfg)], has_bus := True\<rparr>))"

text \<open>\<open>_loop_can_to_tcp\<close> on the passes the environment gives; when they do not end it, it never returns.\<close>

definition sending_loop :: "'d bridge_os \<Rightarrow> yaml_dict \<Rightarrow> ('d bridge_world, unit) py" where
  "sending_loop os can_cfg w =
     (case os_ticks os (env w) of
        (ts, d) \<Rightarrow>
          (case fst (loop_can_to_tcp (use_fd_cfg can_cfg) ts []) of
             Running \<Rightarrow> None
           | Left \<Rightarrow> Some (Inr (), w\<lparr>env := d\<rparr>)
           | Raised e \<Rightarrow> Some (Inl e, w\<lparr>env := d\<rparr>)))"

definition start :: "'d bridge_os \<Rightarrow> yaml \<Rightarrow> ('d bridge_world, unit) py" where
  "start os cfg =
     py_bind (py_lift (can_section cfg)) (\<lambda>can_cfg.
       py_block
         [bring_up_interface (exec_cmd os) (os_root os) can_cfg,
          open_bus os can_cfg,
          py_lift (if dict_get can_cfg ''iface'' = None then Inl (Exn KeyError ''iface'') else Inr ()),
          os_call (os_start_thread os),
          log_event E_thread,
          log_event E_loop,
          sending_loop os can_cfg])"

subsection \<open>\<open>stop\<close>\<close>

text \<open>
  \<open>if self.sock: self.sock.f()\<close>, which reads the field twice: when the manager has emptied it in
  between, the second reading is \<open>None\<close> and has no such method.
\<close>

definition on_sock ::
    "'d bridge_os \<Rightarrow> (nat \<Rightarrow> bridge_event) \<Rightarrow> (nat \<Rightarrow> 'd \<Rightarrow> (exn + unit) \<times> 'd) \<Rightarrow> ('d bridge_world, unit) py" where
  "on_sock os x f =
     py_bind (os_call (\<lambda>d. map_prod Inr id (os_sock os d))) (\<lambda>s1.
       if s1 = None then py_return ()
       else py_bind (os_call (\<lambda>d. map_prod Inr id (os_sock os d))) (\<lambda>s2.
         case s2 of
           None \<Rightarrow> py_raise (Exn AttributeError ''NoneType'')
         | Some s \<Rightarrow> py_bind (log_event (x s)) (\<lambda>_. os_call (f s))))"

definition stop_bus :: "'d bridge_os \<Rightarrow> ('d bridge_world, unit) py" where
  "stop_bus os w =
     (if has_bus w then py_bind (log_event E_bus_shutdown) (\<lambda>_. os_call (os_bus_shutdown os)) w
      else Some (Inr (), w))"

definition stop :: "'d bridge_os \<Rightarrow> ('d bridge_world, unit) py" where
  "stop os =
     py_block
       [log_event E_stop_event,
        py_except (on_sock os E_shutdown (os_sock_shutdown os)) (\<lambda>e. py_return ()),
        py_except (on_sock os E_close (os_sock_close os)) (\<lambda>e. py_return ()),
        py_except (stop_bus os) (\<lambda>e. py_return ())]"

subsection \<open>\<open>main\<close>\<close>

definition log_level :: "int \<Rightarrow> log_level" where
  "log_level verbose = (if verbose = 1 then INFO else if verbose \<ge> 2 then DEBUG else WARNING)"

text \<open>More \<open>-v\<close> never log less.\<close>

lemma log_level_antimono: "0 \<le> u \<Longrightarrow> u \<le> v \<Longrightarrow> log_level v \<le> log_level u"
  by (auto simp: log_level_def less_eq_log_level_def)

text \<open>\<open>except KeyboardInterrupt: print(...)\<close>.\<close>

definition noting_interrupt :: "('d bridge_world, unit) py \<Rightarrow> ('d bridge_world, unit) py" where
  "noting_interrupt m w =
     (case m w of
        Some (Inl e, w') \<Rightarrow>
          (if exn_kind e = KeyboardInterrupt then log_event E_interrupted w' else Some (Inl e, w'))
      | r \<Rightarrow> r)"

text \<open>
  \<open>args\<close> is what argparse makes of the command line: the configuration path and the number of
  \<open>-v\<close>, or an exception; \<open>parse\<close> is the opening and parsing of a file.
\<close>

definition bridge_main ::
    "'d bridge_os \<Rightarrow> exn + string \<times> int \<Rightarrow> (string \<Rightarrow> exn + yaml) \<Rightarrow> ('d bridge_world, unit) py" where
  "bridge_main os args parse =
     py_bind (py_lift args) (\<lambda>(config, verbose).
       py_bind (py_lift (load_config (parse config))) (\<lambda>cfg.
         py_bind (log_event (E_level (log_level verbose))) (\<lambda>_.
           py_finally (noting_interrupt (start os cfg)) (stop os))))"

subsection \<open>What is logged\<close>

definition opens :: "bridge_event \<Rightarrow> bool" where
  "opens x \<longleftrightarrow> (\<exists>a. x = E_bus a)"

definition logs :: "('d bridge_world, 'a) py \<Rightarrow> (exn + 'a \<Rightarrow> bridge_event list \<Rightarrow> bool) \<Rightarrow> bool" where
  "logs m S \<longleftrightarrow>
     (\<forall>w r w'. m w = Some (r, w') \<longrightarrow>
        (\<exists>xs. events w' = events w @ xs \<and> has_bus w' = (has_bus w \<or> list_ex opens xs) \<and> S r xs))"

lemma logsD:
  assumes "logs m S" "m w = Some (r, w')"
  obtains xs where "events w' = events w @ xs" "has_bus w' = (has_bus w \<or> list_ex opens xs)" "S r xs"
  using assms unfolding logs_def by blast

lemma logs_weaken: "logs m S \<Longrightarrow> (\<And>r xs. S r xs \<Longrightarrow> T r xs) \<Longrightarrow> logs m T"
  unfolding logs_def by blast

lemma logsI:
  assumes "\<And>w r w'. m w = Some (r, w') \<Longrightarrow>
     \<exists>xs. events w' = events w @ xs \<and> has_bus w' = (has_bus w \<or> list_ex opens xs) \<and> S r xs"
  shows "logs m S"
  using assms by (simp add: logs_def)

lemma logs_basic:
  "logs (py_return x) (\<lambda>r xs. r = Inr x \<and> xs = [])"
  "logs (py_raise e) (\<lambda>r xs. r = Inl e \<and> xs = [])"
  "logs (py_lift v) (\<lambda>r xs. r = v \<and> xs = [])"
  "logs (os_call f) (\<lambda>r xs. xs = [])"
proof -
  show "logs (py_return x) (\<lambda>r xs. r = Inr x \<and> xs = [])"
    by (rule logsI) (simp add: py_return_def)
  show "logs (py_raise e) (\<lambda>r xs. r = Inl e \<and> xs = [])"
    by (rule logsI) (simp add: py_raise_def)
  show "logs (py_lift v) (\<lambda>r xs. r = v \<and> xs = [])"
    by (rule logsI) (simp add: py_lift_def)
  show "logs (os_call f) (\<lambda>r xs. xs = [])"
    by (rule logsI) (auto simp: os_call_def split: prod.splits)
qed

lemma logs_event: "\<not> opens x \<Longrightarrow> logs (log_event x) (\<lambda>r xs. r = Inr () \<and> xs = [x])"
  by (rule logsI) (auto simp: log_event_def py_effect_def)

lemma logs_bind:
  assumes "logs m S" "\<And>x. logs (f x) (T x)"
  shows "logs (py_bind m f)
     (\<lambda>r xs. (\<exists>e. r = Inl e \<and> S (Inl e) xs) \<or> (\<exists>x as bs. xs = as @ bs \<and> S (Inr x) as \<and> T x r bs))"
  unfolding logs_def
proof (intro allI impI)
  fix w r w'
  assume "py_bind m f w = Some (r, w')"
  then consider e where "m w = Some (Inl e, w')" "r = Inl e"
    | x w1 where "m w = Some (Inr x, w1)" "f x w1 = Some (r, w')"
    by (auto simp: py_bind_eq_Some)
  then show "\<exists>xs. events w' = events w @ xs \<and> has_bus w' = (has_bus w \<or> list_ex opens xs) \<and>
      ((\<exists>e. r = Inl e \<and> S (Inl e) xs) \<or> (\<exists>x as bs. xs = as @ bs \<and> S (Inr x) as \<and> T x r bs))"
  proof cases
    case (1 e)
    obtain xs where "events w' = events w @ xs" "has_bus w' = (has_bus w \<or> list_ex opens xs)" "S (Inl e) xs"
      using logsD [OF assms(1) 1(1)] .
    then show ?thesis using 1(2) by blast
  next
    case (2 x w1)
    obtain as where "events w1 = events w @ as" "has_bus w1 = (has_bus w \<or> list_ex opens as)" "S (Inr x) as"
      using logsD [OF assms(1) 2(1)] .
    moreover obtain bs where "events w' = events w1 @ bs" "has_bus w' = (has_bus w1 \<or> list_ex opens bs)" "T x r bs"
      using logsD [OF assms(2) 2(2)] .
    ultimately show ?thesis by (intro exI [of _ "as @ bs"]) auto
  qed
qed

lemma logs_run_ignoring:
  "logs (run_ignoring (exec_cmd os) cmd)
     (\<lambda>r xs. xs = [E_cmd cmd] \<and> (\<forall>e. r = Inl e \<longrightarrow> exn_kind e \<noteq> CalledProcessError))"
  by (auto simp: logs_def run_ignoring_def exec_cmd_def opens_def split: prod.splits sum.splits)

text \<open>Bringing the interface up logs commands only.\<close>

definition commands_only :: "bridge_event list \<Rightarrow> bool" where
  "commands_only xs \<longleftrightarrow> (\<exists>cs. xs = map E_cmd cs)"

lemma commands_only_append: "commands_only xs \<Longrightarrow> commands_only ys \<Longrightarrow> commands_only (xs @ ys)"
  unfolding commands_only_def by (metis map_append)

lemma commands_only_simps [simp]: "commands_only []" "commands_only [E_cmd c]"
  by (auto simp: commands_only_def intro: exI [of _ "[c]"])

lemma logs_commands:
  "logs (py_return x) (\<lambda>r. commands_only)" "logs (py_raise e) (\<lambda>r. commands_only)"
  "logs (run_ignoring (exec_cmd os) cmd) (\<lambda>r. commands_only)"
proof -
  show "logs (py_return x) (\<lambda>r. commands_only)" by (rule logs_weaken [OF logs_basic(1)]) simp
  show "logs (py_raise e) (\<lambda>r. commands_only)" by (rule logs_weaken [OF logs_basic(2)]) simp
  show "logs (run_ignoring (exec_cmd os) cmd) (\<lambda>r. commands_only)" by (rule logs_weaken [OF logs_run_ignoring]) simp
qed

lemma logs_commands_bind:
  "logs m (\<lambda>r. commands_only) \<Longrightarrow> (\<And>x. logs (f x) (\<lambda>r. commands_only)) \<Longrightarrow> logs (py_bind m f) (\<lambda>r. commands_only)"
  by (rule logs_weaken, rule logs_bind, assumption, assumption) (auto intro: commands_only_append)

lemma logs_bring_up: "logs (bring_up_interface (exec_cmd os) is_root can_cfg) (\<lambda>r. commands_only)"
  unfolding bring_up_interface_def Let_def
  by (auto intro!: logs_commands logs_commands_bind split: sum.split yaml.split)

subsection \<open>Starting and stopping\<close>

text \<open>
  How far \<open>start\<close> has come: the commands, then the bus, then the thread, then the loop.  It ends
  normally only in the loop.
\<close>

definition started :: "exn + unit \<Rightarrow> bridge_event list \<Rightarrow> bool" where
  "started r xs \<longleftrightarrow>
     (\<exists>cmds rest. xs = cmds @ rest \<and> commands_only cmds \<and>
        (rest = [] \<and> isl r \<or> (\<exists>a. rest = [E_bus a] \<and> isl r \<or> rest = [E_bus a, E_thread, E_loop])))"

lemma logs_open_bus:
  "logs (open_bus os can_cfg) (\<lambda>r xs. if isl r then xs = [] else xs = [E_bus (make_bus can_cfg)])"
proof (rule logsI, goal_cases)
  case (1 w r w')
  then show ?case
    unfolding open_bus_def os_call_def py_effect_def
    by (cases "os_open_bus os (make_bus can_cfg) (env w)"; cases "fst (os_open_bus os (make_bus can_cfg) (env w))")
      (auto simp: py_bind_def opens_def)
qed

lemma logs_sending_loop: "logs (sending_loop os can_cfg) (\<lambda>r xs. xs = [])"
  by (rule logsI) (auto simp: sending_loop_def split: prod.splits loop_end.splits)

lemma logs_start: "logs (start os cfg) started"
proof -
  have no: "\<not> opens E_thread" "\<not> opens E_loop" by (simp_all add: opens_def)
  have tail: "logs (py_block
      [py_lift (if dict_get can_cfg ''iface'' = None then Inl (Exn KeyError ''iface'') else Inr ()),
       os_call (os_start_thread os), log_event E_thread, log_event E_loop, sending_loop os can_cfg])
      (\<lambda>r xs. xs = [] \<and> isl r \<or> xs = [E_thread, E_loop])" for can_cfg
    unfolding py_block.simps py_bind_return_unit
    by (rule logs_weaken, rule logs_bind [OF logs_basic(3) logs_bind [OF logs_basic(4)
          logs_bind [OF logs_event [OF no(1)] logs_bind [OF logs_event [OF no(2)] logs_sending_loop]]]]) (auto split: if_splits)
  have "logs (py_bind (py_lift (can_section cfg)) (\<lambda>can_cfg.
       py_bind (bring_up_interface (exec_cmd os) (os_root os) can_cfg) (\<lambda>_.
         py_bind (open_bus os can_cfg) (\<lambda>_. py_block
           [py_lift (if dict_get can_cfg ''iface'' = None then Inl (Exn KeyError ''iface'') else Inr ()),
            os_call (os_start_thread os), log_event E_thread, log_event E_loop, sending_loop os can_cfg])))) started"
  proof (rule logs_weaken, rule logs_bind [OF logs_basic(3) logs_bind [OF logs_bring_up logs_bind [OF logs_open_bus tail]]], goal_cases)
    case (1 r xs)
    then show ?case
    proof (elim disjE exE conjE, goal_cases)
      case (1 e)
      then show ?case by (auto simp: started_def intro: exI [of _ "[]"])
    next
      case (2 c as bs e)
      then show ?case by (auto simp: started_def intro: exI [of _ bs])
    next
      case (3 c as bs u as' bs' e)
      then show ?case by (auto simp: started_def intro: exI [of _ as'])
    next
      case (4 c as bs u as' bs' v as2 bs2)
      then show ?case unfolding started_def by (intro exI [of _ as'] exI [of _ "as2 @ bs2"]) auto
    next
      case (5 c as bs u as' bs' v as2 bs2)
      then show ?case unfolding started_def by (intro exI [of _ as'] exI [of _ "as2 @ bs2"]) auto
    qed
  qed
  then show ?thesis unfolding start_def py_block.simps .
qed

text \<open>A system whose calls on sockets and on the bus raise nothing but \<open>Exception\<close>s.\<close>

definition os_calm :: "'d bridge_os \<Rightarrow> bool" where
  "os_calm os \<longleftrightarrow>
     (\<forall>s d e d'. os_sock_shutdown os s d = (Inl e, d') \<longrightarrow> is_exception e) \<and>
     (\<forall>s d e d'. os_sock_close os s d = (Inl e, d') \<longrightarrow> is_exception e) \<and>
     (\<forall>d e d'. os_bus_shutdown os d = (Inl e, d') \<longrightarrow> is_exception e)"

lemma on_sock_run:
  assumes "\<forall>s d e d'. f s d = (Inl e, d') \<longrightarrow> is_exception e"
  shows "\<exists>w' xs. py_except (on_sock os x f) (\<lambda>e. py_return ()) w = Some (Inr (), w') \<and>
     events w' = events w @ xs \<and> (xs = [] \<or> (\<exists>s. xs = [x s])) \<and> has_bus w' = has_bus w"
proof -
  obtain s1 d1 where r1: "os_sock os (env w) = (s1, d1)" by fastforce
  obtain s2 d2 where r2: "os_sock os d1 = (s2, d2)" by fastforce
  show ?thesis
  proof (cases "s1 = None \<or> s2 = None")
    case True
    then show ?thesis
      using r1 r2 by (auto simp: on_sock_def os_call_def py_simps)
  next
    case False
    then obtain s where s: "s1 \<noteq> None" "s2 = Some s" by auto
    obtain r d3 where r3: "f s d2 = (r, d3)" by fastforce
    then have "\<forall>e. r = Inl e \<longrightarrow> is_exception e" using assms by blast
    then show ?thesis
      using r1 r2 r3 s by (cases r) (auto simp: on_sock_def os_call_def log_event_def py_simps)
  qed
qed

definition sock_events :: "bridge_event list \<Rightarrow> bool" where
  "sock_events xs \<longleftrightarrow>
     (\<exists>as bs. xs = as @ bs \<and> (as = [] \<or> (\<exists>s. as = [E_shutdown s])) \<and> (bs = [] \<or> (\<exists>s. bs = [E_close s])))"

lemma stop_run:
  assumes "os_calm os"
  shows "\<exists>w' socks. stop os w = Some (Inr (), w') \<and> sock_events socks \<and>
     events w' = events w @ E_stop_event # socks @ (if has_bus w then [E_bus_shutdown] else [])"
proof -
  let ?w = "w\<lparr>events := events w @ [E_stop_event]\<rparr>"
  obtain w1 as where w1: "py_except (on_sock os E_shutdown (os_sock_shutdown os)) (\<lambda>e. py_return ()) ?w = Some (Inr (), w1)"
    "events w1 = events ?w @ as" "as = [] \<or> (\<exists>s. as = [E_shutdown s])" "has_bus w1 = has_bus w"
    using on_sock_run [of "os_sock_shutdown os" os E_shutdown ?w] assms by (auto simp: os_calm_def)
  obtain w2 bs where w2: "py_except (on_sock os E_close (os_sock_close os)) (\<lambda>e. py_return ()) w1 = Some (Inr (), w2)"
    "events w2 = events w1 @ bs" "bs = [] \<or> (\<exists>s. bs = [E_close s])" "has_bus w2 = has_bus w"
    using on_sock_run [of "os_sock_close os" os E_close w1] assms w1(4) by (auto simp: os_calm_def)
  obtain r d where bus: "os_bus_shutdown os (env w2) = (r, d)" by fastforce
  then have "\<forall>e. r = Inl e \<longrightarrow> is_exception e" using assms unfolding os_calm_def by blast
  then obtain w3 where w3: "py_except (stop_bus os) (\<lambda>e. py_return ()) w2 = Some (Inr (), w3)"
    "events w3 = events w2 @ (if has_bus w then [E_bus_shutdown] else [])"
    using bus w2(4) by (cases r) (auto simp: stop_bus_def os_call_def log_event_def py_simps)
  have "stop os w = Some (Inr (), w3)"
    using w1(1) w2(1) w3(1) by (simp add: stop_def log_event_def py_effect_def py_bind_def py_return_def)
  moreover have "sock_events (as @ bs)" using w1(3) w2(3) unfolding sock_events_def by blast
  ultimately show ?thesis using w1(2) w2(2) w3(2) by (intro exI [of _ w3] exI [of _ "as @ bs"]) simp
qed

subsection \<open>Property\<close>

text \<open>How \<open>main\<close> ends, given how \<open>start\<close> ended: Ctrl-C is noted and is not an error.\<close>

definition main_result :: "exn + unit \<Rightarrow> bridge_event list \<Rightarrow> exn + unit \<Rightarrow> bool" where
  "main_result rs printed r \<longleftrightarrow>
     (case rs of
        Inr _ \<Rightarrow> printed = [] \<and> r = Inr ()
      | Inl e \<Rightarrow> if exn_kind e = KeyboardInterrupt then printed = [E_interrupted] \<and> r = Inr ()
                 else printed = [] \<and> r = Inl e)"

lemma noting_interrupt_run:
  assumes "m w = Some (rs, w1)"
  shows "\<exists>r w2 printed. noting_interrupt m w = Some (r, w2) \<and> main_result rs printed r \<and>
     events w2 = events w1 @ printed \<and> has_bus w2 = has_bus w1"
proof (cases "\<exists>e. rs = Inl e \<and> exn_kind e = KeyboardInterrupt")
  case True
  then show ?thesis using assms by (auto simp: noting_interrupt_def main_result_def log_event_def py_effect_def)
next
  case False
  then have "noting_interrupt m w = Some (rs, w1)" "main_result rs [] rs"
    using assms by (auto simp: noting_interrupt_def main_result_def split: sum.split)
  then show ?thesis by (intro exI [of _ rs] exI [of _ w1] exI [of _ "[]"]) simp
qed


lemma finally_returns:
  assumes "m w \<noteq> None" "\<And>v. c v \<noteq> None"
  shows "py_finally m c w \<noteq> None"
proof -
  obtain r v where m: "m w = Some (r, v)" using assms(1) by fastforce
  obtain q v' where "c v = Some (q, v')" using assms(2) [of v] by fastforce
  then show ?thesis using m by (cases q) (simp_all add: py_finally_def)
qed

text \<open>A system for examples: nothing fails, a peer is connected, and the loop is interrupted.\<close>

definition demo_os :: "unit bridge_os" where
  "demo_os = \<lparr>os_root = False, os_exec = (\<lambda>c d. (Inr (), d)), os_open_bus = (\<lambda>a d. (Inr (), d)),
     os_start_thread = (\<lambda>d. (Inr (), d)),
     os_ticks = (\<lambda>d. ([\<lparr>tx_stopped = False, tx_recv = Inl (Exn KeyboardInterrupt []), tx_sock = None, tx_sendall = Inr ()\<rparr>], d)),
     os_sock = (\<lambda>d. (Some 3, d)), os_sock_shutdown = (\<lambda>s d. (Inl (Exn OSError ''not connected''), d)),
     os_sock_close = (\<lambda>s d. (Inr (), d)), os_bus_shutdown = (\<lambda>d. (Inr (), d))\<rparr>"


end
