(* ===== verification/Command_Lines.thy ===== *)
theory Command_Lines
  imports Arg_Parser Firmware_Update Bridge_Main
begin

text \<open>
  The command lines of \<open>co-firmware-update.py\<close> (\<open>parse_args\<close>) and of \<open>can_tcp_bridge.py\<close> (the first
  lines of \<open>main\<close>): their options, the parsed arguments, and the two programs as they are called
  with a list of strings.  \<open>co.py\<close> reads \<open>sys.argv[1]\<close> itself (\<open>co_main\<close>).
\<close>

subsection \<open>The parsers\<close>

definition node_id_option :: option_spec where
  "node_id_option =
     \<lparr>opt_strings = [''--node-id''], opt_dest = ''node_id'', opt_action = Store_int, opt_required = True\<rparr>"

definition bin_option :: option_spec where
  "bin_option = \<lparr>opt_strings = [''--bin''], opt_dest = ''bin_path'', opt_action = Store, opt_required = True\<rparr>"

definition interface_option :: option_spec where
  "interface_option =
     \<lparr>opt_strings = [''--interface''], opt_dest = ''interface'', opt_action = Store, opt_required = False\<rparr>"

definition baudrate_option :: option_spec where
  "baudrate_option =
     \<lparr>opt_strings = [''--baudrate''], opt_dest = ''baudrate'', opt_action = Store_int, opt_required = False\<rparr>"

definition yes_option :: option_spec where
  "yes_option = \<lparr>opt_strings = [''--yes''], opt_dest = ''yes'', opt_action = Store_true, opt_required = False\<rparr>"

definition fw_parser :: "option_spec list" where
  "fw_parser = [help_option, node_id_option, bin_option, interface_option, baudrate_option, yes_option]"

definition config_option :: option_spec where
  "config_option =
     \<lparr>opt_strings = [''-c'', ''--config''], opt_dest = ''config'', opt_action = Store, opt_required = True\<rparr>"

definition verbose_option :: option_spec where
  "verbose_option =
     \<lparr>opt_strings = [''-v'', ''--verbose''], opt_dest = ''verbose'', opt_action = Count, opt_required = False\<rparr>"

definition bridge_parser :: "option_spec list" where
  "bridge_parser = [help_option, config_option, verbose_option]"

lemmas option_defs = help_option_def node_id_option_def bin_option_def interface_option_def baudrate_option_def
  yes_option_def config_option_def verbose_option_def

text \<open>Attributes of the parsed arguments.\<close>

definition str_attr :: "(string, arg_value) dict \<Rightarrow> string \<Rightarrow> string option" where
  "str_attr ns d = (case dict_get ns d of Some (V_str s) \<Rightarrow> Some s | _ \<Rightarrow> None)"

definition int_attr :: "(string, arg_value) dict \<Rightarrow> string \<Rightarrow> int option" where
  "int_attr ns d = (case dict_get ns d of Some (V_int i) \<Rightarrow> Some i | _ \<Rightarrow> None)"

definition parse_fw_args :: "string list \<Rightarrow> exn + fw_args" where
  "parse_fw_args argv =
     map_sum id (\<lambda>ns. \<lparr>arg_node_id = the (int_attr ns ''node_id''), arg_bin_path = the (str_attr ns ''bin_path''),
       arg_interface = str_attr ns ''interface'', arg_baudrate = int_attr ns ''baudrate'',
       arg_yes = (dict_get ns ''yes'' = Some (V_bool True))\<rparr>) (parse_args fw_parser argv)"

definition parse_bridge_args :: "string list \<Rightarrow> exn + string \<times> int" where
  "parse_bridge_args argv =
     map_sum id (\<lambda>ns. (the (str_attr ns ''config''), the (int_attr ns ''verbose''))) (parse_args bridge_parser argv)"

subsection \<open>The programs\<close>

text \<open>
  First the libraries: the update script needs python-canopen, and without PyYAML it goes on
  (\<open>have_yaml\<close>); the bridge needs python-can.
\<close>

definition import_canopen :: "bool \<Rightarrow> (('d, 'z) world_scheme, unit) py" where
  "import_canopen have =
     (if have then py_return ()
      else fail_with ''Error: python-canopen is not installed. Run: pip install canopen'')"

definition import_can :: "bool \<Rightarrow> ('d bridge_world, unit) py" where
  "import_can have =
     (if have then py_return ()
      else py_bind (log_event E_missing_can) (\<lambda>_. py_raise (Exn ImportError ''No module named can'')))"

definition fw_program ::
    "bool \<Rightarrow> 'd can_api \<Rightarrow> files \<Rightarrow> bool \<Rightarrow> (string \<Rightarrow> exn + yaml) \<Rightarrow> string list \<Rightarrow> (('d, 'z) world_scheme, unit) py" where
  "fw_program have_canopen api fs have_yaml parsed argv =
     py_bind (import_canopen have_canopen) (\<lambda>_.
       py_bind (py_lift (parse_fw_args argv)) (fw_main api fs have_yaml parsed))"

definition bridge_program ::
    "bool \<Rightarrow> 'd bridge_os \<Rightarrow> (string \<Rightarrow> exn + yaml) \<Rightarrow> string list \<Rightarrow> ('d bridge_world, unit) py" where
  "bridge_program have_can os parse argv =
     py_bind (import_can have_can) (\<lambda>_. bridge_main os (parse_bridge_args argv) parse)"

subsection \<open>Values that are required are there\<close>

lemma fw_exact:
  "exact fw_parser ''--node-id'' = Some node_id_option" "exact fw_parser ''--bin'' = Some bin_option"
  "exact fw_parser ''--interface'' = Some interface_option" "exact fw_parser ''--baudrate'' = Some baudrate_option"
  "exact fw_parser ''--yes'' = Some yes_option" "exact fw_parser [CHR ''-'', c] \<noteq> Some yes_option"
  by (simp_all add: exact_def fw_parser_def option_defs)

lemma fw_no_equals: "\<forall>opt\<in>set fw_parser. \<forall>s\<in>set (opt_strings opt). CHR ''='' \<notin> set s"
  by (simp add: fw_parser_def option_defs)

subsection \<open>Written and read back\<close>

text \<open>The command line of given arguments, with every value after \<open>=\<close>.\<close>

definition fw_command_line :: "fw_args \<Rightarrow> string list" where
  "fw_command_line a =
     [''--node-id='' @ int_str (arg_node_id a), ''--bin='' @ arg_bin_path a] @
     (case arg_interface a of None \<Rightarrow> [] | Some i \<Rightarrow> [''--interface='' @ i]) @
     (case arg_baudrate a of None \<Rightarrow> [] | Some b \<Rightarrow> [''--baudrate='' @ int_str b]) @
     (if arg_yes a then [''--yes''] else [])"

definition fw_acts :: "fw_args \<Rightarrow> (option_spec \<times> string) list" where
  "fw_acts a =
     [(node_id_option, int_str (arg_node_id a)), (bin_option, arg_bin_path a)] @
     (case arg_interface a of None \<Rightarrow> [] | Some i \<Rightarrow> [(interface_option, i)]) @
     (case arg_baudrate a of None \<Rightarrow> [] | Some b \<Rightarrow> [(baudrate_option, int_str b)]) @
     (if arg_yes a then [(yes_option, [])] else [])"

lemma fw_alone:
  "alone fw_parser (''--node-id='' @ v) (node_id_option, v)" "alone fw_parser (''--bin='' @ v) (bin_option, v)"
  "alone fw_parser (''--interface='' @ v) (interface_option, v)" "alone fw_parser (''--baudrate='' @ v) (baudrate_option, v)"
  "alone fw_parser ''--yes'' (yes_option, [])"
proof -
  have single: "alone fw_parser (n @ CHR ''='' # v) (opt, v)"
    if "exact fw_parser n = Some opt" "takes_value opt" "hd n = CHR ''-''" "n \<noteq> []" for n opt v
    using classify_value [OF that(1,3,4) fw_no_equals, of v] that(2)
    by (auto simp: alone_def dest!: arg_cong [where f = set])
  show "alone fw_parser (''--node-id='' @ v) (node_id_option, v)" "alone fw_parser (''--bin='' @ v) (bin_option, v)"
    "alone fw_parser (''--interface='' @ v) (interface_option, v)" "alone fw_parser (''--baudrate='' @ v) (baudrate_option, v)"
    using single [OF fw_exact(1), of v] single [OF fw_exact(2), of v] single [OF fw_exact(3), of v] single [OF fw_exact(4), of v]
    by (simp_all add: takes_value_def option_defs)
  show "alone fw_parser ''--yes'' (yes_option, [])"
    using classify_exact [OF fw_exact(5)] by (auto simp: alone_def takes_value_def yes_option_def intro: exI [of _ False])
qed

lemma fw_acts_facts:
  "list_all2 (alone fw_parser) (fw_command_line a) (fw_acts a)" "distinct (map dest_of (fw_acts a))"
  "\<forall>act\<in>set (fw_acts a). value_of act \<noteq> None"
proof -
  show "list_all2 (alone fw_parser) (fw_command_line a) (fw_acts a)"
    unfolding fw_command_line_def fw_acts_def
    by (intro list_all2_appendI) (auto simp: fw_alone [simplified] split: option.split)
  show "distinct (map dest_of (fw_acts a))" "\<forall>act\<in>set (fw_acts a). value_of act \<noteq> None"
    by (cases "arg_interface a"; cases "arg_baudrate a"; auto simp: fw_acts_def option_defs value_of_def int_of_int_str)+
qed

lemma fw_acts_optional:
  "arg_interface a = Some i \<Longrightarrow> (interface_option, i) \<in> set (fw_acts a)"
  "arg_baudrate a = Some b \<Longrightarrow> (baudrate_option, int_str b) \<in> set (fw_acts a)"
  "arg_yes a \<Longrightarrow> (yes_option, []) \<in> set (fw_acts a)"
  by (simp_all add: fw_acts_def)

lemma fw_dests:
  "dest_of ` set (fw_acts a) = {''node_id'', ''bin_path''} \<union> (if arg_interface a = None then {} else {''interface''}) \<union>
     (if arg_baudrate a = None then {} else {''baudrate''}) \<union> (if arg_yes a then {''yes''} else {})"
  unfolding fw_acts_def set_append image_Un
  by (cases "arg_interface a"; cases "arg_baudrate a"; simp add: option_defs)

lemma fw_defaults:
  "dict_get (vals (initial fw_parser)) ''interface'' = Some V_none"
  "dict_get (vals (initial fw_parser)) ''baudrate'' = Some V_none"
  "dict_get (vals (initial fw_parser)) ''yes'' = Some (V_bool False)"
  by (simp_all add: initial_def fw_parser_def option_defs default_value_def)

lemma fw_args_read_back:
  assumes "mset argv = mset (fw_command_line a)"
  shows "parse_fw_args argv = Inr a"
proof -
  obtain acts where acts: "list_all2 (alone fw_parser) argv acts" "mset acts = mset (fw_acts a)"
    using list_all2_reorder_left_invariance [OF fw_acts_facts(1) assms] by blast
  have same: "set acts = set (fw_acts a)" using acts(2) by (rule mset_eq_setD)
  have "mset (map dest_of acts) = mset (map dest_of (fw_acts a))" using acts(2) by simp
  then have dist: "distinct (map dest_of acts)" using fw_acts_facts(2) mset_eq_imp_distinct_iff by blast
  have vals: "\<forall>act\<in>set acts. value_of act \<noteq> None" unfolding same by (rule fw_acts_facts(3))
  have req: "\<forall>opt\<in>set fw_parser. opt_required opt \<longrightarrow> opt_dest opt \<in> dest_of ` set acts"
    unfolding same by (simp add: fw_parser_def fw_acts_def option_defs)
  obtain ns where ns: "parse_args fw_parser argv = Inr ns"
    "\<forall>act\<in>set (fw_acts a). dict_get ns (dest_of act) = value_of act"
    "\<forall>d. d \<notin> dest_of ` set (fw_acts a) \<longrightarrow> dict_get ns d = dict_get (vals (initial fw_parser)) d"
    using parse_alone [OF acts(1) dist vals req] unfolding same by blast
  have at: "act \<in> set (fw_acts a) \<Longrightarrow> dict_get ns (dest_of act) = value_of act" for act using ns(2) by blast
  have "dict_get ns ''node_id'' = Some (V_int (arg_node_id a))" "dict_get ns ''bin_path'' = Some (V_str (arg_bin_path a))"
    using at [of "(node_id_option, int_str (arg_node_id a))"] at [of "(bin_option, arg_bin_path a)"]
    by (simp_all add: fw_acts_def option_defs value_of_def int_of_int_str)
  moreover have "dict_get ns ''interface'' = Some (case arg_interface a of None \<Rightarrow> V_none | Some i \<Rightarrow> V_str i)"
  proof (cases "arg_interface a")
    case None
    then show ?thesis using ns(3) [rule_format, of "''interface''"] by (simp add: fw_dests fw_defaults)
  next
    case (Some i)
    show ?thesis using at [OF fw_acts_optional(1) [OF Some]] Some
      by (simp add: option_defs value_of_def int_of_int_str)
  qed
  moreover have "dict_get ns ''baudrate'' = Some (case arg_baudrate a of None \<Rightarrow> V_none | Some b \<Rightarrow> V_int b)"
  proof (cases "arg_baudrate a")
    case None
    then show ?thesis using ns(3) [rule_format, of "''baudrate''"] by (simp add: fw_dests fw_defaults)
  next
    case (Some b)
    show ?thesis using at [OF fw_acts_optional(2) [OF Some]] Some
      by (simp add: option_defs value_of_def int_of_int_str)
  qed
  moreover have "dict_get ns ''yes'' = Some (V_bool (arg_yes a))"
  proof (cases "arg_yes a")
    case False
    then show ?thesis using ns(3) [rule_format, of "''yes''"] by (simp add: fw_dests fw_defaults)
  next
    case True
    show ?thesis using at [OF fw_acts_optional(3) [OF True]] True
      by (simp add: option_defs value_of_def int_of_int_str)
  qed
  ultimately show ?thesis
    by (cases a) (auto simp: parse_fw_args_def ns(1) int_attr_def str_attr_def split: option.splits)
qed

text \<open>(C39) The command line of the update means what it says.  Any given arguments, written as options in
  any order, are parsed back to the same arguments.\<close>

theorem fw_args_roundtrip: "mset argv = mset (fw_command_line a) \<Longrightarrow> parse_fw_args argv = Inr a"
  by (rule fw_args_read_back)

theorem fw_args_roundtrip_witness:
  "parse_fw_args [''--yes'', ''--bin=--'', ''--baudrate=125000'', ''--node-id=5''] =
     Inr \<lparr>arg_node_id = 5, arg_bin_path = ''--'', arg_interface = None, arg_baudrate = Some 125000, arg_yes = True\<rparr>"
proof -
  have "int_str 5 = ''5''" "int_str 125000 = ''125000''"
    by (simp_all add: int_str_def nat_str_def digits_base_eval char_of_def bit_0)
  then show ?thesis by (intro fw_args_roundtrip) (simp add: fw_command_line_def)
qed

subsection \<open>Consent on the command line\<close>

definition yes_forms :: "string set" where
  "yes_forms = {''--y'', ''--ye'', ''--yes''}"

lemma yes_written:
  assumes "parse_fw_args argv = Inr args" "arg_yes args"
  shows "set argv \<inter> yes_forms \<noteq> {}"
proof -
  obtain ns where ns: "parse_args fw_parser argv = Inr ns" "dict_get ns ''yes'' = Some (V_bool True)"
    using assms by (auto simp: parse_fw_args_def map_sum_Inr)
  then have "dict_get ns ''yes'' \<noteq> dict_get (vals (initial fw_parser)) ''yes''"
    by (simp add: initial_def fw_parser_def option_defs default_value_def)
  then obtain s opt n sep e rest acts r ex a where s: "s \<in> set argv" "s \<noteq> ''--''"
    "classify fw_parser s = Inr (Optn opt n sep e)" "match_option fw_parser opt n sep e rest = Inr (acts, r, ex)"
    "a \<in> fst ` set acts" "opt_dest a = ''yes''"
    using parse_source [OF ns(1)] by metis
  note opt = classify_option [OF s(3)]
  have dests: "x = yes_option" if "x \<in> set fw_parser" "opt_dest x = ''yes''" for x
    using that by (auto simp: fw_parser_def option_defs)
  have "a = opt \<or> (\<exists>c. exact fw_parser [CHR ''-'', c] = Some a)" by (rule match_option_parts(2) [OF s(4,5)])
  then have "opt = yes_option"
    using dests exact_Some fw_exact(6) opt s(6) by metis
  then have n: "n = ''--yes''" and noval: "\<not> takes_value opt"
    using opt by (auto simp: yes_option_def takes_value_def)
  then have "e = None" using match_option_parts(3) [OF s(4)] by (cases e) auto
  then have pre: "prefix s ''--yes''" using opt n by simp
  have dash: "s \<noteq> [] \<and> hd s = CHR ''-'' \<and> (tl s = [] \<longrightarrow> exact fw_parser s \<noteq> None)"
    using s(3) by (auto simp: classify_def split: if_splits option.splits)
  have "s = [] \<or> s = ''-'' \<or> s = ''--'' \<or> s = ''--y'' \<or> s = ''--ye'' \<or> s = ''--yes''"
    using pre by (auto simp: prefix_Cons)
  then have "s \<in> yes_forms" using s(2) dash by (auto simp: yes_forms_def exact_def fw_parser_def option_defs)
  then show ?thesis using s(1) by blast
qed

text \<open>(C5) Nothing is sent without a file and the user's consent, from the command line on: if the program
  sends any command, python-canopen is there, its command line was accepted, the file it names exists, and either \<open>--yes\<close>
  or an abbreviation of it is on the command line or the first line typed is a y.\<close>

theorem program_needs_consent:
  assumes "fw_program hc api fs hy parsed argv w = Some (r, w')" "cmds w' \<noteq> cmds w"
  shows "hc \<and> (\<exists>args. parse_fw_args argv = Inr args \<and> f_isfile fs (f_abspath fs (arg_bin_path args)) \<and>
     (set argv \<inter> yes_forms \<noteq> {} \<or>
      (\<exists>l rest. inp w = Line l # rest \<and> lower (strip l) = ''y'')))"
proof (cases "hc \<and> (\<exists>args. parse_fw_args argv = Inr args)")
  case False
  then have False using assms
    by (cases hc; cases "parse_fw_args argv")
      (auto simp: fw_program_def import_canopen_def fail_with_def say_run py_simps)
  then show ?thesis ..
next
  case True
  then obtain args where Inr: "parse_fw_args argv = Inr args" and hc by blast
  then have "fw_main api fs hy parsed args w = Some (r, w')"
    using assms(1) by (simp add: fw_program_def import_canopen_def)
  then have "f_isfile fs (f_abspath fs (arg_bin_path args)) \<and>
     (arg_yes args \<or> (\<exists>l rest. inp w = Line l # rest \<and> lower (strip l) = ''y''))"
    by (rule fw_main_consent [OF _ assms(2)])
  then show ?thesis using Inr \<open>hc\<close> yes_written [OF Inr] by blast
qed

theorem program_needs_consent_witness:
  "\<exists>w'. fw_program True prompt_node (one_file ''f'' [7]) True (\<lambda>_. Inr (YDict []))
       (fw_command_line (demo_args\<lparr>arg_baudrate := Some 125000\<rparr>)) (fresh_world 0 [Line '' Y'']) = Some (Inr (), w') \<and>
     cmds w' \<noteq> [] \<and> (\<exists>l rest. [Line '' Y''] = Line l # rest \<and> lower (strip l) = ''y'')"
proof -
  let ?a = "demo_args\<lparr>arg_baudrate := Some 125000\<rparr>"
  let ?w = "fresh_world (0 :: rat) [Line '' Y'']"
  have argv: "parse_fw_args (fw_command_line ?a) = Inr ?a" by (rule fw_args_read_back) (rule HOL.refl)
  obtain w' where w': "fw_main prompt_node (one_file ''f'' [7]) True (\<lambda>_. Inr (YDict [])) ?a ?w = Some (Inr (), w')"
    "cmds w' = [C_add_node 5, C_connect (YStr ''can0'') (YInt 125000)] @ flash_log 0 1 [7] @ [C_disconnect]"
    using demo_main_run [where parsed = "\<lambda>_. Inr (YDict [])"] by blast
  have run: "fw_program True prompt_node (one_file ''f'' [7]) True (\<lambda>_. Inr (YDict [])) (fw_command_line ?a) ?w = Some (Inr (), w')"
    using w'(1) by (simp add: fw_program_def argv import_canopen_def)
  have "cmds w' \<noteq> cmds ?w" using w'(2) by (simp add: fresh_world_def)
  from program_needs_consent [OF run this]
  have "set (fw_command_line ?a) \<inter> yes_forms \<noteq> {} \<or> (\<exists>l rest. inp ?w = Line l # rest \<and> lower (strip l) = ''y'')" by blast
  moreover have "set (fw_command_line ?a) \<inter> yes_forms = {}"
    by (simp add: fw_command_line_def demo_args_def yes_forms_def)
  ultimately show ?thesis using run w'(2) by (auto simp: fresh_world_def)
qed

subsection \<open>The bridge\<close>

lemma bridge_exact:
  "exact bridge_parser ''--config'' = Some config_option" "exact bridge_parser ''-v'' = Some verbose_option"
  by (simp_all add: exact_def bridge_parser_def option_defs)

text \<open>\<open>-v\<close>, \<open>-vv\<close> and so on.\<close>

definition verbosity_flag :: "nat \<Rightarrow> string" where
  "verbosity_flag k = CHR ''-'' # replicate (Suc k) CHR ''v''"

lemma classify_verbosity:
  "classify bridge_parser (verbosity_flag k) =
     Inr (Optn verbose_option ''-v'' False (if k = 0 then None else Some (replicate k CHR ''v'')))"
proof (cases k)
  case 0
  then show ?thesis by (simp add: verbosity_flag_def classify_def bridge_exact)
next
  case (Suc j)
  have "exact bridge_parser (verbosity_flag k) = None"
    by (simp add: exact_def bridge_parser_def option_defs verbosity_flag_def Suc)
  moreover have "split_eq (verbosity_flag k) = None" by (simp add: split_eq_def verbosity_flag_def)
  moreover have "candidates bridge_parser (verbosity_flag k) =
      [Optn verbose_option ''-v'' False (Some (replicate k CHR ''v''))]"
    using calculation(2) by (simp add: candidates_def bridge_parser_def option_defs verbosity_flag_def Suc prefix_Cons)
  ultimately show ?thesis by (simp add: classify_def verbosity_flag_def Suc)
qed

lemma match_verbosity:
  "match_joined bridge_parser verbose_option ''-v'' False (replicate (Suc k) CHR ''v'') rest =
     Inr (replicate (Suc (Suc k)) (verbose_option, []), rest, [])"
proof (induction k)
  case 0
  show ?case
    by (simp add: match_joined.simps(2) bridge_exact match_next_def) (simp add: takes_value_def verbose_option_def)
next
  case (Suc k)
  have no: "\<not> takes_value verbose_option" by (simp add: takes_value_def verbose_option_def)
  show ?case
    using Suc.IH by (subst replicate_Suc, subst match_joined.simps(2)) (simp add: bridge_exact no)
qed

lemma match_verbosity_flag:
  "match_option bridge_parser verbose_option ''-v'' False (if k = 0 then None else Some (replicate k CHR ''v'')) rest =
     Inr (replicate (Suc k) (verbose_option, []), rest, [])"
proof (cases k)
  case 0
  then show ?thesis by (simp add: match_option_def match_next_def takes_value_def verbose_option_def)
next
  case (Suc j)
  then show ?thesis using match_verbosity [of j rest] by (simp add: match_option_def)
qed

lemma count_verbosity:
  "dict_get (vals st) ''verbose'' = Some (V_int i) \<Longrightarrow>
     \<exists>st'. take_actions (replicate k (verbose_option, [])) st = Inr st' \<and>
       dict_get (vals st') ''verbose'' = Some (V_int (i + int k)) \<and>
       (\<forall>d. d \<noteq> ''verbose'' \<longrightarrow> dict_get (vals st') d = dict_get (vals st) d) \<and>
       extras st' = extras st \<and> set (seen st) \<subseteq> set (seen st') \<and> set (seen st') \<subseteq> insert ''verbose'' (set (seen st))"
proof (induction k arbitrary: st i)
  case (Suc k)
  let ?st = "st\<lparr>vals := dict_put ''verbose'' (V_int (i + 1)) (vals st), seen := seen st @ [''verbose'']\<rparr>"
  have "take_action verbose_option [] st = Inr ?st"
    using Suc.prems by (simp add: take_action_def verbose_option_def)
  moreover obtain st' where "take_actions (replicate k (verbose_option, [])) ?st = Inr st'"
    "dict_get (vals st') ''verbose'' = Some (V_int (i + 1 + int k))"
    "\<forall>d. d \<noteq> ''verbose'' \<longrightarrow> dict_get (vals st') d = dict_get (vals ?st) d"
    "extras st' = extras ?st" "set (seen ?st) \<subseteq> set (seen st')" "set (seen st') \<subseteq> insert ''verbose'' (set (seen ?st))"
    using Suc.IH [of ?st "i + 1"] by (auto simp: dict_get_put)
  ultimately show ?case by (intro exI [of _ st']) (auto simp: dict_get_put algebra_simps)
qed auto

text \<open>A run of flags adds its letters to the count, and the rest is parsed from there.\<close>

definition verbosity_tokens :: "nat list \<Rightarrow> (string \<times> token) list" where
  "verbosity_tokens ks =
     map (\<lambda>k. (verbosity_flag k,
       Optn verbose_option ''-v'' False (if k = 0 then None else Some (replicate k CHR ''v'')))) ks"

lemma consume_verbosity:
  assumes "dict_get (vals st) ''verbose'' = Some (V_int i)"
  shows "\<exists>st'. (\<forall>ts. consume bridge_parser (verbosity_tokens ks @ ts) st = consume bridge_parser ts st') \<and>
     dict_get (vals st') ''verbose'' = Some (V_int (i + int (sum_list (map Suc ks)))) \<and>
     (\<forall>d. d \<noteq> ''verbose'' \<longrightarrow> dict_get (vals st') d = dict_get (vals st) d) \<and>
     extras st' = extras st \<and> set (seen st) \<subseteq> set (seen st') \<and> set (seen st') \<subseteq> insert ''verbose'' (set (seen st))"
  using assms
proof (induction ks arbitrary: st i)
  case Nil
  then show ?case by (intro exI [of _ st]) (auto simp: verbosity_tokens_def)
next
  case (Cons k ks)
  obtain st1 where st1: "take_actions (replicate (Suc k) (verbose_option, [])) st = Inr st1"
    "dict_get (vals st1) ''verbose'' = Some (V_int (i + int (Suc k)))"
    "\<forall>d. d \<noteq> ''verbose'' \<longrightarrow> dict_get (vals st1) d = dict_get (vals st) d"
    "extras st1 = extras st" "set (seen st) \<subseteq> set (seen st1)" "set (seen st1) \<subseteq> insert ''verbose'' (set (seen st))"
    using count_verbosity [OF Cons.prems, of "Suc k"] by blast
  obtain st' where st': "\<forall>ts. consume bridge_parser (verbosity_tokens ks @ ts) st1 = consume bridge_parser ts st'"
    "dict_get (vals st') ''verbose'' = Some (V_int (i + int (Suc k) + int (sum_list (map Suc ks))))"
    "\<forall>d. d \<noteq> ''verbose'' \<longrightarrow> dict_get (vals st') d = dict_get (vals st1) d"
    "extras st' = extras st1" "set (seen st1) \<subseteq> set (seen st')" "set (seen st') \<subseteq> insert ''verbose'' (set (seen st1))"
    using Cons.IH [OF st1(2)] by blast
  have "consume bridge_parser (verbosity_tokens (k # ks) @ ts) st = consume bridge_parser ts st'" for ts
    using st'(1) st1(1) by (simp add: verbosity_tokens_def match_verbosity_flag del: replicate_Suc)
  moreover have "dict_get (vals st') ''verbose'' = Some (V_int (i + int (sum_list (map Suc (k # ks)))))"
    using st'(2) by (simp add: algebra_simps)
  ultimately show ?case using st'(3-6) st1(3-6) by (intro exI [of _ st']) auto
qed

lemma classify_all_verbosity:
  "classify_all bridge_parser (map verbosity_flag ks @ argv) =
     map_sum id (\<lambda>ts. verbosity_tokens ks @ ts) (classify_all bridge_parser argv)"
proof (induction ks)
  case Nil
  then show ?case by (cases "classify_all bridge_parser argv") (simp_all add: verbosity_tokens_def)
next
  case (Cons k ks)
  have "verbosity_flag k \<noteq> ''--''" by (simp add: verbosity_flag_def)
  then show ?case
    using Cons.IH by (cases "classify_all bridge_parser argv") (simp_all add: verbosity_tokens_def classify_verbosity)
qed

lemma bridge_initial:
  "dict_get (vals (initial bridge_parser)) ''verbose'' = Some (V_int 0)" "extras (initial bridge_parser) = []"
  "seen (initial bridge_parser) = []"
  by (simp_all add: initial_def bridge_parser_def option_defs default_value_def)

lemma classify_config:
  "classify bridge_parser (''--config='' @ path) = Inr (Optn config_option ''--config'' True (Some path))"
  using classify_value [OF bridge_exact(1), of path] by (simp add: bridge_parser_def option_defs)

lemma bridge_args_read_back:
  "parse_bridge_args (map verbosity_flag ks @ [''--config='' @ path] @ map verbosity_flag ms) =
     Inr (path, int (sum_list (map Suc (ks @ ms))))"
  "parse_bridge_args (map verbosity_flag ks) = Inl (parser_exit 2)"
proof -
  obtain st1 where st1: "\<forall>ts. consume bridge_parser (verbosity_tokens ks @ ts) (initial bridge_parser) = consume bridge_parser ts st1"
    "dict_get (vals st1) ''verbose'' = Some (V_int (int (sum_list (map Suc ks))))" "extras st1 = []"
    "set (seen st1) \<subseteq> {''verbose''}"
    using consume_verbosity [OF bridge_initial(1), of ks] bridge_initial by auto
  let ?st = "st1\<lparr>vals := dict_put ''config'' (V_str path) (vals st1), seen := seen st1 @ [''config'']\<rparr>"
  have "dict_get (vals ?st) ''verbose'' = Some (V_int (int (sum_list (map Suc ks))))" using st1(2) by (simp add: dict_get_put)
  from consume_verbosity [OF this, of ms] obtain st2 where
    st2: "\<forall>ts. consume bridge_parser (verbosity_tokens ms @ ts) ?st = consume bridge_parser ts st2"
    "dict_get (vals st2) ''verbose'' = Some (V_int (int (sum_list (map Suc ks)) + int (sum_list (map Suc ms))))"
    and other: "\<forall>d. d \<noteq> ''verbose'' \<longrightarrow> dict_get (vals st2) d = dict_get (vals ?st) d" "extras st2 = extras ?st"
    "set (seen ?st) \<subseteq> set (seen st2)" by blast
  have st2': "dict_get (vals st2) ''config'' = Some (V_str path)" "extras st2 = []" "''config'' \<in> set (seen st2)"
    using other st1(3) by (simp_all add: dict_get_put)
  have config: "match_option bridge_parser config_option ''--config'' True (Some path) ts = Inr ([(config_option, path)], ts, [])"
    "take_action config_option path st1 = Inr ?st" for ts
    by (simp_all add: match_option_def match_joined_value takes_value_def config_option_def take_action_def)
  have keep: "st1\<lparr>extras := []\<rparr> = st1" using st1(3) by (cases st1) simp
  have "classify_all bridge_parser (map verbosity_flag ks @ [''--config='' @ path] @ map verbosity_flag ms) =
      Inr (verbosity_tokens ks @ (''--config='' @ path, Optn config_option ''--config'' True (Some path)) # verbosity_tokens ms)"
    using classify_config [of path] classify_all_verbosity [of ms "[]"] by (simp add: classify_all_verbosity)
  moreover have "consume bridge_parser
      (verbosity_tokens ks @ (''--config='' @ path, Optn config_option ''--config'' True (Some path)) # verbosity_tokens ms)
      (initial bridge_parser) = Inr st2"
    using st1(1,3) st2(1) [rule_format, of "[]"] by (simp add: config keep)
  ultimately have "parse_args bridge_parser (map verbosity_flag ks @ [''--config='' @ path] @ map verbosity_flag ms) = Inr (vals st2)"
    using st2'(2,3) by (simp add: parse_args_def bridge_parser_def option_defs)
  then show "parse_bridge_args (map verbosity_flag ks @ [''--config='' @ path] @ map verbosity_flag ms) =
     Inr (path, int (sum_list (map Suc (ks @ ms))))"
    using st2(2) st2'(1) by (simp add: parse_bridge_args_def str_attr_def int_attr_def)
  have "parse_args bridge_parser (map verbosity_flag ks) = Inl (parser_exit 2)"
    using st1(1) [rule_format, of "[]"] st1(4) classify_all_verbosity [of ks "[]"]
    by (auto simp: parse_args_def bridge_parser_def option_defs)
  then show "parse_bridge_args (map verbosity_flag ks) = Inl (parser_exit 2)"
    by (simp add: parse_bridge_args_def)
qed

text \<open>(C40) The command line of the bridge.  With the configuration given after \<open>=\<close> and any number of
  verbosity flags of any length before and after it, the bridge reads the file that was named and
  logs at the level of all the letters together.  Without a configuration it ends with status 2, and
  without python-can with an error, before anything has been done.\<close>

theorem bridge_command_line:
  "bridge_program True os parse (map verbosity_flag ks @ [''--config='' @ path] @ map verbosity_flag ms) w =
     bridge_main os (Inr (path, int (sum_list (map Suc (ks @ ms))))) parse w \<and>
   bridge_program True os parse (map verbosity_flag ks) w = Some (Inl (parser_exit 2), w) \<and>
   bridge_program False os parse argv w =
     Some (Inl (Exn ImportError ''No module named can''), w\<lparr>events := events w @ [E_missing_can]\<rparr>)"
  unfolding bridge_program_def bridge_args_read_back
  by (simp add: import_can_def bridge_main_def log_event_def py_simps)

end
