(* ===== verification/Co_Console.thy ===== *)
theory Co_Console
  imports Tool_World
begin

text \<open>
  The dialogues of \<open>co.py\<close>: the selection by number, which several of its functions repeat, the
  list of EDS files and the choice of one, and the reading of a list of values.  A selection loop
  goes on until it gets a number in range, and it swallows every \<open>Exception\<close>, the end of the input
  included, so it is a \<open>partial_function (option)\<close>.
\<close>

subsection \<open>Selection by number\<close>

text \<open>One attempt: the number when it is in range, \<open>None\<close> when it is not or an \<open>Exception\<close> occurred.\<close>

definition try_choice :: "string \<Rightarrow> nat \<Rightarrow> (('d, 'z) world_scheme, nat option) py" where
  "try_choice prompt n =
     py_except
       (py_bind (py_input prompt) (\<lambda>s.
          py_bind (py_lift (py_int s)) (\<lambda>choice.
            py_return (if 1 \<le> choice \<and> choice \<le> int n then Some (nat choice) else None))))
       (\<lambda>e. py_return None)"

partial_function (option) choose_number :: "string \<Rightarrow> nat \<Rightarrow> (('d, 'z) world_scheme, nat) py" where
  "choose_number prompt n w =
     py_bind (try_choice prompt n) (\<lambda>r w1.
       case r of
         Some choice \<Rightarrow> py_return choice w1
       | None \<Rightarrow> py_bind (say ''Invalid selection. Try again.'') (\<lambda>_ w2. choose_number prompt n w2) w1) w"

text \<open>
  What the dialogue does to the lines typed: \<open>None\<close> when they run out, else the answer, or
  \<open>KeyboardInterrupt\<close>, and the lines left.
\<close>

fun first_choice :: "nat \<Rightarrow> input_line list \<Rightarrow> ((exn + nat) \<times> input_line list) option" where
  "first_choice n [] = None"
| "first_choice n (Ctrl_C # ls) = Some (Inl (Exn KeyboardInterrupt []), ls)"
| "first_choice n (Line s # ls) =
     (case int_of_str s of
        Some i \<Rightarrow> if 1 \<le> i \<and> i \<le> int n then Some (Inr (nat i), ls) else first_choice n ls
      | None \<Rightarrow> first_choice n ls)"

subsection \<open>EDS files\<close>

definition load_eds_files :: "files \<Rightarrow> string list \<Rightarrow> (('d, 'z) world_scheme, string list) py" where
  "load_eds_files fs eds_paths =
     py_bind
       (py_for eds_paths (\<lambda>path.
          py_when (\<not> f_isfile fs path) (say (''Warning: EDS file not found: '' @ path))))
       (\<lambda>_. py_return (filter (f_isfile fs) eds_paths))"

text \<open>The numbered lines of a menu.\<close>

definition numbered :: "('a \<Rightarrow> string) \<Rightarrow> 'a list \<Rightarrow> (('d, 'z) world_scheme, unit) py" where
  "numbered text_of xs =
     py_for (List.enumerate 1 xs) (\<lambda>(idx, x). say (nat_str idx @ '') '' @ text_of x))"

definition choose_eds :: "string list \<Rightarrow> (('d, 'z) world_scheme, string) py" where
  "choose_eds eds_files =
     py_bind (say ''Available EDS files:'') (\<lambda>_.
       py_bind (numbered basename eds_files) (\<lambda>_.
         py_bind (choose_number ''Select EDS file by number: '' (length eds_files)) (\<lambda>choice.
           py_return (eds_files ! (choice - 1)))))"

subsection \<open>Lists of values\<close>

text \<open>Values separated by commas, or by white space when there is no comma; empty ones are dropped.\<close>

definition split_values :: "string \<Rightarrow> string list" where
  "split_values arr =
     (if CHR '','' \<in> set arr then filter (\<lambda>v. v \<noteq> []) (map strip (split_on CHR '','' arr))
      else filter (\<lambda>v. v \<noteq> []) (map strip (split_ws arr)))"

subsection \<open>The selection loop\<close>

lemma try_choice_run:
  "try_choice prompt n w =
     (let w1 = w\<lparr>out := out w @ [Prompt [Txt prompt]]\<rparr>
      in case inp w of
           [] \<Rightarrow> Some (Inr None, w1)
         | Ctrl_C # ls \<Rightarrow> Some (Inl (Exn KeyboardInterrupt []), w1\<lparr>inp := ls\<rparr>)
         | Line s # ls \<Rightarrow>
             Some (Inr (case int_of_str s of
                          Some i \<Rightarrow> if 1 \<le> i \<and> i \<le> int n then Some (nat i) else None
                        | None \<Rightarrow> None), w1\<lparr>inp := ls\<rparr>))"
  by (cases "inp w" rule: list.exhaust [case_names Nil Cons])
    (auto simp: try_choice_def py_input_def ask_def py_int_def bad_int_def py_simps Let_def
      split: input_line.split option.split)

text \<open>One turn of the loop, for any continuation \<open>k\<close>.\<close>

definition choice_turn ::
    "((('d, 'z) world_scheme, nat) py) \<Rightarrow> string \<Rightarrow> nat \<Rightarrow> (('d, 'z) world_scheme, nat) py" where
  "choice_turn k prompt n w =
     py_bind (try_choice prompt n) (\<lambda>r w1.
       case r of
         Some choice \<Rightarrow> py_return choice w1
       | None \<Rightarrow> py_bind (say ''Invalid selection. Try again.'') (\<lambda>_ w2. k w2) w1) w"

lemma choice_turn_eof:
  "inp w = [] \<Longrightarrow>
     choice_turn k prompt n w = k (w\<lparr>out := out w @ [Prompt [Txt prompt], Print [Txt ''Invalid selection. Try again.'']]\<rparr>)"
  by (simp add: choice_turn_def try_choice_run py_bind_def say_run)

lemma choose_number_turn: "choose_number prompt n w = choice_turn (choose_number prompt n) prompt n w"
  unfolding choice_turn_def by (rule choose_number.simps)

lemma choose_number_eof: "inp w = [] \<Longrightarrow> choose_number prompt n w = None"
proof (rule ccontr)
  let ?P = "\<lambda>prompt n w y. inp w \<noteq> []"
  assume eof: "inp w = []" and "choose_number prompt n w \<noteq> None"
  then obtain y where y: "choose_number prompt n w = Some y" by blast
  have "?P prompt n w y"
  proof (rule choose_number.raw_induct [where P = ?P, OF _ y], goal_cases)
    case (1 loop prompt n w y)
    from "1"(2) have run: "choice_turn (loop prompt n) prompt n w = Some y" by (simp add: choice_turn_def)
    show ?case
    proof
      assume "inp w = []"
      with run have "loop prompt n (w\<lparr>out := out w @ [Prompt [Txt prompt], Print [Txt ''Invalid selection. Try again.'']]\<rparr>) = Some y"
        by (simp add: choice_turn_eof)
      from "1"(1) [OF this] \<open>inp w = []\<close> show False by simp
    qed
  qed
  with eof show False by simp
qed

lemma inp_out_commute: "w\<lparr>inp := ls, out := x\<rparr> = w\<lparr>out := x, inp := ls\<rparr>"
  by (cases w) simp

lemma choose_number_Cons:
  "inp w = Ctrl_C # ls \<Longrightarrow> choose_number prompt n w =
     Some (Inl (Exn KeyboardInterrupt []), w\<lparr>out := out w @ [Prompt [Txt prompt]], inp := ls\<rparr>)"
  "inp w = Line s # ls \<Longrightarrow> int_of_str s = Some i \<Longrightarrow> 1 \<le> i \<Longrightarrow> i \<le> int n \<Longrightarrow>
     choose_number prompt n w = Some (Inr (nat i), w\<lparr>out := out w @ [Prompt [Txt prompt]], inp := ls\<rparr>)"
  "inp w = Line s # ls \<Longrightarrow> (\<forall>i. int_of_str s = Some i \<longrightarrow> \<not> (1 \<le> i \<and> i \<le> int n)) \<Longrightarrow>
     choose_number prompt n w = choose_number prompt n
       (w\<lparr>out := out w @ [Prompt [Txt prompt], Print [Txt ''Invalid selection. Try again.'']], inp := ls\<rparr>)"
  by (auto simp: choose_number_turn [of prompt n w] choice_turn_def try_choice_run py_bind_def say_run
      py_return_def inp_out_commute split: option.split)

text \<open>The loop against its specification; nothing but the console changes.\<close>

lemma choose_number_spec:
  "case first_choice n (inp w) of
     None \<Rightarrow> choose_number prompt n w = None
   | Some (r, ls) \<Rightarrow> \<exists>o'. choose_number prompt n w = Some (r, w\<lparr>out := out w @ o', inp := ls\<rparr>)"
proof (induction n "inp w" arbitrary: w rule: first_choice.induct)
  case (1 n w)
  then show ?case by (simp add: choose_number_eof flip: "1")
next
  case (2 n ls w)
  then show ?case
    by (auto simp: choose_number_Cons(1) [of w ls] simp flip: "2" intro!: exI [of _ "[Prompt [Txt prompt]]"])
next
  case (3 n s ls w)
  show ?case
  proof (cases "\<exists>i. int_of_str s = Some i \<and> 1 \<le> i \<and> i \<le> int n")
    case True
    then show ?thesis
      by (auto simp: choose_number_Cons(2) [of w s ls] simp flip: "3"(3) intro!: exI [of _ "[Prompt [Txt prompt]]"])
  next
    case False
    let ?w = "w\<lparr>out := out w @ [Prompt [Txt prompt], Print [Txt ''Invalid selection. Try again.'']], inp := ls\<rparr>"
    have step: "choose_number prompt n w = choose_number prompt n ?w"
      using False by (intro choose_number_Cons(3) [OF "3"(3) [symmetric]]) auto
    have fc: "first_choice n (inp w) = first_choice n ls"
      using False by (auto simp flip: "3"(3) split: option.split)
    have "case first_choice n ls of
        None \<Rightarrow> choose_number prompt n ?w = None
      | Some (r, ls') \<Rightarrow> \<exists>o'. choose_number prompt n ?w = Some (r, ?w\<lparr>out := out ?w @ o', inp := ls'\<rparr>)"
    proof (cases "int_of_str s")
      case None
      then show ?thesis using "3"(1) [OF None, of ?w] by simp
    next
      case (Some i)
      then show ?thesis using "3"(2) [OF Some, of ?w] False by auto
    qed
    then show ?thesis
      unfolding step fc by (auto split: option.splits intro!: exI [of _ "_ # _ # _"])
  qed
qed

subsection \<open>Statements that touch the console only\<close>

definition framed :: "('d, 'z) world_scheme \<Rightarrow> ('d, 'z) world_scheme \<Rightarrow> bool" where
  "framed w w' \<longleftrightarrow> (\<exists>os ls. w' = w\<lparr>out := out w @ os, inp := ls\<rparr>)"

definition console_only :: "(('d, 'z) world_scheme, 'a) py \<Rightarrow> bool" where
  "console_only m \<longleftrightarrow> (\<forall>w r w'. m w = Some (r, w') \<longrightarrow> framed w w')"

lemma console_onlyD: "console_only m \<Longrightarrow> m w = Some (r, w') \<Longrightarrow> framed w w'"
  by (simp add: console_only_def)

lemma framed_update:
  "framed w (w\<lparr>out := out w @ os, inp := ls\<rparr>)" "framed w (w\<lparr>out := out w @ os\<rparr>)" "framed w w"
proof -
  show f: "framed w (w\<lparr>out := out w @ os, inp := ls\<rparr>)" for os ls unfolding framed_def by blast
  show "framed w (w\<lparr>out := out w @ os\<rparr>)" using f [where os = os and ls = "inp w"] by simp
  show "framed w w" using f [where os = "[]" and ls = "inp w"] by simp
qed

declare framed_update(3) [simp]

lemma framed_trans: "framed w w1 \<Longrightarrow> framed w1 w2 \<Longrightarrow> framed w w2"
proof (unfold framed_def, elim exE, goal_cases)
  case (1 os os' ls ls')
  then have "w2 = w\<lparr>out := out w @ (os @ os'), inp := ls'\<rparr>" by (simp add: inp_out_commute)
  then show ?case by blast
qed

lemma framed_fields: "framed w w' \<Longrightarrow> dev w' = dev w" "framed w w' \<Longrightarrow> cmds w' = cmds w"
  "framed w w' \<Longrightarrow> \<exists>os. out w' = out w @ os"
  by (auto simp: framed_def)

lemma console_only_basic: "console_only (py_return x)" "console_only (py_raise e)" "console_only (py_lift r)"
  by (simp_all add: console_only_def py_return_def py_raise_def py_lift_def)

lemma console_only_ask: "console_only (ask p)" "console_only (py_input q)"
  by (auto simp: console_only_def py_input_def ask_def Let_def intro: framed_update split: list.splits input_line.splits)

lemma console_only_say: "console_only (say s)" "console_only (print_out ps)"
  by (auto simp: console_only_def say_def print_out_def py_effect_def intro: framed_update)

lemma console_only_bind: "console_only m \<Longrightarrow> (\<And>x. console_only (f x)) \<Longrightarrow> console_only (py_bind m f)"
  unfolding console_only_def by (fastforce simp: py_bind_eq_Some intro: framed_trans)

lemma console_only_for: "(\<And>x. x \<in> set xs \<Longrightarrow> console_only (f x)) \<Longrightarrow> console_only (py_for xs f)"
  by (induction xs) (simp_all add: console_only_basic console_only_bind)

lemma console_only_choose: "console_only (choose_number prompt n)"
  unfolding console_only_def
proof (intro allI impI)
  fix w r w'
  assume "choose_number prompt n w = Some (r, w')"
  with choose_number_spec [where n = n and w = w and prompt = prompt] show "framed w w'"
    by (auto intro: framed_update split: option.splits)
qed

lemma console_only_numbered: "console_only (numbered f xs)"
  unfolding numbered_def by (auto intro: console_only_for console_only_say)

lemmas console_only_rules = console_only_basic console_only_ask console_only_say console_only_bind
  console_only_for console_only_choose console_only_numbered

lemma choose_number_range:
  "choose_number prompt n w = Some (r, w') \<Longrightarrow>
     r = Inl (Exn KeyboardInterrupt []) \<or> (\<exists>k. r = Inr k \<and> 1 \<le> k \<and> k \<le> n)"
proof -
  have "first_choice n ls = Some (r, ls') \<Longrightarrow>
      r = Inl (Exn KeyboardInterrupt []) \<or> (\<exists>k. r = Inr k \<and> 1 \<le> k \<and> k \<le> n)" for ls ls'
    by (induction n ls rule: first_choice.induct) (auto split: option.splits if_splits)
  then show "choose_number prompt n w = Some (r, w') \<Longrightarrow> ?thesis"
    using choose_number_spec [where n = n and w = w and prompt = prompt] by (auto split: option.splits)
qed

subsection \<open>Properties of the selection\<close>

text \<open>A line that ends the dialogue: a number in range, or Ctrl-C.\<close>

fun answers :: "nat \<Rightarrow> input_line \<Rightarrow> bool" where
  "answers n Ctrl_C = True"
| "answers n (Line s) = (case int_of_str s of Some i \<Rightarrow> 1 \<le> i \<and> i \<le> int n | None \<Rightarrow> False)"

lemma first_choice_cases:
  "case first_choice n ls of
     None \<Rightarrow> filter (answers n) ls = []
   | Some (r, ls') \<Rightarrow> \<exists>skipped l. ls = skipped @ l # ls' \<and> filter (answers n) skipped = [] \<and>
       (l = Ctrl_C \<and> r = Inl (Exn KeyboardInterrupt []) \<or>
        (\<exists>s i. l = Line s \<and> int_of_str s = Some i \<and> 1 \<le> i \<and> i \<le> int n \<and> r = Inr (nat i)))"
proof (induction n ls rule: first_choice.induct)
  case (2 n ls)
  then show ?case by (auto intro: exI [of _ "[]"])
next
  case (3 n s ls)
  show ?case
  proof (cases "\<exists>i. int_of_str s = Some i \<and> 1 \<le> i \<and> i \<le> int n")
    case True
    then show ?thesis by (auto intro: exI [of _ "[]"])
  next
    case False
    then have step: "first_choice n (Line s # ls) = first_choice n ls" and no: "\<not> answers n (Line s)"
      by (auto split: option.split)
    have "case first_choice n ls of
        None \<Rightarrow> filter (answers n) ls = []
      | Some (r, ls') \<Rightarrow> \<exists>skipped l. ls = skipped @ l # ls' \<and> filter (answers n) skipped = [] \<and>
          (l = Ctrl_C \<and> r = Inl (Exn KeyboardInterrupt []) \<or>
           (\<exists>s i. l = Line s \<and> int_of_str s = Some i \<and> 1 \<le> i \<and> i \<le> int n \<and> r = Inr (nat i)))"
      using "3" False by (cases "int_of_str s") auto
    then show ?thesis
      unfolding step using no by (fastforce split: option.splits intro: exI [of _ "Line s # _"])
  qed
qed simp

text \<open>(C32) A selection by number gives the first number in range that is typed, skipping every line
  that is not one, and changes nothing but the console; Ctrl-C interrupts it.  When no line
  answers it, it never returns: it goes on printing at the end of the input, and when there is
  nothing to choose from.\<close>

theorem selection_takes_first_answer:
  "case choose_number prompt n w of
     None \<Rightarrow> filter (answers n) (inp w) = []
   | Some (r, w') \<Rightarrow> \<exists>skipped l. inp w = skipped @ l # inp w' \<and> filter (answers n) skipped = [] \<and>
       (l = Ctrl_C \<and> r = Inl (Exn KeyboardInterrupt []) \<or>
        (\<exists>s i. l = Line s \<and> int_of_str s = Some i \<and> 1 \<le> i \<and> i \<le> int n \<and> r = Inr (nat i))) \<and>
       dev w' = dev w \<and> cmds w' = cmds w \<and> (\<exists>o'. out w' = out w @ o')"
  using choose_number_spec [where n = n and w = w and prompt = prompt] first_choice_cases [of n "inp w"]
  by (auto split: option.splits)

end
