(* ===== verification/Co_State.thy ===== *)
theory Co_State
  imports Co_Console
begin

text \<open>
  The state of \<open>co.py\<close>: the dictionaries \<open>nodes\<close> and \<open>nodes_meta\<close> of \<open>main\<close> and the dictionaries of
  \<open>EventMonitor\<close>, added to the world of the tools.  A \<open>canopen.RemoteNode\<close> is its id, a reference
  by which the library knows it, and its object dictionary, read from the EDS file.  The calls the
  tool makes on nodes are the parameter \<open>node_api\<close>.
\<close>

record od_object =
  obj_name :: "string option"                    \<comment> \<open>\<open>name\<close>, when the object has one\<close>
  obj_data_type :: string                        \<comment> \<open>\<open>str(getattr(obj, 'data_type', ''))\<close>\<close>
  obj_access :: string
  obj_description :: string
  obj_subindices :: "(int \<times> string) list option" \<comment> \<open>subindex and name, when it has \<open>subindices\<close>\<close>

record node =
  n_id :: int
  n_ref :: nat
  n_od :: "(int \<times> od_object) list"

text \<open>A callback object: its identity, and what its closure refers to.\<close>

record callback =
  cb_id :: nat
  cb_node :: int

type_synonym pdo_key = "int \<times> int"
type_synonym pdo_entry = "raw list \<times> rat \<times> string"
type_synonym hb_entry = "raw \<times> rat \<times> string"

record monitor =
  subscribed_pdos :: "(pdo_key, pdo_entry) dict"
  pdo_callbacks :: "(pdo_key, callback) dict"
  subscribed_hbs :: "(int, hb_entry) dict"
  hb_callbacks :: "(int, callback) dict"
  force_refresh :: bool
  next_callback :: nat

definition EventMonitor_init :: monitor where
  "EventMonitor_init = \<lparr>subscribed_pdos = [], pdo_callbacks = [], subscribed_hbs = [], hb_callbacks = [],
     force_refresh = False, next_callback = 0\<rparr>"

record 'd co_world = "'d world" +
  nodes :: "(int, node) dict"
  nodes_meta :: "(int, string) dict"
  monitor :: monitor

text \<open>A mapped variable of a PDO: its name and \<open>data_type.pytype\<close>, when there is one.\<close>

record pdo_var =
  pv_name :: string
  pv_pytype :: "pytype option"

record 'd node_api =
  base :: "'d can_api"
  api_remote_node :: "int \<Rightarrow> string \<Rightarrow> 'd \<Rightarrow> (exn + nat \<times> (int \<times> od_object) list) \<times> 'd"
  api_register :: "nat \<Rightarrow> 'd \<Rightarrow> (exn + unit) \<times> 'd"
  api_get_raw :: "nat \<Rightarrow> int \<Rightarrow> int option \<Rightarrow> 'd \<Rightarrow> (exn + raw) \<times> 'd"
  api_set_raw :: "nat \<Rightarrow> int \<Rightarrow> int option \<Rightarrow> raw \<Rightarrow> 'd \<Rightarrow> (exn + unit) \<times> 'd"
  api_nmt_command :: "nat \<Rightarrow> int \<Rightarrow> 'd \<Rightarrow> (exn + unit) \<times> 'd"
  api_nmt_state :: "nat \<Rightarrow> 'd \<Rightarrow> (exn + raw) \<times> 'd"
  api_rpdo_count :: "nat \<Rightarrow> 'd \<Rightarrow> (exn + nat) \<times> 'd"
  api_rpdo_maps :: "nat \<Rightarrow> nat \<Rightarrow> 'd \<Rightarrow> (exn + pdo_var list) \<times> 'd"
  api_transmit :: "nat \<Rightarrow> nat \<Rightarrow> raw list \<Rightarrow> 'd \<Rightarrow> (exn + unit) \<times> 'd"
  api_tpdo_count :: "nat \<Rightarrow> 'd \<Rightarrow> (exn + nat) \<times> 'd"
  api_add_pdo_callback :: "nat \<Rightarrow> nat \<Rightarrow> nat \<Rightarrow> 'd \<Rightarrow> (exn + unit) \<times> 'd"
  api_remove_pdo_callback :: "nat \<Rightarrow> nat \<Rightarrow> nat \<Rightarrow> 'd \<Rightarrow> (exn + unit) \<times> 'd"
  api_add_hb_callback :: "nat \<Rightarrow> nat \<Rightarrow> 'd \<Rightarrow> (exn + unit) \<times> 'd"
  api_append_callback :: "nat \<Rightarrow> nat \<Rightarrow> 'd \<Rightarrow> (exn + unit) \<times> 'd"    \<comment> \<open>\<open>nmt._callbacks.append\<close>\<close>
  api_has_remove_hb :: "nat \<Rightarrow> bool"
  api_remove_hb_callback :: "nat \<Rightarrow> nat \<Rightarrow> 'd \<Rightarrow> (exn + unit) \<times> 'd"
  api_remove_callback :: "nat \<Rightarrow> nat \<Rightarrow> 'd \<Rightarrow> (exn + unit) \<times> 'd"    \<comment> \<open>\<open>nmt._callbacks.remove\<close>\<close>

text \<open>\<open>d[k]\<close> on a dictionary.\<close>

definition dict_index :: "('k, 'v) dict \<Rightarrow> 'k \<Rightarrow> exn + 'v" where
  "dict_index d k = (case dict_get d k of None \<Rightarrow> Inl (Exn KeyError []) | Some v \<Rightarrow> Inr v)"

definition get_world :: "('w, 'w) py" where
  "get_world w = Some (Inr w, w)"

text \<open>\<open>print("\nPress Enter to go back to the main menu."); input()\<close>.\<close>

definition press_enter :: "(('d, 'z) world_scheme, unit) py" where
  "press_enter =
     py_bind (say (newline @ ''Press Enter to go back to the main menu.'')) (\<lambda>_.
       py_bind (ask []) (\<lambda>_. py_return ()))"

text \<open>A library for examples: reading gives \<open>g\<close> of the subindex, everything else succeeds.\<close>

definition demo_api :: "(int option \<Rightarrow> exn + raw) \<Rightarrow> rat node_api" where
  "demo_api g = \<lparr>base = prompt_node, api_remote_node = (\<lambda>i eds d. (Inr (0, []), d)),
     api_register = (\<lambda>r d. (Inr (), d)), api_get_raw = (\<lambda>r i s d. (g s, d)),
     api_set_raw = (\<lambda>r i s v d. (Inr (), d)), api_nmt_command = (\<lambda>r c d. (Inr (), d)),
     api_nmt_state = (\<lambda>r d. (Inr (RInt 5), d)), api_rpdo_count = (\<lambda>r d. (Inr 1, d)),
     api_rpdo_maps = (\<lambda>r k d. (Inr [], d)), api_transmit = (\<lambda>r k vs d. (Inr (), d)),
     api_tpdo_count = (\<lambda>r d. (Inr 1, d)), api_add_pdo_callback = (\<lambda>r k c d. (Inr (), d)),
     api_remove_pdo_callback = (\<lambda>r k c d. (Inr (), d)), api_add_hb_callback = (\<lambda>r c d. (Inr (), d)),
     api_append_callback = (\<lambda>r c d. (Inr (), d)), api_has_remove_hb = (\<lambda>r. False),
     api_remove_hb_callback = (\<lambda>r c d. (Inr (), d)), api_remove_callback = (\<lambda>r c d. (Inr (), d))\<rparr>"

end
