(* ===== verification/Sdo_Browser.thy ===== *)
theory Sdo_Browser
  imports Co_State
begin

text \<open>
  The object dictionary of a node as \<open>co.py\<close> shows it, and reading and writing it over SDO:
  \<open>list_od_entries\<close>, \<open>choose_od_entry\<close>, \<open>is_array\<close>, \<open>is_record\<close>, \<open>is_octet_string\<close>, \<open>read_sdo\<close>,
  \<open>write_sdo\<close> and \<open>show_node_od_info\<close>.
\<close>

subsection \<open>Entries\<close>

definition list_od_entries :: "node \<Rightarrow> (int \<times> od_object) list" where
  "list_od_entries node =
     sort_key fst (filter (\<lambda>(idx, obj). obj_name obj \<noteq> None \<and> obj_name obj \<noteq> Some []) (n_od node))"

definition name_of :: "od_object \<Rightarrow> string" where
  "name_of obj = (case obj_name obj of None \<Rightarrow> [] | Some s \<Rightarrow> s)"

definition choose_od_entry :: "node \<Rightarrow> (('d, 'z) world_scheme, int \<times> od_object) py" where
  "choose_od_entry node =
     (let entries = list_od_entries node
      in py_bind (say ''Available SDO objects:'') (\<lambda>_.
           py_bind (numbered (\<lambda>(index, obj). hex_str index @ '' - '' @ name_of obj) entries) (\<lambda>_.
             py_bind (choose_number ''Select SDO by number: '' (length entries)) (\<lambda>choice.
               py_return (entries ! (choice - 1))))))"

definition is_record :: "od_object \<Rightarrow> bool" where
  "is_record obj = (upper (obj_data_type obj) = ''RECORD'')"

definition is_array :: "od_object \<Rightarrow> bool" where
  "is_array obj =
     (upper (obj_data_type obj) = ''ARRAY'' \<or>
      (case obj_subindices obj of None \<Rightarrow> False | Some subs \<Rightarrow> length subs > 1 \<and> \<not> is_record obj))"

definition contains :: "string \<Rightarrow> string \<Rightarrow> bool" where
  "contains p s = list_ex (prefix p) (suffixes s)"

definition is_octet_string :: "od_object \<Rightarrow> bool" where
  "is_octet_string obj =
     (contains ''OCTET_STRING'' (upper (obj_data_type obj)) \<or> contains ''STRING'' (upper (obj_data_type obj)))"

text \<open>\<open>obj.subindices\<close>, and the subindices the loops visit: not 0 when there are others.\<close>

definition no_subindices :: exn where
  "no_subindices = Exn AttributeError ''object has no attribute subindices''"

definition subindices_of :: "od_object \<Rightarrow> exn + (int \<times> string) list" where
  "subindices_of obj = (case obj_subindices obj of None \<Rightarrow> Inl no_subindices | Some subs \<Rightarrow> Inr subs)"

definition visited :: "(int \<times> string) list \<Rightarrow> (int \<times> string) list" where
  "visited subs = filter (\<lambda>(sub, _). \<not> (sub = 0 \<and> length subs > 1)) subs"

subsection \<open>Access\<close>

definition sdo_get :: "'d node_api \<Rightarrow> node \<Rightarrow> int \<Rightarrow> int option \<Rightarrow> (('d, 'z) world_scheme, raw) py" where
  "sdo_get api node index sub = dev_call (api_get_raw api (n_ref node) index sub)"

definition sdo_set :: "'d node_api \<Rightarrow> node \<Rightarrow> int \<Rightarrow> int option \<Rightarrow> raw \<Rightarrow> (('d, 'z) world_scheme, unit) py" where
  "sdo_set api node index sub v =
     command (C_set_raw index sub v) (api_set_raw api (n_ref node) index sub v)"

text \<open>\<open>[{hex(index)}:{hex(sub)}] {name}\<close>.\<close>

definition sub_label :: "int \<Rightarrow> int \<Rightarrow> string \<Rightarrow> string" where
  "sub_label index sub nm = ''  ['' @ hex_str index @ '':'' @ hex_str sub @ ''] '' @ nm"

definition read_entries :: "'d node_api \<Rightarrow> node \<Rightarrow> int \<Rightarrow> (int \<times> string) list \<Rightarrow> (('d, 'z) world_scheme, unit) py" where
  "read_entries api node index subs =
     py_for (visited subs) (\<lambda>(sub, nm).
       py_except
         (py_bind (sdo_get api node index (Some sub)) (\<lambda>v.
            print_out [Txt (sub_label index sub nm @ '': ''), Val v]))
         (\<lambda>e. say (sub_label index sub nm @ '': Error ('' @ exn_str e @ '')'')))"

definition read_sdo :: "'d node_api \<Rightarrow> node \<Rightarrow> (('d, 'z) world_scheme, unit) py" where
  "read_sdo api node =
     py_bind (choose_od_entry node) (\<lambda>(index, obj).
       py_block
         [py_except
            (if is_array obj \<or> is_record obj then
               py_bind (say (''Reading all subindices of '' @ hex_str index @ '' ('' @ name_of obj @ ''):'')) (\<lambda>_.
                 py_bind (py_lift (subindices_of obj)) (read_entries api node index))
             else
               py_bind (sdo_get api node index None) (\<lambda>v.
                 print_out [Txt (''['' @ hex_str index @ ''] '' @ name_of obj @ '': ''), Val v]))
            (\<lambda>e. say (''Error reading SDO: '' @ exn_str e)),
          press_enter])"

subsection \<open>Writing\<close>

text \<open>An array of bytes: each byte of the UTF-8 text goes to its own subindex, from 1.\<close>

definition write_bytes :: "'d node_api \<Rightarrow> node \<Rightarrow> int \<Rightarrow> od_object \<Rightarrow> (('d, 'z) world_scheme, unit) py" where
  "write_bytes api node index obj =
     py_bind (py_input (''Enter string or bytes for ARRAY '' @ quoted (name_of obj) @ '': '')) (\<lambda>s.
       let bval = utf8 s
       in py_block
            [py_for (List.enumerate 1 bval) (\<lambda>(i, b).
               py_except (sdo_set api node index (Some (int i)) (RInt (uint b)))
                 (\<lambda>e. say (''  Error writing byte at subindex '' @ nat_str i @ '': '' @ exn_str e))),
             say (''Wrote '' @ nat_str (length bval) @ '' bytes to '' @ name_of obj @ ''.'')])"

text \<open>One element: the type of its present value, or \<open>int\<close> when the dictionary does not have it.\<close>

definition write_element ::
    "'d node_api \<Rightarrow> node \<Rightarrow> int \<Rightarrow> od_object \<Rightarrow> nat \<Rightarrow> string \<Rightarrow> (('d, 'z) world_scheme, unit) py" where
  "write_element api node index obj i v =
     py_bind (py_lift (subindices_of obj)) (\<lambda>subs.
       py_bind (if dict_get subs (int i) \<noteq> None
                then py_bind (sdo_get api node index (Some (int i))) (\<lambda>r. py_return (type_of r))
                else py_return TInt) (\<lambda>dtype.
         py_bind (py_lift (convert dtype v)) (\<lambda>x. sdo_set api node index (Some (int i)) x)))"

definition write_elements :: "'d node_api \<Rightarrow> node \<Rightarrow> int \<Rightarrow> od_object \<Rightarrow> (('d, 'z) world_scheme, unit) py" where
  "write_elements api node index obj =
     py_bind (py_input (''Enter values for ARRAY '' @ quoted (name_of obj) @ '' (space or comma separated): '')) (\<lambda>arr.
       let vals = split_values arr
       in py_block
            [py_for (List.enumerate 1 vals) (\<lambda>(i, v).
               py_except (write_element api node index obj i v)
                 (\<lambda>e. say (''  Error writing subindex '' @ nat_str i @ '': '' @ exn_str e))),
             say (''Wrote '' @ nat_str (length vals) @ '' elements to '' @ name_of obj @ ''.'')])"

text \<open>A record: field by field, showing the present value; an empty answer leaves a field alone.\<close>

definition write_field ::
    "'d node_api \<Rightarrow> node \<Rightarrow> int \<Rightarrow> int \<Rightarrow> string \<Rightarrow> (('d, 'z) world_scheme, unit) py" where
  "write_field api node index sub nm =
     py_bind (py_except (sdo_get api node index (Some sub)) (\<lambda>e. py_return RNone)) (\<lambda>current_val.
       py_bind (ask [Txt (sub_label index sub nm @ '' (current: ''), Val current_val, Txt ''): '']) (\<lambda>v.
         py_except
           (if v \<noteq> [] then
              py_bind (py_lift (convert (type_of current_val) v)) (\<lambda>x. sdo_set api node index (Some sub) x)
            else py_return ())
           (\<lambda>e. say (''    Error writing subindex '' @ int_str sub @ '': '' @ exn_str e))))"

definition write_record :: "'d node_api \<Rightarrow> node \<Rightarrow> int \<Rightarrow> od_object \<Rightarrow> (('d, 'z) world_scheme, unit) py" where
  "write_record api node index obj =
     py_bind (say (''Writing RECORD '' @ quoted (name_of obj) @ '' field by field:'')) (\<lambda>_.
       py_bind (py_lift (subindices_of obj)) (\<lambda>subs.
         py_block
           [py_for (visited subs) (\<lambda>(sub, nm). write_field api node index sub nm),
            say ''Write complete.'']))"

text \<open>A variable: its value is read twice, for the type and to see whether it is bytes.\<close>

definition write_var :: "'d node_api \<Rightarrow> node \<Rightarrow> int \<Rightarrow> od_object \<Rightarrow> (('d, 'z) world_scheme, unit) py" where
  "write_var api node index obj =
     py_bind (py_input (''Enter value for VAR '' @ quoted (name_of obj) @ '': '')) (\<lambda>v.
       py_bind (sdo_get api node index None) (\<lambda>r.
         py_except
           (py_bind (sdo_get api node index None) (\<lambda>r2.
              py_bind (if type_of r2 = TBytes then py_return (RBytes (utf8 v))
                       else py_lift (convert (type_of r) v)) (\<lambda>x.
                py_bind (sdo_set api node index None x) (\<lambda>_. say ''Write complete.''))))
           (\<lambda>e. say (''Error writing SDO: '' @ exn_str e))))"

definition write_sdo :: "'d node_api \<Rightarrow> node \<Rightarrow> (('d, 'z) world_scheme, unit) py" where
  "write_sdo api node =
     py_bind (choose_od_entry node) (\<lambda>(index, obj).
       py_block
         [py_except
            (if is_array obj then
               (if is_octet_string obj then write_bytes api node index obj
                else write_elements api node index obj)
             else if is_record obj then write_record api node index obj
             else write_var api node index obj)
            (\<lambda>e. say (''Error writing SDO: '' @ exn_str e)),
          press_enter])"

subsection \<open>Overview\<close>

text \<open>The formats \<open>:>n\<close> and \<open>:<n\<close> of strings.\<close>

definition pad_left :: "nat \<Rightarrow> string \<Rightarrow> string" where
  "pad_left k s = replicate (k - length s) CHR '' '' @ s"

definition pad_right :: "nat \<Rightarrow> string \<Rightarrow> string" where
  "pad_right k s = s @ replicate (k - length s) CHR '' ''"

definition od_row :: "int \<times> od_object \<Rightarrow> string" where
  "od_row = (\<lambda>(idx, obj).
     pad_left 8 (hex_str idx) @ ''  '' @ pad_right 32 (name_of obj) @ '' '' @
     pad_right 12 (obj_data_type obj) @ '' '' @ pad_right 10 (obj_access obj) @ '' '' @ obj_description obj)"

subsection \<open>Loops over subindices\<close>

text \<open>A library whose SDO accesses raise nothing but \<open>Exception\<close>s, as python-canopen's errors are.\<close>

definition sdo_calm :: "'d node_api \<Rightarrow> bool" where
  "sdo_calm api \<longleftrightarrow>
     (\<forall>r i s d e d'. api_get_raw api r i s d = (Inl e, d') \<longrightarrow> is_exception e) \<and>
     (\<forall>r i s v d e d'. api_set_raw api r i s v d = (Inl e, d') \<longrightarrow> is_exception e)"

lemma sdo_calmD:
  assumes "sdo_calm api"
  shows "api_get_raw api r i s d = (Inl e, d') \<Longrightarrow> is_exception e"
    and "api_set_raw api r i s v d = (Inl e, d') \<Longrightarrow> is_exception e"
  using assms unfolding sdo_calm_def by blast+

lemma bad_int_exception [simp]: "is_exception (bad_int s)" "is_exception (bad_float s)" "is_exception no_subindices"
  by (simp_all add: bad_int_def bad_float_def no_subindices_def)

lemma convert_exception: "convert t s = Inl e \<Longrightarrow> is_exception e"
  by (cases t) (auto simp: map_sum_def py_int_def py_float_def split: sum.splits option.splits prod.splits if_splits)

text \<open>A loop whose every turn ends normally, with a relation \<open>R\<close> on what each turn adds.\<close>

lemma py_for_trace:
  assumes "\<And>x w. x \<in> set xs \<Longrightarrow> \<exists>w'. f x w = Some (Inr (), w') \<and> Q w w' [x]"
    and "\<And>w. Q w w []"
    and "\<And>w w1 w2 x ys. Q w w1 [x] \<Longrightarrow> Q w1 w2 ys \<Longrightarrow> Q w w2 (x # ys)"
  shows "\<exists>w'. py_for xs f w = Some (Inr (), w') \<and> Q w w' xs"
  using assms(1)
proof (induction xs arbitrary: w)
  case Nil
  then show ?case by (auto simp: py_return_def intro: assms(2))
next
  case (Cons x xs)
  obtain w1 where w1: "f x w = Some (Inr (), w1)" "Q w w1 [x]" using Cons.prems by auto
  obtain w2 where "py_for xs f w1 = Some (Inr (), w2)" "Q w1 w2 xs"
    using Cons.IH [of w1] Cons.prems by (metis list.set_intros(2))
  then show ?case using w1 assms(3) by (auto simp: py_bind_run(1))
qed

text \<open>The line shown for a subindex: its value, or the error.\<close>

definition reading_line :: "int \<Rightarrow> int \<times> string \<Rightarrow> console_out \<Rightarrow> bool" where
  "reading_line index s l \<longleftrightarrow>
     (\<exists>v. l = Print [Txt (sub_label index (fst s) (snd s) @ '': ''), Val v]) \<or>
     (\<exists>e. l = Print [Txt (sub_label index (fst s) (snd s) @ '': Error ('' @ e @ '')'')])"

lemma read_entry_run:
  assumes "sdo_calm api"
  shows "\<exists>w' l. py_except
       (py_bind (sdo_get api node index (Some sub)) (\<lambda>v. print_out [Txt (sub_label index sub nm @ '': ''), Val v]))
       (\<lambda>e. say (sub_label index sub nm @ '': Error ('' @ exn_str e @ '')'')) w = Some (Inr (), w') \<and>
     reading_line index (sub, nm) l \<and> out w' = out w @ [l] \<and> cmds w' = cmds w \<and> inp w' = inp w"
proof (cases "api_get_raw api (n_ref node) index (Some sub) (dev w)")
  case (Pair r d)
  then show ?thesis
    using sdo_calmD(1) [OF assms] by (cases r) (auto simp: sdo_get_def dev_call_def py_simps print_out_def
        say_def reading_line_def)
qed

lemma read_entries_run:
  assumes "sdo_calm api"
  shows "\<exists>w' ls. read_entries api node index subs w = Some (Inr (), w') \<and>
     list_all2 (reading_line index) (visited subs) ls \<and> out w' = out w @ ls \<and> cmds w' = cmds w \<and> inp w' = inp w"
proof -
  let ?Q = "\<lambda>w w' xs. \<exists>ls. list_all2 (reading_line index) xs ls \<and> out w' = out w @ ls \<and>
    cmds w' = cmds w \<and> inp w' = inp w"
  have "\<exists>w'. read_entries api node index subs w = Some (Inr (), w') \<and> ?Q w w' (visited subs)"
    unfolding read_entries_def
  proof (rule py_for_trace, goal_cases)
    case (1 x w)
    then show ?case using read_entry_run [OF assms, of node index "fst x" "snd x" w]
      by (auto simp: case_prod_unfold)
  next
    case (3 w w1 w2 x ys)
    then show ?case by (auto simp: list_all2_Cons1)
  qed simp
  then show ?thesis by blast
qed

subsection \<open>Properties of reading and writing\<close>


text \<open>An object with four subindices of one node, read where subindex 2 fails.\<close>

definition demo_object :: od_object where
  "demo_object = \<lparr>obj_name = Some ''Map'', obj_data_type = [], obj_access = ''rw'', obj_description = [],
     obj_subindices = Some [(0, ''count''), (1, ''a''), (2, ''b''), (3, ''c'')]\<rparr>"

definition demo_node :: node where
  "demo_node = \<lparr>n_id = 5, n_ref = 0, n_od = [(0x1A00, demo_object)]\<rparr>"

definition failing_read :: "int option \<Rightarrow> exn + raw" where
  "failing_read s = (if s = Some 2 then Inl (Exn RuntimeError ''Code 0x06090011'') else Inr (RInt 7))"

lemma demo_calm: "sdo_calm (demo_api failing_read)"
  by (auto simp: sdo_calm_def demo_api_def failing_read_def split: if_splits)

lemma demo_entries: "list_od_entries demo_node = [(0x1A00, demo_object)]"
  by (simp add: list_od_entries_def demo_node_def demo_object_def)

lemma int_of_1: "int_of_str ''1'' = Some 1"
  by code_simp

lemma demo_choice:
  "\<exists>w1. choose_od_entry demo_node (fresh_world (0 :: rat) (Line ''1'' # ls)) = Some (Inr (0x1A00, demo_object), w1) \<and>
     inp w1 = ls \<and> cmds w1 = []"
proof -
  have "choose_od_entry demo_node (fresh_world (0 :: rat) (Line ''1'' # ls)) =
    Some (Inr (0x1A00, demo_object), \<lparr>dev = 0, inp = ls, out =
      [Print [Txt ''Available SDO objects:''], Print [Txt (nat_str 1 @ '') '' @ hex_str 0x1A00 @ '' - Map'')],
       Prompt [Txt ''Select SDO by number: '']], cmds = []\<rparr>)"
    by (simp add: choose_od_entry_def demo_entries numbered_def enumerate_simps py_bind_run(1) say_run fresh_world_def
        choose_number_Cons(2) [OF _ int_of_1] name_of_def demo_object_def py_return_def py_bind_def Let_def)
  then show ?thesis by simp
qed

lemma demo_array: "is_array demo_object" "\<not> is_record demo_object" "\<not> is_octet_string demo_object"
  "obj_subindices demo_object = Some [(0, ''count''), (1, ''a''), (2, ''b''), (3, ''c'')]"
  by (simp_all add: is_array_def is_record_def is_octet_string_def contains_def demo_object_def upper_def)


subsection \<open>Writing elements\<close>

text \<open>
  The type of the value an element is written with: that of the value read there, or \<open>int\<close> when the
  dictionary does not list the subindex.
\<close>

definition element_type :: "'d node_api \<Rightarrow> node \<Rightarrow> int \<Rightarrow> (int \<times> string) list \<Rightarrow> int \<Rightarrow> pytype \<Rightarrow> bool" where
  "element_type api node index subs sub t \<longleftrightarrow>
     (if dict_get subs sub = None then t = TInt
      else \<exists>d d' r. api_get_raw api (n_ref node) index (Some sub) d = (Inr r, d') \<and> t = type_of r)"

definition written_as ::
    "'d node_api \<Rightarrow> node \<Rightarrow> int \<Rightarrow> (int \<times> string) list \<Rightarrow> nat \<times> string \<Rightarrow> command \<Rightarrow> bool" where
  "written_as api node index subs iv c \<longleftrightarrow>
     (\<exists>t x. element_type api node index subs (int (fst iv)) t \<and> convert t (snd iv) = Inr x \<and>
        c = C_set_raw index (Some (int (fst iv))) x)"

lemma sdo_set_run:
  assumes "sdo_calm api"
  shows "\<exists>r w'. sdo_set api node index sub v w = Some (r, w') \<and> (\<forall>e. r = Inl e \<longrightarrow> is_exception e) \<and>
     cmds w' = cmds w @ [C_set_raw index sub v] \<and> out w' = out w \<and> inp w' = inp w"
proof (cases "api_set_raw api (n_ref node) index sub v (dev w)")
  case (Pair r d)
  then show ?thesis
    using sdo_calmD(2) [OF assms] by (auto simp: sdo_set_def command_def record_cmd_def dev_call_def py_simps)
qed

lemma write_element_run:
  assumes "sdo_calm api" "obj_subindices obj = Some subs"
  shows "\<exists>r w'. write_element api node index obj i v w = Some (r, w') \<and> (\<forall>e. r = Inl e \<longrightarrow> is_exception e) \<and>
     out w' = out w \<and> inp w' = inp w \<and>
     (cmds w' = cmds w \<or> (\<exists>c. written_as api node index subs (i, v) c \<and> cmds w' = cmds w @ [c]))"
proof -
  have set: "\<exists>r w'. py_bind (py_lift (convert t v)) (\<lambda>x. sdo_set api node index (Some (int i)) x) w = Some (r, w') \<and>
      (\<forall>e. r = Inl e \<longrightarrow> is_exception e) \<and> out w' = out w \<and> inp w' = inp w \<and>
      (cmds w' = cmds w \<or> (\<exists>c. written_as api node index subs (i, v) c \<and> cmds w' = cmds w @ [c]))"
    if "element_type api node index subs (int i) t" for t and w :: "('a, 'b) world_scheme"
  proof (cases "convert t v")
    case (Inl e)
    then show ?thesis by (auto simp: py_raise_def dest: convert_exception)
  next
    case (Inr x)
    then have "written_as api node index subs (i, v) (C_set_raw index (Some (int i)) x)"
      using that by (auto simp: written_as_def)
    then show ?thesis using sdo_set_run [OF assms(1), of node index "Some (int i)" x w] Inr by fastforce
  qed
  show ?thesis
  proof (cases "dict_get subs (int i) = None")
    case True
    then show ?thesis
      using set [of TInt w] by (simp add: write_element_def subindices_of_def assms(2) element_type_def)
  next
    case False
    obtain r d where r: "api_get_raw api (n_ref node) index (Some (int i)) (dev w) = (r, d)" by fastforce
    show ?thesis
    proof (cases r)
      case (Inl e)
      then show ?thesis
        using False r sdo_calmD(1) [OF assms(1)]
        by (auto simp: write_element_def subindices_of_def assms(2) sdo_get_def dev_call_def py_simps)
    next
      case (Inr x)
      then have "element_type api node index subs (int i) (type_of x)"
        using False r by (auto simp: element_type_def)
      from set [OF this, of "w\<lparr>dev := d\<rparr>"] show ?thesis
        using False r Inr
        by (simp add: write_element_def subindices_of_def assms(2) sdo_get_def dev_call_def py_bind_run(1)
            py_return_def)
    qed
  qed
qed

lemma element_turn:
  assumes "sdo_calm api" "obj_subindices obj = Some subs"
  shows "\<exists>w'. py_except (write_element api node index obj i v)
       (\<lambda>e. say (''  Error writing subindex '' @ nat_str i @ '': '' @ exn_str e)) w = Some (Inr (), w') \<and>
     inp w' = inp w \<and>
     (cmds w' = cmds w \<or> (\<exists>c. written_as api node index subs (i, v) c \<and> cmds w' = cmds w @ [c]))"
proof -
  obtain r w' where *: "write_element api node index obj i v w = Some (r, w')"
    "\<forall>e. r = Inl e \<longrightarrow> is_exception e" "inp w' = inp w"
    "cmds w' = cmds w \<or> (\<exists>c. written_as api node index subs (i, v) c \<and> cmds w' = cmds w @ [c])"
    using write_element_run [OF assms, of node index i v w] by blast
  then show ?thesis by (cases r) (auto simp: py_except_def say_run)
qed



text \<open>A boolean variable can only be switched on: whatever is typed for it, \<open>0\<close> and \<open>False\<close>
  included, the value written is \<open>True\<close>, because \<open>bool\<close> of a text that is not empty is true.\<close>

theorem boolean_is_written_true:
  assumes "\<And>d. \<exists>b d'. api_get_raw api (n_ref node) index None d = (Inr (RBool b), d')"
    and "inp w = Line s # ls" "s \<noteq> []"
  shows "\<exists>r w'. write_var api node index obj w = Some (r, w') \<and>
     cmds w' = cmds w @ [C_set_raw index None (RBool True)]"
proof -
  let ?w = "w\<lparr>out := out w @ [Prompt [Txt (''Enter value for VAR '' @ quoted (name_of obj) @ '': '')]], inp := ls\<rparr>"
  have get: "\<exists>b v'. sdo_get api node index None v = Some (Inr (RBool b), v') \<and> cmds v' = cmds v"
    for v :: "('a, 'b) world_scheme"
    using assms(1) [of "dev v"] by (auto simp: sdo_get_def dev_call_def)
  obtain b w1 where g1: "sdo_get api node index None ?w = Some (Inr (RBool b), w1)" "cmds w1 = cmds ?w"
    using get by blast
  obtain b' w2 where g2: "sdo_get api node index None w1 = Some (Inr (RBool b'), w2)" "cmds w2 = cmds w1"
    using get by blast
  have run: "write_var api node index obj w = py_except
      (py_bind (sdo_set api node index None (RBool True)) (\<lambda>_. say ''Write complete.''))
      (\<lambda>e. say (''Error writing SDO: '' @ exn_str e)) w2"
    unfolding write_var_def
      py_bind_run(1) [where m = "py_input _" and w = w, OF input_Line [OF assms(2)]]
      py_bind_run(1) [where m = "sdo_get _ _ _ _" and w = ?w, OF g1(1)]
    using assms(3) by (simp add: py_except_def py_bind_run(1) [where m = "sdo_get _ _ _ _" and w = w1, OF g2(1)])
  obtain r d3 where "api_set_raw api (n_ref node) index None (RBool True) (dev w2) = (r, d3)" by fastforce
  then show ?thesis
    unfolding run using g1(2) g2(2)
    by (cases r) (auto simp: sdo_set_def command_def record_cmd_def dev_call_def say_run py_simps)
qed

theorem boolean_is_written_true_witness:
  "\<exists>r w'. write_var (demo_api (\<lambda>_. Inr (RBool True))) demo_node 0x2000 demo_object
       (fresh_world 0 [Line ''False'']) = Some (r, w') \<and>
     cmds w' = [C_set_raw 0x2000 None (RBool True)]"
proof -
  let ?w = "fresh_world (0 :: rat) [Line ''False'']"
  have "\<exists>r w'. write_var (demo_api (\<lambda>_. Inr (RBool True))) demo_node 0x2000 demo_object ?w = Some (r, w') \<and>
     cmds w' = cmds ?w @ [C_set_raw 0x2000 None (RBool True)]"
    by (rule boolean_is_written_true [where s = "''False''" and ls = "[]"])
      (auto simp: demo_api_def fresh_world_def intro: exI [of _ True])
  then show ?thesis by (simp add: fresh_world_def)
qed

text \<open>Records are treated as arrays.  An object without a \<open>data_type\<close>, as the array and record
  objects of python-canopen are, counts as an array as soon as it has two subindices: writing it
  asks for a list of values, and the dialogue for the fields of a record is never reached.\<close>

theorem record_written_as_array:
  assumes "choose_od_entry node w = Some (Inr (index, obj), w1)"
    and "obj_data_type obj = []" "obj_subindices obj = Some subs" "length subs \<ge> 2"
  shows "write_sdo api node w =
     py_block [py_except (write_elements api node index obj) (\<lambda>e. say (''Error writing SDO: '' @ exn_str e)),
       press_enter] w1"
proof -
  have "is_array obj" "\<not> is_octet_string obj"
    using assms(2-4) by (simp_all add: is_array_def is_record_def is_octet_string_def contains_def upper_def)
  then show ?thesis
    unfolding write_sdo_def py_bind_run(1) [where m = "choose_od_entry _" and w = w, OF assms(1)] by simp
qed

theorem record_written_as_array_witness:
  "\<exists>w1. write_sdo (demo_api failing_read) demo_node (fresh_world 0 [Line ''1'', Line ''5'']) =
     py_block [py_except (write_elements (demo_api failing_read) demo_node 0x1A00 demo_object)
         (\<lambda>e. say (''Error writing SDO: '' @ exn_str e)), press_enter] w1 \<and> inp w1 = [Line ''5'']"
proof -
  obtain w1 where w1: "choose_od_entry demo_node (fresh_world (0 :: rat) [Line ''1'', Line ''5'']) =
      Some (Inr (0x1A00, demo_object), w1)" "inp w1 = [Line ''5'']"
    using demo_choice [of "[Line ''5'']"] by blast
  have "obj_data_type demo_object = []" by (simp add: demo_object_def)
  from record_written_as_array [OF w1(1) this demo_array(4)] show ?thesis using w1(2) by auto
qed

end
