(* ===== verification/Node_Menu.thy ===== *)
theory Node_Menu
  imports Sdo_Browser
begin

text \<open>
  The nodes of \<open>co.py\<close> and the menu entries that act on one: \<open>add_node\<close>, \<open>choose_node\<close>,
  \<open>list_nodes\<close>, \<open>send_nmt\<close>, \<open>show_node_state\<close>, \<open>show_node_od_info\<close> and \<open>send_pdo\<close>.  The invariant
  is that \<open>nodes\<close> and \<open>nodes_meta\<close> have the same keys and that a node is filed under its id.
\<close>

subsection \<open>Adding and choosing\<close>

definition add_node :: "'d node_api \<Rightarrow> string list \<Rightarrow> ('d co_world, unit) py" where
  "add_node api eds_files =
     py_bind (py_input ''Enter node ID: '') (\<lambda>s.
       py_bind (py_lift (py_int s)) (\<lambda>node_id.
         py_bind (choose_eds eds_files) (\<lambda>eds.
           py_bind (dev_call (api_remote_node api node_id eds)) (\<lambda>(ref, od).
             py_block
               [command (C_register node_id) (api_register api ref),
                py_effect (\<lambda>w. w\<lparr>nodes := dict_put node_id \<lparr>n_id = node_id, n_ref = ref, n_od = od\<rparr> (nodes w)\<rparr>),
                py_effect (\<lambda>w. w\<lparr>nodes_meta := dict_put node_id (basename eds) (nodes_meta w)\<rparr>),
                say (''Node '' @ int_str node_id @ '' added with EDS '' @ quoted (basename eds) @ ''.'')]))))"

definition list_choices :: "int list \<Rightarrow> (int, string) dict \<Rightarrow> ('d co_world, unit) py" where
  "list_choices node_ids meta =
     py_for (List.enumerate 1 node_ids) (\<lambda>(idx, node_id).
       py_bind (py_lift (dict_index meta node_id)) (\<lambda>eds_name.
         say (nat_str idx @ '') Node ID '' @ int_str node_id @ '' - '' @ eds_name)))"

definition choose_node :: "('d co_world, node option) py" where
  "choose_node w =
     (if nodes w = [] then
        py_bind (say ''No nodes found. Please add a node first.'') (\<lambda>_. py_return None) w
      else
        let node_ids = dict_keys (nodes w)
        in py_bind (say ''Available nodes:'') (\<lambda>_.
             py_bind (list_choices node_ids (nodes_meta w)) (\<lambda>_.
               py_bind (choose_number ''Select node by number: '' (length node_ids)) (\<lambda>choice.
                 py_bind (py_lift (dict_index (nodes w) (node_ids ! (choice - 1)))) (\<lambda>node.
                   py_return (Some node))))) w)"

definition list_nodes :: "('d co_world, unit) py" where
  "list_nodes w =
     py_block
       [py_effect (\<lambda>w. w\<lparr>out := out w @ [Clear_screen]\<rparr>),
        if nodes w = [] then say ''No nodes have been added yet.''
        else py_block
          [say ''=== Added Nodes ==='',
           py_for (dict_keys (nodes w)) (\<lambda>node_id.
             say (''Node ID '' @ int_str node_id @ '' - '' @
               (case dict_get (nodes_meta w) node_id of None \<Rightarrow> ''?'' | Some m \<Rightarrow> m))),
           say (replicate 24 CHR ''='')],
        press_enter] w"

text \<open>Run a dialogue on the node chosen, if one was.\<close>

definition with_node :: "(node \<Rightarrow> ('d co_world, unit) py) \<Rightarrow> ('d co_world, unit) py" where
  "with_node f = py_bind choose_node (\<lambda>r. case r of None \<Rightarrow> py_return () | Some node \<Rightarrow> f node)"

subsection \<open>NMT\<close>

definition nmt_cmds :: "(string \<times> int) list" where
  "nmt_cmds = [(''start'', 0x01), (''stop'', 0x02), (''pre-op'', 0x80), (''reset node'', 0x81), (''reset comm'', 0x82)]"

definition send_nmt :: "'d node_api \<Rightarrow> ('d co_world, unit) py" where
  "send_nmt api =
     with_node (\<lambda>node.
       py_bind (say ''NMT Commands:'') (\<lambda>_.
         py_bind (numbered fst nmt_cmds) (\<lambda>_.
           py_bind (choose_number ''Choose command by number: '' (length nmt_cmds)) (\<lambda>choice.
             case nmt_cmds ! (choice - 1) of (cmd_name, cmd_code) \<Rightarrow>
               py_except
                 (py_bind (command (C_nmt_command (n_id node) cmd_code) (api_nmt_command api (n_ref node) cmd_code)) (\<lambda>_.
                    say (''NMT '' @ quoted cmd_name @ '' sent to node '' @ int_str (n_id node))))
                 (\<lambda>e. say (''Error sending NMT command: '' @ exn_str e))))))"

definition NMT_STATE_TEXT :: "(rat \<times> string) list" where
  "NMT_STATE_TEXT = [(0, ''Initializing''), (4, ''Stopped''), (5, ''Operational''), (127, ''Pre-operational'')]"

text \<open>\<open>NMT_STATE_TEXT.get(state, f"Unknown({state})")\<close>: the keys are numbers.\<close>

fun number_of :: "raw \<Rightarrow> rat option" where
  "number_of (RInt i) = Some (of_int i)"
| "number_of (RBool b) = Some (of_bool b)"
| "number_of (RFloat (Fin r)) = Some r"
| "number_of _ = None"

definition state_text :: "raw \<Rightarrow> piece list" where
  "state_text state =
     (case Option.bind (number_of state) (map_of NMT_STATE_TEXT) of
        Some s \<Rightarrow> [Txt s]
      | None \<Rightarrow> [Txt ''Unknown('', Val state, Txt '')''])"

definition show_node_state :: "'d node_api \<Rightarrow> ('d co_world, unit) py" where
  "show_node_state api =
     with_node (\<lambda>node.
       py_bind
         (py_except
            (py_bind (dev_call (api_nmt_state api (n_ref node))) (\<lambda>state.
               py_bind get_world (\<lambda>w.
                 py_bind (py_lift (dict_index (nodes_meta w) (n_id node))) (\<lambda>eds_name.
                   print_out ([Txt (newline @ ''Node '' @ int_str (n_id node) @ '' ('' @ eds_name @ '') NMT State: '')] @
                     state_text state @ [Txt '' ('', Val state, Txt '')''])))))
            (\<lambda>e. say (''Could not retrieve node state: '' @ exn_str e)))
         (\<lambda>_. press_enter))"

definition show_node_od_info :: "('d co_world, unit) py" where
  "show_node_od_info =
     with_node (\<lambda>node.
       py_bind get_world (\<lambda>w.
         py_bind (py_lift (dict_index (nodes_meta w) (n_id node))) (\<lambda>eds_name.
           py_block
             [say (newline @ ''=== Object Dictionary for Node '' @ int_str (n_id node) @ '' ('' @ eds_name @ '') ===''),
              say (pad_left 8 ''Index'' @ ''  '' @ pad_right 32 ''Name'' @ '' '' @ pad_right 12 ''Type'' @ '' '' @
                pad_right 10 ''Access'' @ '' '' @ ''Description''),
              say (replicate 80 CHR ''-''),
              py_for (list_od_entries node) (\<lambda>entry. say (od_row entry)),
              say (replicate 80 CHR ''-''),
              press_enter])))"

subsection \<open>Sending a PDO\<close>

text \<open>The values for the variables, in order; the first that cannot be converted raises.\<close>

fun convert_all :: "(string \<times> pdo_var) list \<Rightarrow> exn + raw list" where
  "convert_all [] = Inr []"
| "convert_all ((v, var) # rest) =
     (case convert (case pv_pytype var of Some t \<Rightarrow> t | None \<Rightarrow> TInt) v of
        Inl e \<Rightarrow> Inl e
      | Inr x \<Rightarrow> map_sum id (Cons x) (convert_all rest))"

text \<open>\<open>rpdo.data = values; rpdo.transmit()\<close>, once the values are typed.\<close>

definition transmit_values ::
    "'d node_api \<Rightarrow> node \<Rightarrow> nat \<Rightarrow> pdo_var list \<Rightarrow> string \<Rightarrow> ('d co_world, unit) py" where
  "transmit_values api node pdo_num maps vals_input =
     (let val_list = split_values vals_input
      in if length val_list \<noteq> length maps then
           say (''Expected '' @ nat_str (length maps) @ '' values, got '' @ nat_str (length val_list) @ ''.'')
         else
           py_bind (py_lift (convert_all (zip val_list maps))) (\<lambda>vals.
             py_bind (command (C_transmit (int pdo_num) vals) (api_transmit api (n_ref node) pdo_num vals)) (\<lambda>_.
               say ''RPDO transmitted.'')))"

definition send_pdo :: "'d node_api \<Rightarrow> ('d co_world, unit) py" where
  "send_pdo api =
     with_node (\<lambda>node.
       py_except
         (py_bind (dev_call (api_rpdo_count api (n_ref node))) (\<lambda>rpdo_count.
            if rpdo_count = 0 then say ''No RPDOs found in EDS for this node.''
            else
              py_bind (say (''Node has '' @ nat_str rpdo_count @ '' RPDO(s):'')) (\<lambda>_.
              py_bind (py_for [1..<Suc rpdo_count] (\<lambda>i. say (nat_str i @ '') RPDO '' @ nat_str i))) (\<lambda>_.
              py_bind (choose_number (''Select RPDO by number (1..'' @ nat_str rpdo_count @ ''): '') rpdo_count) (\<lambda>pdo_num.
              py_bind (dev_call (api_rpdo_maps api (n_ref node) pdo_num)) (\<lambda>maps.
              py_bind (say ''Enter values (space or comma separated):'') (\<lambda>_.
                if maps = [] then say ''No variables mapped to this RPDO.''
                else
                  py_bind (py_for (List.enumerate 1 maps) (\<lambda>(idx, var).
                      say (''  '' @ nat_str idx @ '') '' @ pv_name var))) (\<lambda>_.
                  py_bind (py_input ''Values: '') (\<lambda>vals_input.
                    transmit_values api node pdo_num maps vals_input)))))))))
         (\<lambda>e. say (''Error sending PDO: '' @ exn_str e)))"

subsection \<open>The invariant of the node dictionaries\<close>

definition nodes_ok :: "'d co_world \<Rightarrow> bool" where
  "nodes_ok w \<longleftrightarrow>
     dict_ok (nodes w) \<and> set (dict_keys (nodes w)) = set (dict_keys (nodes_meta w)) \<and>
     (\<forall>k n. dict_get (nodes w) k = Some n \<longrightarrow> n_id n = k)"

lemma framed_co:
  fixes w w' :: "'d co_world"
  assumes "framed w w'"
  shows "nodes w' = nodes w" "nodes_meta w' = nodes_meta w" "monitor w' = monitor w"
  using assms by (auto simp: framed_def)

lemma framed_nodes_ok: "framed w w' \<Longrightarrow> nodes_ok w' = nodes_ok w"
  by (simp add: nodes_ok_def framed_co)

lemma nodes_ok_put:
  assumes "nodes_ok w"
  shows "nodes_ok (w\<lparr>nodes := dict_put k \<lparr>n_id = k, n_ref = ref, n_od = od\<rparr> (nodes w),
     nodes_meta := dict_put k m (nodes_meta w)\<rparr>)"
  using assms by (auto simp: nodes_ok_def dict_ok_put dict_keys_put dict_get_put)

text \<open>What \<open>add_node\<close> does to the dictionaries: nothing when it fails, else one node more.\<close>

lemma choose_eds_console: "console_only (choose_eds eds_files)"
  unfolding choose_eds_def by (intro console_only_rules)

lemma add_node_run:
  fixes w w' :: "'d co_world"
  assumes "add_node api eds_files w = Some (r, w')"
  shows "(\<exists>e. r = Inl e \<and> nodes w' = nodes w \<and> nodes_meta w' = nodes_meta w) \<or>
     (\<exists>k ref od m. r = Inr () \<and>
        nodes w' = dict_put k \<lparr>n_id = k, n_ref = ref, n_od = od\<rparr> (nodes w) \<and>
        nodes_meta w' = dict_put k m (nodes_meta w))"
proof -
  have dev: "dev_call f v = Some (q, v') \<Longrightarrow> nodes v' = nodes v \<and> nodes_meta v' = nodes_meta v"
    for f :: "'d \<Rightarrow> (exn + 'a) \<times> 'd" and q and v v' :: "'d co_world"
    by (auto simp: dev_call_def split: prod.splits)
  have inp: "py_input p v = Some (q, v') \<Longrightarrow> nodes v' = nodes v \<and> nodes_meta v' = nodes_meta v"
    for p q and v v' :: "'d co_world"
    by (drule console_onlyD [OF console_only_ask(2)]) (simp add: framed_co)
  have eds: "choose_eds eds_files v = Some (q, v') \<Longrightarrow> nodes v' = nodes v \<and> nodes_meta v' = nodes_meta v"
    for q and v v' :: "'d co_world"
    by (drule console_onlyD [OF choose_eds_console]) (simp add: framed_co)
  show ?thesis
    using assms unfolding add_node_def py_block.simps command_def py_lift_def
    by (auto simp: py_bind_eq_Some case_prod_unfold say_run record_cmd_def py_effect_def py_return_def
        dest!: dev inp eds; blast)
qed

lemma list_choices_run:
  fixes w :: "'d co_world"
  assumes "set node_ids \<subseteq> set (dict_keys meta)"
  shows "\<exists>w'. list_choices node_ids meta w = Some (Inr (), w') \<and> framed w w'"
  unfolding list_choices_def
proof (rule py_for_trace [where Q = "\<lambda>w w' _. framed w w'"], goal_cases)
  case (1 x w)
  obtain idx k where x: "x = (idx, k)" by fastforce
  have "k \<in> set (dict_keys meta)"
    using 1 assms unfolding x enumerate_eq_zip by (auto dest: set_zip_rightD)
  then obtain m where "dict_index meta k = Inr m"
    by (metis dict_get_None_iff dict_index_def option.case_eq_if)
  then show ?case by (auto simp: x say_run intro: framed_update)
qed (auto intro: framed_trans)

lemma choose_node_result:
  fixes w w' :: "'d co_world"
  assumes "nodes_ok w" "choose_node w = Some (r, w')"
  shows "framed w w' \<and>
     (case r of
        Inl e \<Rightarrow> e = Exn KeyboardInterrupt []
      | Inr None \<Rightarrow> nodes w = []
      | Inr (Some n) \<Rightarrow> dict_get (nodes w) (n_id n) = Some n)"
proof (cases "nodes w = []")
  case True
  then show ?thesis using assms(2) by (auto simp: choose_node_def py_bind_def say_run py_return_def intro: framed_update)
next
  case False
  let ?ids = "dict_keys (nodes w)"
  let ?w1 = "w\<lparr>out := out w @ [Print [Txt ''Available nodes:'']]\<rparr>"
  obtain w2 where w2: "list_choices ?ids (nodes_meta w) ?w1 = Some (Inr (), w2)" "framed ?w1 w2"
    using list_choices_run [of ?ids "nodes_meta w" ?w1] assms(1) by (auto simp: nodes_ok_def)
  have f2: "framed w w2" using w2(2) framed_update(2) framed_trans by blast
  from assms(2) False w2(1) have rest: "py_bind (choose_number ''Select node by number: '' (length ?ids)) (\<lambda>choice.
      py_bind (py_lift (dict_index (nodes w) (?ids ! (choice - 1)))) (\<lambda>node. py_return (Some node))) w2 = Some (r, w')"
    by (simp add: choose_node_def Let_def py_bind_run(1) [where m = "say _", OF say_run]
        py_bind_run(1) [where m = "list_choices _ _" and w = ?w1, OF w2(1)])
  then consider e where "choose_number ''Select node by number: '' (length ?ids) w2 = Some (Inl e, w')" "r = Inl e"
    | k w3 where "choose_number ''Select node by number: '' (length ?ids) w2 = Some (Inr k, w3)"
        "py_bind (py_lift (dict_index (nodes w) (?ids ! (k - 1)))) (\<lambda>node. py_return (Some node)) w3 = Some (r, w')"
    by (auto simp: py_bind_eq_Some)
  then show ?thesis
  proof cases
    case (1 e)
    then show ?thesis
      using choose_number_range [OF 1(1)] console_onlyD [OF console_only_choose 1(1)] f2 framed_trans by auto
  next
    case (2 k w3)
    then have "1 \<le> k" "k \<le> length ?ids" using choose_number_range by blast+
    then have mem: "?ids ! (k - 1) \<in> set ?ids" by (intro nth_mem) simp
    then obtain n where n: "dict_get (nodes w) (?ids ! (k - 1)) = Some n"
      using dict_get_None_iff [of "nodes w"] by fastforce
    then have "n_id n = ?ids ! (k - 1)" using assms(1) by (auto simp: nodes_ok_def)
    then show ?thesis
      using 2(2) n console_onlyD [OF console_only_choose 2(1)] f2 framed_trans
      by (auto simp: dict_index_def py_return_def)
  qed
qed

subsection \<open>Properties of the nodes\<close>

text \<open>Nodes are filed under their ids and always have a name.  Adding a node keeps the two
  dictionaries consistent, whether it succeeds or not, and from consistent dictionaries the choice
  of a node never fails with a missing key: it gives a node that is filed under its id, \<open>None\<close>
  only when there is none, or is interrupted; it changes nothing.\<close>

theorem adding_then_choosing:
  assumes "nodes_ok w" "add_node api eds_files w = Some (r1, w1)" "choose_node w1 = Some (r2, w2)"
  shows "nodes_ok w1 \<and> nodes_ok w2 \<and> nodes w2 = nodes w1 \<and>
     (case r2 of
        Inl e \<Rightarrow> e = Exn KeyboardInterrupt []
      | Inr None \<Rightarrow> nodes w1 = [] \<and> r1 \<noteq> Inr ()
      | Inr (Some n) \<Rightarrow> dict_get (nodes w1) (n_id n) = Some n)"
proof -
  note run = add_node_run [OF assms(2)]
  have ok: "nodes_ok w1"
    using run
  proof (elim disjE exE conjE)
    fix k ref od m
    assume "nodes w1 = dict_put k \<lparr>n_id = k, n_ref = ref, n_od = od\<rparr> (nodes w)"
      "nodes_meta w1 = dict_put k m (nodes_meta w)"
    then show ?thesis using nodes_ok_put [OF assms(1), where k = k and ref = ref and od = od and m = m] by (simp add: nodes_ok_def)
  qed (use assms(1) in \<open>simp add: nodes_ok_def\<close>)
  have ne: "r1 = Inr () \<Longrightarrow> nodes w1 \<noteq> []"
    using run by (metis Inr_Inl_False dict_get_put map_of.simps(1) option.distinct(1))
  show ?thesis
    using choose_node_result [OF ok assms(3)] ok ne
    by (auto simp: framed_nodes_ok framed_co split: sum.splits option.splits)
qed

definition empty_co :: "'d \<Rightarrow> input_line list \<Rightarrow> 'd co_world" where
  "empty_co d ls = \<lparr>dev = d, inp = ls, out = [], cmds = [], nodes = [], nodes_meta = [], monitor = EventMonitor_init\<rparr>"

theorem adding_then_choosing_witness:
  "\<exists>w1 w2 n. add_node (demo_api failing_read) [''eds/a.eds''] (empty_co 0 [Line ''5'', Line ''1'', Line ''1'']) = Some (Inr (), w1) \<and>
     choose_node w1 = Some (Inr (Some n), w2) \<and> n_id n = 5 \<and> nodes_meta w1 = [(5, ''a.eds'')] \<and>
     nodes_ok w1 \<and> nodes w2 = nodes w1"
proof -
  have five: "int_of_str ''5'' = Some 5" by code_simp
  have base: "basename ''eds/a.eds'' = ''a.eds''" by (simp add: basename_def)
  let ?w = "empty_co (0 :: rat) [Line ''5'', Line ''1'', Line ''1'']"
  obtain w1 where w1: "add_node (demo_api failing_read) [''eds/a.eds''] ?w = Some (Inr (), w1)"
    "nodes w1 = [(5, \<lparr>n_id = 5, n_ref = 0, n_od = []\<rparr>)]" "nodes_meta w1 = [(5, ''a.eds'')]" "inp w1 = [Line ''1'']"
    by (simp add: add_node_def choose_eds_def numbered_def enumerate_simps empty_co_def input_Line py_int_def five base
        demo_api_def choose_number_Cons(2) [OF _ int_of_1] say_run dev_call_def command_def record_cmd_def
        py_return_def py_effect_def py_bind_def)
  obtain n w2 where w2: "choose_node w1 = Some (Inr (Some n), w2)" "n_id n = 5"
    using w1(2-4) by (simp add: choose_node_def list_choices_def enumerate_simps dict_index_def
        choose_number_Cons(2) [OF _ int_of_1] say_run py_return_def py_bind_def)
  have "nodes_ok ?w" by (simp add: nodes_ok_def empty_co_def)
  from adding_then_choosing [OF this w1(1) w2(1)] show ?thesis using w1 w2 by blast
qed

subsection \<open>What a PDO carries\<close>

definition var_type :: "pdo_var \<Rightarrow> pytype" where
  "var_type var = (case pv_pytype var of Some t \<Rightarrow> t | None \<Rightarrow> TInt)"

lemma convert_all_spec:
  "convert_all vvs = Inr xs \<longleftrightarrow> list_all2 (\<lambda>vv x. convert (var_type (snd vv)) (fst vv) = Inr x) vvs xs"
proof (induction vvs arbitrary: xs)
  case (Cons vv vvs)
  have step: "convert_all (vv # vvs) = (case convert (var_type (snd vv)) (fst vv) of
      Inl e \<Rightarrow> Inl e | Inr x \<Rightarrow> map_sum id (Cons x) (convert_all vvs))"
    by (cases vv) (simp add: var_type_def)
  show ?case
  proof (cases "convert (var_type (snd vv)) (fst vv)")
    case (Inl e)
    then show ?thesis by (simp add: step list_all2_Cons1)
  next
    case (Inr x)
    have "convert_all (vv # vvs) = Inr xs \<longleftrightarrow> (\<exists>ys. convert_all vvs = Inr ys \<and> xs = x # ys)"
      unfolding step Inr by (cases "convert_all vvs") auto
    then show ?thesis by (auto simp: Cons.IH Inr list_all2_Cons1)
  qed
qed auto

text \<open>(C37) What a PDO carries.  A PDO is sent only when as many values were typed as the PDO maps
  variables and each could be converted to the type of its variable, and then its data are these
  values, one element for each variable, in order.  The width of a variable plays no part, so a
  variable of several bytes still gets one element.\<close>

theorem pdo_carries_one_element_per_variable:
  assumes "transmit_values api node k maps s w = Some (r, w')"
  shows "cmds w' = cmds w \<and> r \<noteq> Inr () \<or>
     cmds w' = cmds w \<and> r = Inr () \<and> length (split_values s) \<noteq> length maps \<or>
     (\<exists>xs. cmds w' = cmds w @ [C_transmit (int k) xs] \<and> length xs = length maps \<and>
        length (split_values s) = length maps \<and>
        list_all2 (\<lambda>vv x. convert (var_type (snd vv)) (fst vv) = Inr x) (zip (split_values s) maps) xs)"
proof (cases "length (split_values s) = length maps")
  case False
  then show ?thesis using assms by (auto simp: transmit_values_def say_run)
next
  case True
  show ?thesis
  proof (cases "convert_all (zip (split_values s) maps)")
    case (Inl e)
    then show ?thesis using assms True by (auto simp: transmit_values_def py_raise_def)
  next
    case (Inr xs)
    have all: "list_all2 (\<lambda>vv x. convert (var_type (snd vv)) (fst vv) = Inr x) (zip (split_values s) maps) xs"
      using Inr by (simp add: convert_all_spec)
    have len: "length xs = length maps" using list_all2_lengthD [OF all] True by simp
    obtain q d where "api_transmit api (n_ref node) k xs (dev w) = (q, d)" by fastforce
    then have "cmds w' = cmds w @ [C_transmit (int k) xs]"
      using assms True Inr
      by (cases q) (auto simp: transmit_values_def command_def record_cmd_def dev_call_def say_run py_simps)
    then show ?thesis using all len True by blast
  qed
qed

theorem pdo_carries_one_element_per_variable_witness:
  "\<exists>w'. transmit_values (demo_api failing_read) demo_node 1
       [\<lparr>pv_name = ''Speed (32 bit)'', pv_pytype = None\<rparr>] ''300'' (empty_co 0 []) = Some (Inr (), w') \<and>
     cmds w' = [C_transmit 1 [RInt 300]] \<and>
     (\<exists>xs. cmds w' = [C_transmit 1 xs] \<and> length xs = 1)"
proof -
  have vals: "split_values ''300'' = [''300'']" and three: "int_of_str ''300'' = Some 300" by code_simp+
  let ?maps = "[\<lparr>pv_name = ''Speed (32 bit)'', pv_pytype = None\<rparr>]"
  obtain w' where w': "transmit_values (demo_api failing_read) demo_node 1 ?maps ''300'' (empty_co (0 :: rat) []) = Some (Inr (), w')"
    "cmds w' = [C_transmit 1 [RInt 300]]"
    by (simp add: transmit_values_def vals three py_int_def demo_api_def command_def record_cmd_def dev_call_def
        say_run empty_co_def py_simps)
  show ?thesis
    using pdo_carries_one_element_per_variable [OF w'(1)] w' by (auto simp: empty_co_def)
qed

end
