(* ===== verification/Event_Monitor.thy ===== *)
theory Event_Monitor
  imports Node_Menu "HOL-Library.Product_Lexorder"
begin

text \<open>
  \<open>class EventMonitor\<close> of \<open>co.py\<close> and the menu entries that subscribe and unsubscribe.  Its two pairs
  of dictionaries, for PDOs and for heartbeats, follow one contract, the locale
  \<open>subscription_table\<close>.  The callbacks run in python-canopen's receive thread: \<open>sub_run\<close> is the
  interleaving of subscribing, events and unsubscribing, and \<open>refresh_step\<close> that of the thread
  that redraws the screen.  Blocks under \<open>self.lock\<close> are one step.
\<close>

subsection \<open>The dictionaries\<close>

text \<open>What a callback does under the lock, what a subscription records, what unsubscribing removes.\<close>

definition pdo_event :: "pdo_key \<Rightarrow> pdo_entry \<Rightarrow> monitor \<Rightarrow> monitor" where
  "pdo_event key entry m = m\<lparr>subscribed_pdos := dict_put key entry (subscribed_pdos m)\<rparr>"

definition pdo_record :: "pdo_key \<Rightarrow> callback \<Rightarrow> monitor \<Rightarrow> monitor" where
  "pdo_record key cb m = m\<lparr>pdo_callbacks := dict_put key cb (pdo_callbacks m)\<rparr>"

definition pdo_forget :: "pdo_key \<Rightarrow> monitor \<Rightarrow> monitor" where
  "pdo_forget key m =
     m\<lparr>subscribed_pdos := dict_pop key (subscribed_pdos m), pdo_callbacks := dict_pop key (pdo_callbacks m)\<rparr>"

definition hb_event :: "int \<Rightarrow> hb_entry \<Rightarrow> monitor \<Rightarrow> monitor" where
  "hb_event node_id entry m = m\<lparr>subscribed_hbs := dict_put node_id entry (subscribed_hbs m)\<rparr>"

definition hb_record :: "int \<Rightarrow> callback \<Rightarrow> monitor \<Rightarrow> monitor" where
  "hb_record node_id cb m = m\<lparr>hb_callbacks := dict_put node_id cb (hb_callbacks m)\<rparr>"

definition hb_forget :: "int \<Rightarrow> monitor \<Rightarrow> monitor" where
  "hb_forget node_id m =
     m\<lparr>subscribed_hbs := dict_pop node_id (subscribed_hbs m), hb_callbacks := dict_pop node_id (hb_callbacks m)\<rparr>"

definition on_monitor :: "(monitor \<Rightarrow> monitor) \<Rightarrow> ('d co_world, unit) py" where
  "on_monitor f = py_effect (\<lambda>w. w\<lparr>monitor := f (monitor w)\<rparr>)"

definition set_refresh :: "monitor \<Rightarrow> monitor" where
  "set_refresh m = m\<lparr>force_refresh := True\<rparr>"

text \<open>The callbacks, as the receive thread runs them: \<open>nodes_meta[node.id]\<close> is read under the lock.\<close>

definition pdo_callback :: "pdo_key \<Rightarrow> raw list \<Rightarrow> rat \<Rightarrow> ('d co_world, unit) py" where
  "pdo_callback key values_read now =
     py_bind get_world (\<lambda>w.
       py_bind (py_lift (dict_index (nodes_meta w) (fst key))) (\<lambda>eds_name.
         py_block [on_monitor (pdo_event key (values_read, now, eds_name)), on_monitor set_refresh]))"

definition hb_callback :: "int \<Rightarrow> raw \<Rightarrow> rat \<Rightarrow> ('d co_world, unit) py" where
  "hb_callback node_id state now =
     py_bind get_world (\<lambda>w.
       py_bind (py_lift (dict_index (nodes_meta w) node_id)) (\<lambda>eds_name.
         py_block [on_monitor (hb_event node_id (state, now, eds_name)), on_monitor set_refresh]))"

text \<open>A new function object each time \<open>subscribe_pdo\<close> or \<open>subscribe_heartbeat\<close> is called.\<close>

definition new_callback :: "int \<Rightarrow> ('d co_world, callback) py" where
  "new_callback node_id w =
     Some (Inr \<lparr>cb_id = next_callback (monitor w), cb_node = node_id\<rparr>,
       w\<lparr>monitor := (monitor w)\<lparr>next_callback := Suc (next_callback (monitor w))\<rparr>\<rparr>)"

subsection \<open>Subscribing and unsubscribing\<close>

definition subscribe_pdo :: "'d node_api \<Rightarrow> node \<Rightarrow> nat \<Rightarrow> ('d co_world, unit) py" where
  "subscribe_pdo api node pdo_num =
     py_bind (new_callback (n_id node)) (\<lambda>cb.
       py_block
         [dev_call (api_add_pdo_callback api (n_ref node) pdo_num (cb_id cb)),
          on_monitor (pdo_record (n_id node, int pdo_num) cb)])"

definition unsubscribe_pdo :: "'d node_api \<Rightarrow> node \<Rightarrow> nat \<Rightarrow> ('d co_world, unit) py" where
  "unsubscribe_pdo api node pdo_num =
     py_bind get_world (\<lambda>w.
       case dict_get (pdo_callbacks (monitor w)) (n_id node, int pdo_num) of
         None \<Rightarrow> py_return ()
       | Some cb \<Rightarrow>
           py_block
             [py_except (dev_call (api_remove_pdo_callback api (n_ref node) pdo_num (cb_id cb))) (\<lambda>e. py_return ()),
              on_monitor (pdo_forget (n_id node, int pdo_num)),
              on_monitor set_refresh])"

text \<open>The method is missing in some versions of the library; then the callback list is used.\<close>

definition subscribe_heartbeat :: "'d node_api \<Rightarrow> node \<Rightarrow> ('d co_world, unit) py" where
  "subscribe_heartbeat api node =
     py_bind (new_callback (n_id node)) (\<lambda>cb.
       py_block
         [(\<lambda>w. case dev_call (api_add_hb_callback api (n_ref node) (cb_id cb)) w of
                 Some (Inl e, w') \<Rightarrow>
                   (if exn_kind e = AttributeError then dev_call (api_append_callback api (n_ref node) (cb_id cb)) w'
                    else Some (Inl e, w'))
               | r \<Rightarrow> r),
          on_monitor (hb_record (n_id node) cb)])"

definition unsubscribe_heartbeat :: "'d node_api \<Rightarrow> node \<Rightarrow> ('d co_world, unit) py" where
  "unsubscribe_heartbeat api node =
     py_bind get_world (\<lambda>w.
       case dict_get (hb_callbacks (monitor w)) (n_id node) of
         None \<Rightarrow> py_return ()
       | Some cb \<Rightarrow>
           py_block
             [py_except
                (if api_has_remove_hb api (n_ref node)
                 then dev_call (api_remove_hb_callback api (n_ref node) (cb_id cb))
                 else dev_call (api_remove_callback api (n_ref node) (cb_id cb)))
                (\<lambda>e. py_return ()),
              on_monitor (hb_forget (n_id node)),
              on_monitor set_refresh])"

subsection \<open>Rendering\<close>

text \<open>\<open>ts.strftime('%H:%M:%S.%f')[:-3]\<close> of a time of day in seconds.\<close>

definition two_digits :: "int \<Rightarrow> string" where
  "two_digits i = zero_pad 2 (nat_str (nat i))"

definition time_text :: "rat \<Rightarrow> string" where
  "time_text ts =
     two_digits (\<lfloor>ts\<rfloor> div 3600 mod 24) @ '':'' @ two_digits (\<lfloor>ts\<rfloor> div 60 mod 60) @ '':'' @
     two_digits (\<lfloor>ts\<rfloor> mod 60) @ ''.'' @ zero_pad 3 (nat_str (nat (\<lfloor>ts * 1000\<rfloor> mod 1000)))"

text \<open>\<open>{value}\<close> of a list.\<close>

fun list_pieces :: "raw list \<Rightarrow> piece list" where
  "list_pieces [] = []"
| "list_pieces [v] = [Val v]"
| "list_pieces (v # vs) = Val v # Txt '', '' # list_pieces vs"

definition pdo_line :: "pdo_key \<times> pdo_entry \<Rightarrow> piece list" where
  "pdo_line = (\<lambda>((node_id, pdo_num), (vals, ts, eds_name)).
     [Txt (''Node '' @ int_str node_id @ '' ('' @ eds_name @ '') - PDO'' @ int_str pdo_num @ '': ['')] @
     list_pieces vals @ [Txt ('']'' @ '', '' @ time_text ts)])"

definition hb_line :: "int \<times> hb_entry \<Rightarrow> piece list" where
  "hb_line = (\<lambda>(node_id, (state, ts, eds_name)).
     [Txt (''Node '' @ int_str node_id @ '' ('' @ eds_name @ ''): state='')] @
     state_text state @ [Txt ('', '' @ time_text ts)])"

definition monitor_text :: "monitor \<Rightarrow> piece list list" where
  "monitor_text m =
     [[Txt (replicate 50 CHR ''='')], [Txt ''=== Subscribed PDOs ===''] ] @
     (if subscribed_pdos m = [] then [[Txt ''(no PDO subscriptions)'']]
      else map pdo_line (sort_key fst (subscribed_pdos m))) @
     [[Txt ''=== Subscribed Heartbeats ===''] ] @
     (if subscribed_hbs m = [] then [[Txt ''(no heartbeat subscriptions)'']]
      else map hb_line (sort_key fst (subscribed_hbs m))) @
     [[Txt (replicate 50 CHR ''='')]]"

definition render_full :: "string \<Rightarrow> ('d co_world, unit) py" where
  "render_full menu_text =
     py_effect (\<lambda>w. w\<lparr>out := out w @ [Clear_screen] @ map Print (monitor_text (monitor w)) @ [Print [Txt menu_text]]\<rparr>)"

subsection \<open>The menu entries\<close>

definition menu_subscribe_tpdo :: "'d node_api \<Rightarrow> ('d co_world, unit) py" where
  "menu_subscribe_tpdo api =
     with_node (\<lambda>node.
       py_except
         (py_bind (dev_call (api_tpdo_count api (n_ref node))) (\<lambda>tpdo_count.
            if tpdo_count = 0 then
              py_block [say ''No TPDOs found in EDS for this node.'', press_enter]
            else
              py_bind (say (''Node has '' @ nat_str tpdo_count @ '' TPDO(s):'')) (\<lambda>_.
              py_bind (py_for [1..<Suc tpdo_count] (\<lambda>i. say (nat_str i @ '') TPDO '' @ nat_str i))) (\<lambda>_.
              py_bind (choose_number (''Select TPDO by number (1..'' @ nat_str tpdo_count @ ''): '') tpdo_count) (\<lambda>pdo_num.
              py_block
                [subscribe_pdo api node pdo_num,
                 say (''Subscribed to Node '' @ int_str (n_id node) @ '' TPDO '' @ nat_str pdo_num @
                   ''. You will now see PDO events in the main menu.''),
                 press_enter])))))
         (\<lambda>e. py_block [say (''Error subscribing to TPDO: '' @ exn_str e), press_enter]))"

definition menu_subscribe_heartbeat :: "'d node_api \<Rightarrow> ('d co_world, unit) py" where
  "menu_subscribe_heartbeat api =
     with_node (\<lambda>node.
       py_except
         (py_block
            [subscribe_heartbeat api node,
             say (''Subscribed to heartbeat of Node '' @ int_str (n_id node) @
               ''. You will now see heartbeat events in the main menu.'')])
         (\<lambda>e. say (''Error subscribing to heartbeat: '' @ exn_str e)))"

definition eds_of :: "(int, string) dict \<Rightarrow> int \<Rightarrow> string" where
  "eds_of meta node_id = (case dict_get meta node_id of None \<Rightarrow> ''?'' | Some m \<Rightarrow> m)"

definition menu_unsubscribe_tpdo :: "'d node_api \<Rightarrow> ('d co_world, unit) py" where
  "menu_unsubscribe_tpdo api =
     py_bind get_world (\<lambda>w.
       let current = dict_keys (subscribed_pdos (monitor w))
       in if current = [] then say ''No active TPDO subscriptions.''
          else
            py_bind (say ''Active TPDO subscriptions:'') (\<lambda>_.
            py_bind (numbered (\<lambda>(node_id, pdo_num). ''Node '' @ int_str node_id @ '' ('' @ eds_of (nodes_meta w) node_id @
                '') - PDO'' @ int_str pdo_num) current) (\<lambda>_.
            py_bind (choose_number ''Select TPDO to unsubscribe by number: '' (length current)) (\<lambda>choice.
              case current ! (choice - 1) of (node_id, pdo_num) \<Rightarrow>
                (case dict_get (nodes w) node_id of
                   Some node \<Rightarrow>
                     py_block
                       [unsubscribe_pdo api node (nat pdo_num),
                        say (''Unsubscribed from Node '' @ int_str node_id @ '' TPDO '' @ int_str pdo_num @ ''.'')]
                 | None \<Rightarrow> say ''Node not found.'')))))"

definition menu_unsubscribe_heartbeat :: "'d node_api \<Rightarrow> ('d co_world, unit) py" where
  "menu_unsubscribe_heartbeat api =
     py_bind get_world (\<lambda>w.
       let current = dict_keys (subscribed_hbs (monitor w))
       in if current = [] then say ''No active heartbeat subscriptions.''
          else
            py_bind (say ''Active heartbeat subscriptions:'') (\<lambda>_.
            py_bind (numbered (\<lambda>node_id. ''Node '' @ int_str node_id @ '' ('' @ eds_of (nodes_meta w) node_id @ '')'')
                current) (\<lambda>_.
            py_bind (choose_number ''Select heartbeat to unsubscribe by number: '' (length current)) (\<lambda>choice.
              let node_id = current ! (choice - 1)
              in case dict_get (nodes w) node_id of
                   Some node \<Rightarrow>
                     py_block
                       [unsubscribe_heartbeat api node,
                        say (''Unsubscribed from Node '' @ int_str node_id @ '' heartbeat.'')]
                 | None \<Rightarrow> say ''Node not found.''))))"

subsection \<open>Interleaving of subscriptions and events\<close>

text \<open>The operations on one pair of dictionaries.\<close>

record ('k, 'v) table =
  t_shown :: "monitor \<Rightarrow> 'k \<Rightarrow> 'v option"
  t_callback :: "monitor \<Rightarrow> 'k \<Rightarrow> callback option"
  t_record :: "'k \<Rightarrow> callback \<Rightarrow> monitor \<Rightarrow> monitor"
  t_event :: "'k \<Rightarrow> 'v \<Rightarrow> monitor \<Rightarrow> monitor"
  t_forget :: "'k \<Rightarrow> monitor \<Rightarrow> monitor"

definition pdo_table :: "(pdo_key, pdo_entry) table" where
  "pdo_table = \<lparr>t_shown = (\<lambda>m. dict_get (subscribed_pdos m)), t_callback = (\<lambda>m. dict_get (pdo_callbacks m)),
     t_record = pdo_record, t_event = pdo_event, t_forget = pdo_forget\<rparr>"

definition hb_table :: "(int, hb_entry) table" where
  "hb_table = \<lparr>t_shown = (\<lambda>m. dict_get (subscribed_hbs m)), t_callback = (\<lambda>m. dict_get (hb_callbacks m)),
     t_record = hb_record, t_event = hb_event, t_forget = hb_forget\<rparr>"

text \<open>
  \<open>held\<close> are the callbacks the library holds, \<open>in_flight\<close> those it has called and that have not got
  the lock yet; one that raises before it changes the dictionary is dropped.  The library calls
  only callbacks that it holds.  In a \<open>tidy\<close> run no key is
  subscribed to twice, and no callback is on its way while it is unsubscribed.
\<close>

record 'k sub_state =
  tbl :: monitor
  held :: "('k \<times> nat) set"
  in_flight :: "('k \<times> nat) set"

inductive sub_run :: "('k, 'v) table \<Rightarrow> bool \<Rightarrow> 'k sub_state \<Rightarrow> bool"
  for T :: "('k, 'v) table" and tidy :: bool where
  sub_init: "sub_run T tidy \<lparr>tbl = EventMonitor_init, held = {}, in_flight = {}\<rparr>"
| sub_subscribe:
    "sub_run T tidy s \<Longrightarrow> tidy \<longrightarrow> t_callback T (tbl s) k = None \<Longrightarrow>
     sub_run T tidy (s\<lparr>tbl := t_record T k cb (tbl s), held := insert (k, cb_id cb) (held s)\<rparr>)"
| sub_called: "sub_run T tidy s \<Longrightarrow> kc \<in> held s \<Longrightarrow> sub_run T tidy (s\<lparr>in_flight := insert kc (in_flight s)\<rparr>)"
| sub_event:
    "sub_run T tidy s \<Longrightarrow> (k, c) \<in> in_flight s \<Longrightarrow>
     sub_run T tidy (s\<lparr>tbl := t_event T k v (tbl s), in_flight := in_flight s - {(k, c)}\<rparr>)"
| sub_dropped:
    "sub_run T tidy s \<Longrightarrow> (k, c) \<in> in_flight s \<Longrightarrow>
     sub_run T tidy (s\<lparr>in_flight := in_flight s - {(k, c)}\<rparr>)"
| sub_unsubscribe:
    "sub_run T tidy s \<Longrightarrow> t_callback T (tbl s) k = Some cb \<Longrightarrow>
     tidy \<longrightarrow> (\<forall>c. (k, c) \<notin> in_flight s) \<Longrightarrow>
     sub_run T tidy (s\<lparr>tbl := t_forget T k (tbl s), held := held s - {(k, cb_id cb)}\<rparr>)"

locale subscription_table =
  fixes T :: "('k, 'v) table"
  assumes init: "t_shown T EventMonitor_init k = None" "t_callback T EventMonitor_init k = None"
    and after_record: "t_shown T (t_record T k cb m) = t_shown T m"
      "t_callback T (t_record T k cb m) = (t_callback T m)(k \<mapsto> cb)"
    and after_event: "t_shown T (t_event T k v m) = (t_shown T m)(k \<mapsto> v)"
      "t_callback T (t_event T k v m) = t_callback T m"
    and after_forget: "t_shown T (t_forget T k m) = (t_shown T m)(k := None)"
      "t_callback T (t_forget T k m) = (t_callback T m)(k := None)"
begin

lemmas laws = init after_record after_event after_forget

text \<open>In a tidy run the library holds for each key just the callback that is recorded.\<close>

lemma tidy_inv:
  "sub_run T True s \<Longrightarrow>
     (\<forall>k c. (k, c) \<in> held s \<longleftrightarrow> (\<exists>cb. t_callback T (tbl s) k = Some cb \<and> cb_id cb = c)) \<and>
     (\<forall>k c. (k, c) \<in> in_flight s \<longrightarrow> t_callback T (tbl s) k \<noteq> None) \<and>
     (\<forall>k. t_shown T (tbl s) k \<noteq> None \<longrightarrow> t_callback T (tbl s) k \<noteq> None)"
proof (induction rule: sub_run.induct)
  case sub_init
  then show ?case by (simp add: laws)
next
  case (sub_subscribe s k cb)
  then show ?case by (auto simp: laws)
next
  case (sub_called s kc)
  then show ?case by (cases kc) (auto simp: laws)
next
  case (sub_event s k c v)
  then show ?case by (auto simp: laws)
next
  case (sub_dropped s k c)
  then show ?case by (auto simp: laws)
next
  case (sub_unsubscribe s k cb)
  then show ?case by (auto simp: laws split: if_splits)
qed

text \<open>In every run the callback recorded for a key is one the library holds.\<close>

lemma recorded_held:
  "sub_run T tidy s \<Longrightarrow> t_callback T (tbl s) k = Some cb \<Longrightarrow> (k, cb_id cb) \<in> held s"
proof (induction arbitrary: k cb rule: sub_run.induct)
  case (sub_unsubscribe s k' cb')
  then show ?case by (auto simp: laws split: if_splits)
qed (auto simp: laws split: if_splits)

lemma tidy_shown: "sub_run T True s \<Longrightarrow> t_shown T (tbl s) k = Some v \<Longrightarrow> \<exists>cb. t_callback T (tbl s) k = Some cb"
  using tidy_inv [of s] by blast

lemma tidy_forgotten:
  "sub_run T True s \<Longrightarrow> t_callback T (tbl s) k = None \<Longrightarrow> (\<forall>c. (k, c) \<notin> held s \<and> (k, c) \<notin> in_flight s)"
  using tidy_inv [of s] by (metis option.distinct(1))

end

interpretation pdo: subscription_table pdo_table
  by unfold_locales
    (auto simp: pdo_table_def pdo_record_def pdo_event_def pdo_forget_def EventMonitor_init_def
      dict_get_put dict_get_pop fun_eq_iff)

interpretation hb: subscription_table hb_table
  by unfold_locales
    (auto simp: hb_table_def hb_record_def hb_event_def hb_forget_def EventMonitor_init_def
      dict_get_put dict_get_pop fun_eq_iff)

lemma table_selectors [simp]:
  "t_shown pdo_table m = dict_get (subscribed_pdos m)" "t_callback pdo_table m = dict_get (pdo_callbacks m)"
  "t_record pdo_table = pdo_record" "t_event pdo_table = pdo_event" "t_forget pdo_table = pdo_forget"
  "t_shown hb_table m = dict_get (subscribed_hbs m)" "t_callback hb_table m = dict_get (hb_callbacks m)"
  "t_record hb_table = hb_record" "t_event hb_table = hb_event" "t_forget hb_table = hb_forget"
  by (simp_all add: pdo_table_def hb_table_def)

subsection \<open>Redrawing the screen\<close>

text \<open>
  The thread of \<open>refresh_loop\<close> (waiting for \<open>force_refresh\<close>, clearing it, asking whether the main
  menu is shown, drawing), the callbacks (changing the data under the lock, then setting the
  event), and the user (in the main menu, in a dialogue, or back and about to draw the menu).
  \<open>data\<close> counts the changes of the data and \<open>screen\<close> is its value at the last drawing.
\<close>

datatype refresher = R_wait | R_clear | R_check | R_render
datatype user_pc = U_menu | U_busy | U_enter

record refresh_state =
  data :: nat
  flag :: bool
  pending :: nat
  rpc :: refresher
  upc :: user_pc
  in_main_menu :: bool
  screen :: nat

inductive refresh_step :: "refresh_state \<Rightarrow> refresh_state \<Rightarrow> bool" where
  cb_change: "refresh_step s (s\<lparr>data := Suc (data s), pending := Suc (pending s)\<rparr>)"
| cb_set: "pending s > 0 \<Longrightarrow> refresh_step s (s\<lparr>flag := True, pending := pending s - 1\<rparr>)"
| r_wake: "rpc s = R_wait \<Longrightarrow> flag s \<Longrightarrow> refresh_step s (s\<lparr>rpc := R_clear\<rparr>)"
| r_clear: "rpc s = R_clear \<Longrightarrow> refresh_step s (s\<lparr>flag := False, rpc := R_check\<rparr>)"
| r_yes: "rpc s = R_check \<Longrightarrow> in_main_menu s \<Longrightarrow> refresh_step s (s\<lparr>rpc := R_render\<rparr>)"
| r_no: "rpc s = R_check \<Longrightarrow> \<not> in_main_menu s \<Longrightarrow> refresh_step s (s\<lparr>rpc := R_wait\<rparr>)"
| r_draw: "rpc s = R_render \<Longrightarrow> refresh_step s (s\<lparr>screen := data s, rpc := R_wait\<rparr>)"
| u_choose: "upc s = U_menu \<Longrightarrow> refresh_step s (s\<lparr>in_main_menu := False, upc := U_busy\<rparr>)"
| u_back: "upc s = U_busy \<Longrightarrow> refresh_step s (s\<lparr>in_main_menu := True, upc := U_enter\<rparr>)"
| u_draw: "upc s = U_enter \<Longrightarrow> refresh_step s (s\<lparr>screen := data s, upc := U_menu\<rparr>)"

definition refresh_init :: refresh_state where
  "refresh_init = \<lparr>data = 0, flag = False, pending = 0, rpc = R_wait, upc = U_enter, in_main_menu = True, screen = 0\<rparr>"

inductive refresh_reach :: "refresh_state \<Rightarrow> bool" where
  reach_init: "refresh_reach refresh_init"
| reach_step: "refresh_reach s \<Longrightarrow> refresh_step s s' \<Longrightarrow> refresh_reach s'"

definition refresh_inv :: "refresh_state \<Rightarrow> bool" where
  "refresh_inv s \<longleftrightarrow>
     (upc s \<noteq> U_busy \<longrightarrow> in_main_menu s) \<and>
     (upc s = U_menu \<longrightarrow> screen s = data s \<or> flag s \<or> pending s > 0 \<or> rpc s = R_check \<or> rpc s = R_render)"

inductive_cases refresh_stepE: "refresh_step s s'"

lemma refresh_reach_inv: "refresh_reach s \<Longrightarrow> refresh_inv s"
proof (induction rule: refresh_reach.induct)
  case reach_init
  then show ?case by (simp add: refresh_inv_def refresh_init_def)
next
  case (reach_step s s')
  then show ?case by (elim refresh_stepE) (auto simp: refresh_inv_def)
qed

subsection \<open>Properties of the monitor\<close>

text \<open>What is shown can be unsubscribed.  When no PDO or heartbeat is subscribed to twice and
  none is on its way while it is unsubscribed, every entry shown has its callback recorded, and
  the callbacks the library holds are exactly those recorded: after unsubscribing, the library
  holds none for that key, so nothing brings the entry back.\<close>

theorem shown_entries_are_subscribed:
  assumes "sub_run pdo_table True s" "sub_run hb_table True s'"
  shows "set (dict_keys (subscribed_pdos (tbl s))) \<subseteq> set (dict_keys (pdo_callbacks (tbl s))) \<and>
     fst ` held s = set (dict_keys (pdo_callbacks (tbl s))) \<and>
     fst ` in_flight s \<subseteq> set (dict_keys (pdo_callbacks (tbl s))) \<and>
     set (dict_keys (subscribed_hbs (tbl s'))) \<subseteq> set (dict_keys (hb_callbacks (tbl s'))) \<and>
     fst ` held s' = set (dict_keys (hb_callbacks (tbl s'))) \<and>
     fst ` in_flight s' \<subseteq> set (dict_keys (hb_callbacks (tbl s')))"
proof -
  have keys: "k \<in> set (dict_keys d) \<longleftrightarrow> (\<exists>v. dict_get d k = Some v)" for d :: "('k, 'v) dict" and k
    using dict_get_None_iff [of d k] by auto
  have sub: "set (dict_keys d) \<subseteq> set (dict_keys c) \<and> fst ` h = set (dict_keys c) \<and> fst ` f \<subseteq> set (dict_keys c)"
    if H: "\<forall>k i. (k, i) \<in> h \<longleftrightarrow> (\<exists>cb. dict_get c k = Some cb \<and> cb_id cb = i)"
      "\<forall>k i. (k, i) \<in> f \<longrightarrow> dict_get c k \<noteq> None" "\<forall>k. dict_get d k \<noteq> None \<longrightarrow> dict_get c k \<noteq> None"
    for c :: "('k, callback) dict" and d :: "('k, 'v) dict" and h f :: "('k \<times> nat) set"
  proof (intro conjI subsetI set_eqI)
    have held: "k \<in> fst ` h \<longleftrightarrow> (\<exists>cb. dict_get c k = Some cb)" for k
    proof
      assume "k \<in> fst ` h"
      then obtain i where "(k, i) \<in> h" by auto
      then show "\<exists>cb. dict_get c k = Some cb" using H(1) by blast
    next
      assume "\<exists>cb. dict_get c k = Some cb"
      then obtain i where "(k, i) \<in> h" using H(1) by blast
      then show "k \<in> fst ` h" by (auto intro: image_eqI [of _ fst "(k, i)"])
    qed
    show "k \<in> fst ` h \<longleftrightarrow> k \<in> set (dict_keys c)" for k unfolding held keys ..
    show "k \<in> set (dict_keys c)" if "k \<in> set (dict_keys d)" for k
      using that \<open>\<forall>k. dict_get d k \<noteq> None \<longrightarrow> dict_get c k \<noteq> None\<close> unfolding keys by auto
    show "k \<in> set (dict_keys c)" if "k \<in> fst ` f" for k
      using that \<open>\<forall>k i. (k, i) \<in> f \<longrightarrow> dict_get c k \<noteq> None\<close> unfolding keys by auto
  qed
  show ?thesis
    using sub [of "held s" "pdo_callbacks (tbl s)" "in_flight s" "subscribed_pdos (tbl s)"]
      sub [of "held s'" "hb_callbacks (tbl s')" "in_flight s'" "subscribed_hbs (tbl s')"]
      pdo.tidy_inv [OF assms(1)] hb.tidy_inv [OF assms(2)] by simp
qed

lemma sub_run_one:
  "sub_run T tidy \<lparr>tbl = t_record T k cb EventMonitor_init, held = {(k, cb_id cb)}, in_flight = {}\<rparr>"
  if "t_callback T EventMonitor_init k = None"
  using sub_subscribe [OF sub_init, where k = k and cb = cb and T = T and tidy = tidy] that by simp

theorem shown_entries_are_subscribed_witness:
  "set (dict_keys (pdo_callbacks (pdo_record (5, 1) \<lparr>cb_id = 0, cb_node = 5\<rparr> EventMonitor_init))) = {(5, 1)}"
  using shown_entries_are_subscribed [OF sub_run_one [where T = pdo_table and k = "(5, 1)" and cb = "\<lparr>cb_id = 0, cb_node = 5\<rparr>"]
      sub_run_one [where T = hb_table and k = 5 and cb = "\<lparr>cb_id = 1, cb_node = 5\<rparr>"]]
  by (simp add: pdo.init hb.init [simplified] EventMonitor_init_def)


text \<open>No update of the main menu is lost.  Whatever the interleaving of callbacks, the thread
  that redraws and the user: when the user is in the main menu and nothing is under way (the
  refresh thread waits, the event is clear and no callback is about to set it), the screen shows
  the present data.\<close>

theorem main_menu_is_up_to_date:
  assumes "refresh_reach s" "upc s = U_menu" "rpc s = R_wait" "\<not> flag s" "pending s = 0"
  shows "screen s = data s"
  using refresh_reach_inv [OF assms(1)] assms(2-) by (simp add: refresh_inv_def)

theorem main_menu_is_up_to_date_witness:
  "screen (refresh_init\<lparr>screen := 0, upc := U_menu\<rparr>) = data refresh_init"
proof -
  have "refresh_reach (refresh_init\<lparr>screen := data refresh_init, upc := U_menu\<rparr>)"
    by (rule reach_step [OF reach_init], rule u_draw) (simp add: refresh_init_def)
  from main_menu_is_up_to_date [OF this] show ?thesis by (simp add: refresh_init_def)
qed

end
