(* ===== verification/Co_Flash.thy ===== *)
theory Co_Flash
  imports Node_Menu Firmware_Update
begin

text \<open>
  The firmware update of \<open>co.py\<close>.  The file has its own copies of the constants, of the object
  dictionary, of the wait for the flash status and of the update; they are modelled as copies here
  and compared with those of the script: every step but the last is the same function, and the
  update sends the same commands to the same effect.  What differs is around it: the dialogue, the node added to the
  network in use, and that an error is shown and not raised.
\<close>

subsection \<open>Constants\<close>

text \<open>The file has its own copies of the constants, too.\<close>

definition co_DEFAULT_TIMEOUT :: rat where "co_DEFAULT_TIMEOUT = 60"
definition co_DEFAULT_SDO_TIMEOUT :: rat where "co_DEFAULT_SDO_TIMEOUT = 10"
definition co_DEFAULT_BUFFER_SIZE :: nat where "co_DEFAULT_BUFFER_SIZE = 1024"
definition co_H1F50_PROGRAM_DATA :: int where "co_H1F50_PROGRAM_DATA = 0x1F50"
definition co_H1F51_PROGRAM_CTRL :: int where "co_H1F51_PROGRAM_CTRL = 0x1F51"
definition co_H1F56_PROGRAM_SWID :: int where "co_H1F56_PROGRAM_SWID = 0x1F56"
definition co_H1F57_FLASH_STATUS :: int where "co_H1F57_FLASH_STATUS = 0x1F57"
definition co_PROGRAM_NUMBER :: int where "co_PROGRAM_NUMBER = 1"
definition co_PROGRAM_CTRL_STOP :: int where "co_PROGRAM_CTRL_STOP = 0x00"
definition co_PROGRAM_CTRL_START :: int where "co_PROGRAM_CTRL_START = 0x01"
definition co_PROGRAM_CTRL_CLEAR :: int where "co_PROGRAM_CTRL_CLEAR = 0x03"
definition co_PROGRAM_CTRL_CONFIRM :: int where "co_PROGRAM_CTRL_CONFIRM = 0x80"

lemma co_constants:
  "co_DEFAULT_TIMEOUT = DEFAULT_TIMEOUT"
  "co_DEFAULT_SDO_TIMEOUT = DEFAULT_SDO_TIMEOUT"
  "co_DEFAULT_BUFFER_SIZE = DEFAULT_BUFFER_SIZE"
  "co_H1F50_PROGRAM_DATA = H1F50_PROGRAM_DATA"
  "co_H1F51_PROGRAM_CTRL = H1F51_PROGRAM_CTRL"
  "co_H1F56_PROGRAM_SWID = H1F56_PROGRAM_SWID"
  "co_H1F57_FLASH_STATUS = H1F57_FLASH_STATUS"
  "co_PROGRAM_NUMBER = PROGRAM_NUMBER"
  "co_PROGRAM_CTRL_STOP = PROGRAM_CTRL_STOP"
  "co_PROGRAM_CTRL_START = PROGRAM_CTRL_START"
  "co_PROGRAM_CTRL_CLEAR = PROGRAM_CTRL_CLEAR"
  "co_PROGRAM_CTRL_CONFIRM = PROGRAM_CTRL_CONFIRM"
  by (simp_all add: flash_consts
      co_DEFAULT_TIMEOUT_def co_DEFAULT_SDO_TIMEOUT_def co_DEFAULT_BUFFER_SIZE_def
      co_H1F50_PROGRAM_DATA_def co_H1F51_PROGRAM_CTRL_def co_H1F56_PROGRAM_SWID_def
      co_H1F57_FLASH_STATUS_def co_PROGRAM_NUMBER_def co_PROGRAM_CTRL_STOP_def
      co_PROGRAM_CTRL_START_def co_PROGRAM_CTRL_CLEAR_def co_PROGRAM_CTRL_CONFIRM_def)

subsection \<open>The copies\<close>

definition co_create_flash_object_dictionary :: "od_array list" where
  "co_create_flash_object_dictionary =
     [\<lparr>arr_name = ''Program data'', arr_index = co_H1F50_PROGRAM_DATA, arr_members =
         [\<lparr>var_name = [], var_index = co_H1F50_PROGRAM_DATA, var_subindex = 1, var_data_type = DOMAIN\<rparr>]\<rparr>,
      \<lparr>arr_name = ''Program control'', arr_index = co_H1F51_PROGRAM_CTRL, arr_members =
         [\<lparr>var_name = [], var_index = co_H1F51_PROGRAM_CTRL, var_subindex = 1, var_data_type = UNSIGNED8\<rparr>]\<rparr>,
      \<lparr>arr_name = ''Program software ID'', arr_index = co_H1F56_PROGRAM_SWID, arr_members =
         [\<lparr>var_name = [], var_index = co_H1F56_PROGRAM_SWID, var_subindex = 1, var_data_type = UNSIGNED32\<rparr>]\<rparr>,
      \<lparr>arr_name = ''Flash error ID'', arr_index = co_H1F57_FLASH_STATUS, arr_members =
         [\<lparr>var_name = [], var_index = co_H1F57_FLASH_STATUS, var_subindex = 1, var_data_type = UNSIGNED32\<rparr>]\<rparr>]"

partial_function (option) co_wait_loop ::
    "'d can_api \<Rightarrow> nat \<Rightarrow> rat \<Rightarrow> int \<Rightarrow> (('d, 'z) world_scheme, int) py" where
  "co_wait_loop api node end_time status w =
     py_bind
       (py_except
          (py_bind (dev_call (api_read api node co_H1F57_FLASH_STATUS co_PROGRAM_NUMBER)) (\<lambda>s. py_return (Some s)))
          (\<lambda>e. py_return None)) (\<lambda>r w1.
       if r = Some 0 then py_return 0 w1
       else py_bind (get_time api) (\<lambda>t w2.
              if t > end_time then py_return (case r of None \<Rightarrow> status | Some s \<Rightarrow> s) w2
              else py_bind (sleep api (1 / 2)) (\<lambda>_ w3.
                     co_wait_loop api node end_time (case r of None \<Rightarrow> status | Some s \<Rightarrow> s) w3) w2) w1) w"

definition co_wait_for_flash_status_ok :: "'d can_api \<Rightarrow> nat \<Rightarrow> rat \<Rightarrow> (('d, 'z) world_scheme, int) py" where
  "co_wait_for_flash_status_ok api node timeout =
     py_bind (get_time api) (\<lambda>t0.
       py_bind (co_wait_loop api node (t0 + timeout) 0xFFFFFFFF) (\<lambda>status.
         py_bind (record_cmd (C_status status)) (\<lambda>_. py_return status)))"

subsection \<open>The update\<close>

definition co_program_ctrl :: "'d can_api \<Rightarrow> nat \<Rightarrow> int \<Rightarrow> (('d, 'z) world_scheme, unit) py" where
  "co_program_ctrl api node v =
     command (C_write co_H1F51_PROGRAM_CTRL co_PROGRAM_NUMBER v)
       (api_write api node co_H1F51_PROGRAM_CTRL co_PROGRAM_NUMBER v)"

definition co_enter_preop :: "'d can_api \<Rightarrow> nat \<Rightarrow> (('d, 'z) world_scheme, unit) py" where
  "co_enter_preop api node =
     command (C_nmt ''PRE-OPERATIONAL'') (api_set_state api node ''PRE-OPERATIONAL'')"

definition co_read_swid :: "'d can_api \<Rightarrow> nat \<Rightarrow> (('d, 'z) world_scheme, unit) py" where
  "co_read_swid api node =
     py_except
       (py_bind (dev_call (api_read api node co_H1F56_PROGRAM_SWID co_PROGRAM_NUMBER))
          (\<lambda>swid. say (newline @ ''[1/6] Current SW ID: '' @ hex08 swid)))
       (\<lambda>e. say (newline @ ''[1/6] Could not read current SW ID''))"

definition co_stop_and_clear :: "'d can_api \<Rightarrow> nat \<Rightarrow> (('d, 'z) world_scheme, unit) py" where
  "co_stop_and_clear api node =
     py_block
       [say ''[3/6] Entering pre-operational mode...'',
        co_enter_preop api node,
        say ''[4/6] Stopping program...'',
        co_program_ctrl api node co_PROGRAM_CTRL_STOP,
        say ''[5/6] Clearing program (this may take a few seconds)...'',
        co_program_ctrl api node co_PROGRAM_CTRL_CLEAR]"

definition co_show_progress :: "nat \<Rightarrow> nat \<Rightarrow> (('d, 'z) world_scheme, unit) py" where
  "co_show_progress bin_size total_sent =
     (if bin_size = 0 then py_raise (Exn ZeroDivisionError ''division by zero'')
      else
        let percent = of_nat total_sent / of_nat bin_size :: rat;
            filled = nat \<lfloor>40 * percent\<rfloor>;
            bar = replicate filled CHR ''#'' @ replicate (40 - filled) CHR ''-''
        in py_effect (\<lambda>w. w\<lparr>out := out w @ [Bar percent bar total_sent bin_size]\<rparr>))"

function co_download :: "'d can_api \<Rightarrow> nat \<Rightarrow> nat \<Rightarrow> nat \<Rightarrow> byte list \<Rightarrow> (('d, 'z) world_scheme, unit) py" where
  "co_download api node bin_size total_sent infile =
     (let chunk = take (co_DEFAULT_BUFFER_SIZE div 2) infile
      in if chunk = [] then py_return ()
         else py_bind (command (C_chunk chunk) (api_chunk api node chunk)) (\<lambda>_.
                py_bind (co_show_progress bin_size (total_sent + length chunk)) (\<lambda>_.
                  co_download api node bin_size (total_sent + length chunk)
                    (drop (co_DEFAULT_BUFFER_SIZE div 2) infile))))"
  by pat_completeness auto
termination
  by (relation "measure (\<lambda>(api, node, size, sent, infile). length infile)")
    (auto simp: co_DEFAULT_BUFFER_SIZE_def)

declare co_download.simps [simp del]

definition co_download_firmware :: "'d can_api \<Rightarrow> files \<Rightarrow> nat \<Rightarrow> string \<Rightarrow> (('d, 'z) world_scheme, unit) py" where
  "co_download_firmware api fs node bin_path =
     py_bind (say ''[6/6] Downloading firmware...'') (\<lambda>_.
       case f_size fs bin_path of
         Inl e \<Rightarrow> py_raise e
       | Inr bin_size \<Rightarrow>
           (case f_data fs bin_path of
              Inl e \<Rightarrow> py_raise e
            | Inr infile \<Rightarrow>
                py_block
                  [command (C_open co_H1F50_PROGRAM_DATA co_PROGRAM_NUMBER co_DEFAULT_BUFFER_SIZE bin_size)
                     (api_open api node co_H1F50_PROGRAM_DATA co_PROGRAM_NUMBER co_DEFAULT_BUFFER_SIZE bin_size),
                   py_finally (co_download api node bin_size 0 infile) (command C_close (api_close api node)),
                   say []]))"

definition co_read_new_swid :: "'d can_api \<Rightarrow> nat \<Rightarrow> (('d, 'z) world_scheme, unit) py" where
  "co_read_new_swid api node =
     py_except
       (py_bind (dev_call (api_read api node co_H1F56_PROGRAM_SWID co_PROGRAM_NUMBER))
          (\<lambda>swid. say (''      New SW ID: '' @ hex08 swid)))
       (\<lambda>e. py_return ())"

definition co_start_program :: "'d can_api \<Rightarrow> nat \<Rightarrow> (('d, 'z) world_scheme, unit) py" where
  "co_start_program api node =
     py_block
       [say ''      Starting program (waiting for boot-up)...'',
        co_program_ctrl api node co_PROGRAM_CTRL_START,
        py_except
          (py_bind (command (C_bootup co_DEFAULT_TIMEOUT) (api_bootup api node co_DEFAULT_TIMEOUT))
             (\<lambda>_. say ''      Boot-up received OK''))
          (\<lambda>e. say ''      Warning: no boot-up message received within timeout'')]"

definition co_confirm_program :: "'d can_api \<Rightarrow> nat \<Rightarrow> (('d, 'z) world_scheme, unit) py" where
  "co_confirm_program api node =
     py_block
       [co_enter_preop api node,
        co_program_ctrl api node co_PROGRAM_CTRL_CONFIRM,
        say (newline @ ''Flash completed successfully!'')]"

definition co_check_status :: "'d can_api \<Rightarrow> nat \<Rightarrow> string \<Rightarrow> string \<Rightarrow> (('d, 'z) world_scheme, unit) py" where
  "co_check_status api node failed ok =
     py_bind (co_wait_for_flash_status_ok api node co_DEFAULT_TIMEOUT) (\<lambda>status.
       if status \<noteq> 0 then py_raise (Exn ValueError (failed @ '': status '' @ hex08 status))
       else say ok)"

definition co_wait_and_warn :: "'d can_api \<Rightarrow> nat \<Rightarrow> (('d, 'z) world_scheme, unit) py" where
  "co_wait_and_warn api node =
     py_bind (say ''[2/6] Waiting for flash status...'') (\<lambda>_.
       py_bind (co_wait_for_flash_status_ok api node co_DEFAULT_TIMEOUT) (\<lambda>status.
         py_when (status \<noteq> 0) (say (''      Warning: flash status '' @ hex08 status))))"

definition co_flash_steps :: "'d can_api \<Rightarrow> files \<Rightarrow> nat \<Rightarrow> string \<Rightarrow> (('d, 'z) world_scheme, unit) py" where
  "co_flash_steps api fs node bin_path =
     py_block
       [co_read_swid api node,
        co_wait_and_warn api node,
        co_stop_and_clear api node,
        co_check_status api node ''Flash clear failed'' ''      Flash cleared OK'',
        co_download_firmware api fs node bin_path,
        co_check_status api node ''Firmware download failed'' ''      Download OK'',
        co_read_new_swid api node,
        co_start_program api node,
        co_confirm_program api node]"

definition co_flash_session :: "'d can_api \<Rightarrow> files \<Rightarrow> int \<Rightarrow> string \<Rightarrow> (('d, 'z) world_scheme, unit) py" where
  "co_flash_session api fs node_id bin_path =
     py_bind (command (C_add_node node_id) (api_add_node api node_id co_create_flash_object_dictionary)) (\<lambda>flash_node.
       py_block
         [dev_call (\<lambda>d. (Inr (), api_timeouts api flash_node co_DEFAULT_SDO_TIMEOUT None d)),
          py_except (co_flash_steps api fs flash_node bin_path)
            (\<lambda>e. say (newline @ ''Flash error: '' @ exn_str e)),
          press_enter])"

text \<open>The dialogue before it.\<close>

definition co_flash_firmware :: "'d node_api \<Rightarrow> files \<Rightarrow> ('d co_world, unit) py" where
  "co_flash_firmware api fs =
     py_bind choose_node (\<lambda>r.
       case r of
         None \<Rightarrow> py_block [say ''Add the node first with option 1.'', press_enter]
       | Some node \<Rightarrow>
           py_bind (py_input ''Enter path to firmware .bin file: '') (\<lambda>s.
             let bin_path = strip s
             in if \<not> f_isfile fs bin_path then
                  py_block [say (''Error: file not found: '' @ bin_path), press_enter]
                else
                  py_bind (py_input (''Flash node '' @ int_str (n_id node) @ '' with '' @ basename bin_path @ ''? (y/N): '')) (\<lambda>s.
                    if lower (strip s) \<noteq> ''y'' then py_block [say ''Flash cancelled.'', press_enter]
                    else co_flash_session (base api) fs (n_id node) bin_path)))"

subsection \<open>The copies are the script's\<close>

lemma co_wait_loop_turn:
  "co_wait_loop api node end_time status w =
     py_bind (try_status api node) (\<lambda>r w1.
       if r = Some 0 then py_return 0 w1
       else py_bind (get_time api) (\<lambda>t w2.
              if t > end_time then py_return (case r of None \<Rightarrow> status | Some s \<Rightarrow> s) w2
              else py_bind (sleep api (1 / 2)) (\<lambda>_ w3.
                     co_wait_loop api node end_time (case r of None \<Rightarrow> status | Some s \<Rightarrow> s) w3) w2) w1) w"
  unfolding try_status_def co_constants(4-8) [symmetric] by (rule co_wait_loop.simps)

text \<open>A larger continuation gives a larger result.\<close>

lemma py_bind_le:
  "py_bind m f w = Some y \<Longrightarrow> (\<And>x v. f x v = Some y \<Longrightarrow> g x v = Some y) \<Longrightarrow> py_bind m g w = Some y"
  by (cases y) (auto simp: py_bind_eq_Some)

lemma wait_turn_le:
  assumes run: "py_bind (try_status api node) (\<lambda>r w1.
       if r = Some 0 then py_return 0 w1
       else py_bind (get_time api) (\<lambda>t w2.
              if t > end_time then py_return (case r of None \<Rightarrow> status | Some s \<Rightarrow> s) w2
              else py_bind (sleep api (1 / 2)) (\<lambda>_ w3. k (case r of None \<Rightarrow> status | Some s \<Rightarrow> s) w3) w2) w1) w = Some y"
    and le: "\<And>s v. k s v = Some y \<Longrightarrow> k' s v = Some y"
  shows "py_bind (try_status api node) (\<lambda>r w1.
       if r = Some 0 then py_return 0 w1
       else py_bind (get_time api) (\<lambda>t w2.
              if t > end_time then py_return (case r of None \<Rightarrow> status | Some s \<Rightarrow> s) w2
              else py_bind (sleep api (1 / 2)) (\<lambda>_ w3. k' (case r of None \<Rightarrow> status | Some s \<Rightarrow> s) w3) w2) w1) w = Some y"
proof (rule py_bind_le [OF run])
  fix r w1
  assume turn: "(if r = Some 0 then py_return 0 w1
       else py_bind (get_time api) (\<lambda>t w2.
              if t > end_time then py_return (case r of None \<Rightarrow> status | Some s \<Rightarrow> s) w2
              else py_bind (sleep api (1 / 2)) (\<lambda>_ w3. k (case r of None \<Rightarrow> status | Some s \<Rightarrow> s) w3) w2) w1) = Some y"
  show "(if r = Some 0 then py_return 0 w1
       else py_bind (get_time api) (\<lambda>t w2.
              if t > end_time then py_return (case r of None \<Rightarrow> status | Some s \<Rightarrow> s) w2
              else py_bind (sleep api (1 / 2)) (\<lambda>_ w3. k' (case r of None \<Rightarrow> status | Some s \<Rightarrow> s) w3) w2) w1) = Some y"
    using turn by (cases "r = Some 0") (auto elim!: py_bind_le split: if_splits intro: le)
qed

lemma co_wait_loop_eq: "co_wait_loop = wait_loop"
proof (intro ext)
  fix api :: "'a can_api" and node end_time status and w :: "('a, 'b) world_scheme"
  have 1: "wait_loop api node end_time status w = Some y \<Longrightarrow> co_wait_loop api node end_time status w = Some y" for y
  proof (rule wait_loop.raw_induct [where P = "\<lambda>api node e s w y. co_wait_loop api node e s w = Some y"], goal_cases)
    case (1 loop api node e s w y)
    then show ?case by (subst co_wait_loop_turn) (erule wait_turn_le)
  qed
  have 2: "co_wait_loop api node end_time status w = Some y \<Longrightarrow> wait_loop api node end_time status w = Some y" for y
  proof (rule co_wait_loop.raw_induct [where P = "\<lambda>api node e s w y. wait_loop api node e s w = Some y"], goal_cases)
    case (1 loop api node e s w y)
    then show ?case by (subst wait_loop.simps) (unfold co_constants, fold try_status_def, erule wait_turn_le)
  qed
  show "co_wait_loop api node end_time status w = wait_loop api node end_time status w"
    using 1 2 by (metis not_Some_eq)
qed

lemma co_download_eq: "co_download api node bin_size sent infile = download api node bin_size sent infile"
proof (induction api node bin_size sent infile rule: download.induct)
  case (1 api node bin_size sent infile)
  then show ?case
    by (subst co_download.simps, subst download.simps)
      (simp add: co_constants co_show_progress_def show_progress_def Let_def)
qed

lemma co_copies:
  "co_wait_for_flash_status_ok = wait_for_flash_status_ok" "co_check_status = check_status"
  "co_wait_and_warn = wait_and_warn" "co_create_flash_object_dictionary = create_flash_object_dictionary"
  "co_program_ctrl = program_ctrl" "co_enter_preop = enter_preop" "co_read_swid = read_swid"
  "co_stop_and_clear = stop_and_clear" "co_download_firmware = download_firmware"
  "co_read_new_swid = read_new_swid" "co_start_program = start_program"
proof -
  show wait: "co_wait_for_flash_status_ok = wait_for_flash_status_ok"
    by (intro ext) (simp add: co_wait_for_flash_status_ok_def wait_for_flash_status_ok_def co_wait_loop_eq)
  show ctrl: "co_program_ctrl = program_ctrl"
    by (intro ext) (simp add: co_program_ctrl_def program_ctrl_def co_constants)
  show preop: "co_enter_preop = enter_preop"
    by (intro ext) (simp add: co_enter_preop_def enter_preop_def)
  show "co_check_status = check_status"
    by (intro ext) (simp add: co_check_status_def check_status_def wait co_constants)
  show "co_wait_and_warn = wait_and_warn"
    by (intro ext) (simp add: co_wait_and_warn_def wait_and_warn_def wait co_constants)
  show "co_create_flash_object_dictionary = create_flash_object_dictionary"
    by (simp add: co_create_flash_object_dictionary_def create_flash_object_dictionary_def co_constants)
  show "co_read_swid = read_swid" "co_read_new_swid = read_new_swid"
    by (intro ext; simp add: co_read_swid_def read_swid_def co_read_new_swid_def read_new_swid_def co_constants)+
  show "co_stop_and_clear = stop_and_clear" "co_start_program = start_program"
    by (intro ext; simp add: co_stop_and_clear_def stop_and_clear_def co_start_program_def start_program_def
        ctrl preop co_constants)+
  show "co_download_firmware = download_firmware"
    unfolding co_download_firmware_def download_firmware_def co_download_eq co_constants by (rule HOL.refl)
qed

interpretation co: status_wait co_wait_for_flash_status_ok
  unfolding co_copies by (rule fw.status_wait_axioms)

subsection \<open>The two updates compared\<close>

text \<open>Two outcomes that differ in what was printed only.\<close>

fun same_effect ::
    "((exn + 'a) \<times> ('d, 'z) world_scheme) option \<Rightarrow> ((exn + 'a) \<times> ('d, 'z) world_scheme) option \<Rightarrow> bool" where
  "same_effect None None = True"
| "same_effect (Some (r, w)) (Some (r', w')) \<longleftrightarrow> r = r' \<and> dev w = dev w' \<and> inp w = inp w' \<and> cmds w = cmds w'"
| "same_effect _ _ = False"

lemma same_effect_refl: "same_effect x x"
  by (cases x) auto

lemma same_effect_bind:
  "(\<And>x v. same_effect (f x v) (g x v)) \<Longrightarrow> same_effect (py_bind m f w) (py_bind m g w)"
  by (simp add: py_bind_def same_effect_refl split: option.split sum.split)

lemma confirm_same_effect: "same_effect (confirm_program api node w) (co_confirm_program api node w)"
proof -
  have "same_effect (py_bind (enter_preop api node) (\<lambda>_. py_bind (say a) (\<lambda>_. py_bind (program_ctrl api node v) (\<lambda>_. say b)))
         (w\<lparr>out := x\<rparr>))
       (py_bind (enter_preop api node) (\<lambda>_. py_bind (program_ctrl api node v) (\<lambda>_. say b')) w)" for a b b' v x
    by (simp add: enter_preop_def program_ctrl_def command_def record_cmd_def dev_call_def say_run py_simps
        split: prod.splits sum.splits)
  then show ?thesis
    unfolding confirm_program_def co_confirm_program_def co_copies co_constants py_block.simps py_bind_return_unit
    by (simp add: py_bind_run(1) [where m = "say _", OF say_run])
qed

lemma same_effect_emits:
  assumes "emits m S" "\<And>w. same_effect (m w) (n w)"
  shows "emits n S"
  unfolding emits_def
proof (intro allI impI)
  fix w r w' assume n: "n w = Some (r, w')"
  with assms(2) [of w] obtain v where "m w = Some (r, v)" "cmds v = cmds w'"
    by (cases "m w") (auto elim!: same_effect.elims)
  then show "\<exists>cs. cmds w' = cmds w @ cs \<and> S r cs" using emitsD [OF assms(1)] by metis
qed

lemma co_flash_steps_effect: "same_effect (flash_steps api fs node path w) (co_flash_steps api fs node path w)"
proof -
  let ?steps = "[read_swid api node, wait_and_warn api node, stop_and_clear api node,
      check_status api node ''Flash clear failed'' ''      Flash cleared OK'', download_firmware api fs node path,
      check_status api node ''Firmware download failed'' ''      Download OK'', read_new_swid api node,
      start_program api node]"
  have eq: "flash_steps api fs node path = py_bind (py_block ?steps) (\<lambda>_. confirm_program api node)"
    "co_flash_steps api fs node path = py_bind (py_block ?steps) (\<lambda>_. co_confirm_program api node)"
    unfolding flash_steps_def co_flash_steps_def co_copies by (simp_all add: py_bind_assoc py_bind_return_unit)
  show ?thesis unfolding eq by (rule same_effect_bind) (rule confirm_same_effect)
qed

lemma co_flash_steps_emits:
  assumes "f_size fs path = Inr sz" "f_data fs path = Inr data"
  shows "emits (co_flash_steps api fs node path)
     (\<lambda>r cs. \<exists>s1. if isl r then flash_stopped s1 sz data cs else cs = flash_log s1 sz data)"
  by (rule same_effect_emits [OF flash_steps_emits [OF assms] co_flash_steps_effect])

text \<open>(C14) Both tools update a node in the same way.  From the same state of the network, the steps
  of \<open>co.py\<close> have the same effect as those of the script: they return in the same cases, with the
  same result or exception, after the same commands, and leave the network in the same state.\<close>

theorem both_tools_flash_alike:
  "same_effect (flash_steps api fs node path w) (co_flash_steps api fs node path w)"
  by (rule co_flash_steps_effect)

text \<open>The update of \<open>co.py\<close> sends a node added under the same id, then the sequence of an update
  or a part of it, and it never disconnects the network.  A failure of a step does not end the
  program: it is shown, and the only \<open>Exception\<close>s that leave the update are that of adding the node
  and the end of the input.\<close>

theorem co_update_effect:
  assumes "f_size fs path = Inr sz" "f_data fs path = Inr data"
    and "co_flash_session api fs node_id path w = Some (r, w')"
  shows "\<exists>issued. cmds w' = cmds w @ issued \<and> C_disconnect \<notin> set issued \<and>
     ((\<exists>e. r = Inl e \<and> issued = [C_add_node node_id]) \<or>
      (\<exists>s1 cs. flash_stopped s1 sz data cs \<and> issued = C_add_node node_id # cs \<and>
         (case r of Inr _ \<Rightarrow> True | Inl e \<Rightarrow> \<not> is_exception e \<or> exn_kind e = EOFError)))"
proof -
  let ?left = "\<lambda>r. case r of Inr _ \<Rightarrow> True | Inl e \<Rightarrow> \<not> is_exception e \<or> exn_kind e = EOFError"
  have full: "flash_stopped s1 sz data (flash_log s1 sz data)" for s1 by (simp add: flash_stopped_def)
  have no: "C_disconnect \<notin> set cs" if "flash_stopped s1 sz data cs" for s1 cs
    using that unfolding flash_stopped_def
    by (auto simp: flash_log_def prepare_log_def image_log_def finish_log_def dest!: set_mono_prefix)
  have enter: "emits press_enter (\<lambda>r cs. cs = [] \<and> ?left r)"
    unfolding press_enter_def emits_def
    by (auto simp: ask_def say_run py_simps Let_def split: list.splits input_line.splits)
  have steps: "emits (py_except (co_flash_steps api fs node path) (\<lambda>e. say (newline @ ''Flash error: '' @ exn_str e)))
      (\<lambda>r cs. \<exists>s1. flash_stopped s1 sz data cs \<and> (case r of Inr _ \<Rightarrow> True | Inl e \<Rightarrow> \<not> is_exception e))" for node
  proof (rule emits_weaken, rule emits_except [OF co_flash_steps_emits [OF assms(1,2)]])
    show "emits (say (newline @ ''Flash error: '' @ exn_str e)) (\<lambda>r cs. r = Inr () \<and> cs = [])" for e
      by (simp add: emits_def say_run)
  qed (use full in \<open>auto split: if_splits sum.splits\<close>)
  have "emits (co_flash_session api fs node_id path) (\<lambda>r cs.
      (\<exists>e. r = Inl e \<and> cs = [C_add_node node_id]) \<or>
      (\<exists>s1 ds. flash_stopped s1 sz data ds \<and> cs = C_add_node node_id # ds \<and> ?left r))"
    unfolding co_flash_session_def py_block.simps py_bind_return_unit
    by (rule emits_weaken, rule emits_bind [OF always_command [unfolded always_def]
          emits_bind [OF always_quiet(3) [unfolded always_def] emits_bind [OF steps enter]]])
      (fastforce split: sum.splits)
  from emitsD [OF this assms(3)] no show ?thesis by fastforce
qed

theorem co_update_effect_witness:
  "\<exists>r w' s1 cs. co_flash_session prompt_node (one_file ''f'' [7]) 5 ''f'' (fresh_world 0 []) = Some (r, w') \<and>
     flash_stopped s1 1 [7] cs \<and> cmds w' = C_add_node 5 # cs"
proof -
  have "co_flash_session prompt_node (one_file ''f'' [7]) 5 ''f'' (fresh_world 0 []) \<noteq> None"
    unfolding co_flash_session_def press_enter_def co_flash_steps_def
    by (simp add: flash_run_simps ask_def co_copies co_confirm_program_def co_constants prompt_wait one_file_def fresh_world_def
        flash_consts Let_def)
  then obtain r w' where run: "co_flash_session prompt_node (one_file ''f'' [7]) 5 ''f'' (fresh_world 0 []) = Some (r, w')"
    by auto
  have files: "f_size (one_file ''f'' [7]) ''f'' = Inr 1" "f_data (one_file ''f'' [7]) ''f'' = Inr [7]"
    by (simp_all add: one_file_def)
  have "cmds w' \<noteq> [C_add_node 5]"
    using run unfolding co_flash_session_def press_enter_def co_flash_steps_def
    by (auto simp: flash_run_simps ask_def co_copies co_confirm_program_def co_constants prompt_wait one_file_def fresh_world_def
        flash_consts Let_def)
  then show ?thesis
    using co_update_effect [OF files run] run by (auto simp: fresh_world_def)
qed

end
