(* ===== verification/Menu_Relations.thy ===== *)
theory Menu_Relations
  imports Event_Monitor Co_Flash
begin

text \<open>
  What the statements of \<open>co.py\<close> keep.  \<open>obeys R m\<close> says that every run of \<open>m\<close> is a step of the
  relation \<open>R\<close> on worlds.  The locale \<open>tool_relation\<close> states what a relation has to allow (console,
  calls into the library, every command but disconnecting), and then every entry of the menu that
  leaves the node and monitor dictionaries alone obeys it; \<open>node_relation\<close> and \<open>menu_relation\<close> add
  changes of these dictionaries, and with them all other entries but the exit.  Two relations matter: that the
  network stays connected, and that the dictionaries stay as they are.
\<close>

definition obeys :: "('w \<Rightarrow> 'w \<Rightarrow> bool) \<Rightarrow> ('w, 'a) py \<Rightarrow> bool" where
  "obeys R m \<longleftrightarrow> (\<forall>w r w'. m w = Some (r, w') \<longrightarrow> R w w')"

lemma obeysI: "(\<And>w r w'. m w = Some (r, w') \<Longrightarrow> R w w') \<Longrightarrow> obeys R m"
  by (simp add: obeys_def)

lemma obeysD: "obeys R m \<Longrightarrow> m w = Some (r, w') \<Longrightarrow> R w w'"
  by (simp add: obeys_def)

locale run_relation =
  fixes R :: "'w \<Rightarrow> 'w \<Rightarrow> bool"
  assumes refl: "R w w"
    and trans: "R u v \<Longrightarrow> R v w \<Longrightarrow> R u w"
begin

lemma obeys_basic: "obeys R (py_return x)" "obeys R (py_raise e)" "obeys R (py_lift r)"
  by (simp_all add: obeys_def py_return_def py_raise_def py_lift_def refl)

lemma obeys_bind:
  assumes "obeys R m" "\<And>x. obeys R (f x)"
  shows "obeys R (py_bind m f)"
proof (rule obeysI)
  fix w r w'
  assume "py_bind m f w = Some (r, w')"
  then consider e where "m w = Some (Inl e, w')" | x v where "m w = Some (Inr x, v)" "f x v = Some (r, w')"
    by (auto simp: py_bind_eq_Some)
  then show "R w w'"
    by cases (rule obeysD [OF assms(1)], assumption, rule trans, rule obeysD [OF assms(1)], assumption,
        rule obeysD [OF assms(2)])
qed

lemma obeys_except:
  assumes "obeys R m" "\<And>e. obeys R (h e)"
  shows "obeys R (py_except m h)"
proof (rule obeysI)
  fix w r w'
  assume "py_except m h w = Some (r, w')"
  then consider "m w = Some (r, w')" | e v where "m w = Some (Inl e, v)" "h e v = Some (r, w')"
    by (auto simp: py_except_def split: option.splits sum.splits if_splits)
  then show "R w w'"
    by cases (rule obeysD [OF assms(1)], assumption, rule trans, rule obeysD [OF assms(1)], assumption,
        rule obeysD [OF assms(2)])
qed

lemma obeys_finally:
  assumes "obeys R m" "obeys R c"
  shows "obeys R (py_finally m c)"
proof (rule obeysI)
  fix w r w'
  assume "py_finally m c w = Some (r, w')"
  then obtain a v b where "m w = Some (a, v)" "c v = Some (b, w')"
    by (auto simp: py_finally_def split: option.splits sum.splits)
  then show "R w w'" by (intro trans [OF obeysD [OF assms(1)] obeysD [OF assms(2)]])
qed

lemma obeys_block: "(\<And>m. m \<in> set ms \<Longrightarrow> obeys R m) \<Longrightarrow> obeys R (py_block ms)"
  by (induction ms) (auto intro: obeys_basic obeys_bind)

lemma obeys_for: "(\<And>x. obeys R (f x)) \<Longrightarrow> obeys R (py_for xs f)"
  unfolding py_for_def by (rule obeys_block) auto

lemma obeys_when: "obeys R m \<Longrightarrow> obeys R (py_when b m)"
  by (simp add: py_when_def obeys_basic)

lemma obeys_get_world: "obeys R get_world"
  by (simp add: obeys_def get_world_def refl)

lemma obeys_attribute_error:
  assumes "obeys R m" "obeys R n"
  shows "obeys R (\<lambda>w. case m w of
      Some (Inl e, w') \<Rightarrow> (if exn_kind e = AttributeError then n w' else Some (Inl e, w')) | r \<Rightarrow> r)"
proof (rule obeysI)
  fix w r w'
  assume "(case m w of Some (Inl e, w') \<Rightarrow> (if exn_kind e = AttributeError then n w' else Some (Inl e, w')) | r \<Rightarrow> r) =
    Some (r, w')"
  then consider "m w = Some (r, w')" | e v where "m w = Some (Inl e, v)" "n v = Some (r, w')"
    by (auto split: option.splits sum.splits prod.splits if_splits)
  then show "R w w'"
    by cases (rule obeysD [OF assms(1)], assumption, rule trans, rule obeysD [OF assms(1)], assumption,
        rule obeysD [OF assms(2)])
qed

lemmas obeys_combinators = obeys_basic obeys_bind obeys_except obeys_finally obeys_block obeys_for obeys_when
  obeys_get_world

end

subsection \<open>Entries that leave the dictionaries alone\<close>

locale tool_relation = run_relation R for R :: "'d co_world \<Rightarrow> 'd co_world \<Rightarrow> bool" +
  assumes console: "framed w w' \<Longrightarrow> R w w'"
    and device: "R w (w\<lparr>dev := d\<rparr>)"
    and history: "c \<noteq> C_disconnect \<Longrightarrow> R w (w\<lparr>cmds := cmds w @ [c]\<rparr>)"
begin

lemma obeys_console: "console_only m \<Longrightarrow> obeys R m"
  unfolding console_only_def obeys_def by (blast intro: console)

lemma obeys_dev_call: "obeys R (dev_call f)"
  by (rule obeysI) (auto simp: dev_call_def device split: prod.splits)

lemma obeys_record: "c \<noteq> C_disconnect \<Longrightarrow> obeys R (record_cmd c)"
  by (rule obeysI) (auto simp: record_cmd_def py_effect_def history)

lemma obeys_command: "c \<noteq> C_disconnect \<Longrightarrow> obeys R (command c f)"
  unfolding command_def by (intro obeys_bind obeys_record obeys_dev_call)

lemma obeys_print:
  "obeys R (say s)" "obeys R (print_out ps)" "obeys R (ask p)" "obeys R (py_input q)"
  "obeys R (choose_number q n)" "obeys R (numbered g xs)" "obeys R (choose_eds eds)"
  by (intro obeys_console console_only_rules choose_eds_console)+

lemma obeys_press_enter: "obeys R press_enter"
  unfolding press_enter_def by (intro obeys_bind obeys_print obeys_basic)

lemma obeys_clear: "obeys R (py_effect (\<lambda>w. w\<lparr>out := out w @ os\<rparr>))"
  by (rule obeysI) (auto simp: py_effect_def intro: console framed_update)

lemmas obeys_rules = obeys_combinators obeys_dev_call obeys_command obeys_print obeys_press_enter obeys_clear

lemma obeys_choose_node: "obeys R choose_node"
proof -
  have body: "obeys R (if nodes v = [] then
        py_bind (say ''No nodes found. Please add a node first.'') (\<lambda>_. py_return None)
      else
        let node_ids = dict_keys (nodes v)
        in py_bind (say ''Available nodes:'') (\<lambda>_.
             py_bind (list_choices node_ids (nodes_meta v)) (\<lambda>_.
               py_bind (choose_number ''Select node by number: '' (length node_ids)) (\<lambda>choice.
                 py_bind (py_lift (dict_index (nodes v) (node_ids ! (choice - 1)))) (\<lambda>node.
                   py_return (Some node))))))" for v :: "'d co_world"
    unfolding Let_def list_choices_def by (auto intro!: obeys_rules split: prod.split)
  show ?thesis
  proof (rule obeysI)
    fix w w' :: "'d co_world" and r
    show "choose_node w = Some (r, w') \<Longrightarrow> R w w'"
      using obeysD [OF body [of w], of w r w'] by (cases "nodes w = []") (simp_all add: choose_node_def Let_def)
  qed
qed

lemma obeys_with_node: "(\<And>n. obeys R (f n)) \<Longrightarrow> obeys R (with_node f)"
  unfolding with_node_def by (auto intro!: obeys_rules obeys_choose_node split: option.split)

lemma obeys_sdo:
  "obeys R (sdo_get api n i s)" "obeys R (sdo_set api n i s v)" "obeys R (choose_od_entry n)"
  unfolding sdo_get_def sdo_set_def choose_od_entry_def Let_def by (auto intro!: obeys_rules)

lemmas obeys_co = obeys_rules obeys_with_node obeys_choose_node obeys_sdo

lemma obeys_read_sdo: "obeys R (read_sdo api n)"
  unfolding read_sdo_def read_entries_def by (auto intro!: obeys_co split: prod.split)

lemma obeys_write_sdo: "obeys R (write_sdo api n)"
proof -
  have "obeys R (write_bytes api n i obj)" "obeys R (write_elements api n i obj)"
    "obeys R (write_record api n i obj)" "obeys R (write_var api n i obj)" for i obj
    unfolding write_bytes_def write_elements_def write_element_def write_record_def write_field_def write_var_def Let_def
    by (auto intro!: obeys_co split: prod.split)
  then show ?thesis unfolding write_sdo_def by (auto intro!: obeys_co split: prod.split)
qed

lemma obeys_node_menu:
  "obeys R (send_nmt api)" "obeys R (send_pdo api)" "obeys R (show_node_state api)" "obeys R show_node_od_info"
  unfolding send_nmt_def send_pdo_def transmit_values_def show_node_state_def show_node_od_info_def Let_def
  by (auto intro!: obeys_co split: prod.split)

lemma obeys_list_nodes: "obeys R list_nodes"
proof -
  have body: "obeys R (py_block
       [py_effect (\<lambda>w. w\<lparr>out := out w @ [Clear_screen]\<rparr>),
        if nodes v = [] then say ''No nodes have been added yet.''
        else py_block
          [say ''=== Added Nodes ==='',
           py_for (dict_keys (nodes v)) (\<lambda>node_id.
             say (''Node ID '' @ int_str node_id @ '' - '' @
               (case dict_get (nodes_meta v) node_id of None \<Rightarrow> ''?'' | Some m \<Rightarrow> m))),
           say (replicate 24 CHR ''='')],
        press_enter])" for v :: "'d co_world"
    by (auto intro!: obeys_co)
  show ?thesis
  proof (rule obeysI)
    fix w w' :: "'d co_world" and r
    show "list_nodes w = Some (r, w') \<Longrightarrow> R w w'"
      using obeysD [OF body [of w], of w r w'] by (simp add: list_nodes_def)
  qed
qed

lemma obeys_wait_loop: "obeys R (wait_loop can n e s)"
proof (rule obeysI)
  fix w w' :: "'d co_world" and r
  assume run: "wait_loop can n e s w = Some (r, w')"
  have "R w (snd (r, w'))"
  proof (rule wait_loop.raw_induct [where P = "\<lambda>can n e s w y. R w (snd y)", OF _ run], goal_cases)
    case (1 loop can n e s w y)
    have att: "obeys R (try_status can n)" unfolding try_status_def by (intro obeys_rules)
    have step: "obeys R (sleep can t)" "obeys R (get_time can)" for t
      unfolding sleep_def get_time_def by (intro obeys_rules)+
    obtain r w' where y: "y = (r, w')" by fastforce
    have loop: "obeys R (\<lambda>w. loop can n e s w)" for s using "1"(1) by (force simp: obeys_def)
    have "obeys R (py_bind (try_status can n) (\<lambda>r w1.
       if r = Some 0 then py_return 0 w1
       else py_bind (get_time can) (\<lambda>t w2.
              if t > e then py_return (case r of None \<Rightarrow> s | Some s \<Rightarrow> s) w2
              else py_bind (sleep can (1 / 2)) (\<lambda>_ w3.
                     loop can n e (case r of None \<Rightarrow> s | Some s \<Rightarrow> s) w3) w2) w1))"
    proof (rule obeys_bind [OF att])
      fix r :: "int option"
      show "obeys R (\<lambda>w1. if r = Some 0 then py_return 0 w1
       else py_bind (get_time can) (\<lambda>t w2.
              if t > e then py_return (case r of None \<Rightarrow> s | Some s \<Rightarrow> s) w2
              else py_bind (sleep can (1 / 2)) (\<lambda>_ w3.
                     loop can n e (case r of None \<Rightarrow> s | Some s \<Rightarrow> s) w3) w2) w1)"
      proof (cases "r = Some 0")
        case False
        have rest: "obeys R (\<lambda>w2. if t > e then py_return (case r of None \<Rightarrow> s | Some s \<Rightarrow> s) w2
              else py_bind (sleep can (1 / 2)) (\<lambda>_ w3.
                     loop can n e (case r of None \<Rightarrow> s | Some s \<Rightarrow> s) w3) w2)" for t
          using obeys_basic(1) obeys_bind [OF step(1) loop] by (cases "t > e") simp_all
        show ?thesis using obeys_bind [OF step(2) rest] False by simp
      qed (simp add: obeys_basic)
    qed
    from obeysD [OF this "1"(2) [unfolded y]] show ?case by (simp add: y)
  qed
  then show "R w w'" by simp
qed

lemma obeys_wait: "obeys R (wait_for_flash_status_ok can n t)"
  unfolding wait_for_flash_status_ok_def get_time_def
  by (intro obeys_rules obeys_wait_loop obeys_record) simp

lemma obeys_download: "obeys R (download can n sz sent infile)"
proof (induction can n sz sent infile rule: download.induct)
  case (1 can n sz sent infile)
  have "obeys R (show_progress sz k)" for k
    unfolding show_progress_def Let_def by (auto intro: obeys_rules)
  with 1 show ?case
    by (subst download.simps) (auto simp: Let_def intro!: obeys_rules)
qed

lemma obeys_flash_steps:
  "obeys R (download_firmware can fs n p)" "obeys R (check_status can n f k)"
  "obeys R (wait_and_warn can n)" "obeys R (read_swid can n)" "obeys R (read_new_swid can n)"
  "obeys R (stop_and_clear can n)" "obeys R (start_program can n)" "obeys R (co_confirm_program can n)"
  unfolding download_firmware_def check_status_def wait_and_warn_def read_swid_def read_new_swid_def
    stop_and_clear_def start_program_def co_confirm_program_def co_copies enter_preop_def program_ctrl_def
  by (auto intro!: obeys_rules obeys_wait obeys_download split: sum.split simp del: py_block.simps)

lemma obeys_flash: "obeys R (co_flash_firmware api fs)"
proof -
  have "obeys R (co_flash_session can fs i p)" for can i p
    unfolding co_flash_session_def co_flash_steps_def co_copies
    by (auto intro!: obeys_rules obeys_flash_steps simp del: py_block.simps)
  then show ?thesis
    unfolding co_flash_firmware_def Let_def by (auto intro!: obeys_co split: option.split simp del: py_block.simps)
qed

lemmas obeys_entries = obeys_with_node obeys_read_sdo obeys_write_sdo obeys_node_menu obeys_list_nodes obeys_flash
  obeys_print

end

subsection \<open>Entries that change the dictionaries\<close>

locale node_relation = tool_relation +
  assumes node_dictionaries: "R w (w\<lparr>nodes := ns\<rparr>)" "R w (w\<lparr>nodes_meta := meta\<rparr>)"
begin

lemma obeys_add_node: "obeys R (add_node api eds)"
proof -
  have "obeys R (py_effect (\<lambda>w. w\<lparr>nodes := f w\<rparr>))" "obeys R (py_effect (\<lambda>w. w\<lparr>nodes_meta := g w\<rparr>))" for f g
    by (auto simp: obeys_def py_effect_def node_dictionaries)
  then show ?thesis unfolding add_node_def by (auto intro!: obeys_co split: prod.split)
qed

end

locale menu_relation = node_relation +
  assumes monitor_dictionaries: "R w (w\<lparr>monitor := m\<rparr>)"
begin

lemma obeys_changes: "obeys R (on_monitor h)" "obeys R (new_callback i)"
  by (auto simp: obeys_def py_effect_def on_monitor_def new_callback_def monitor_dictionaries)

lemma obeys_subscriptions:
  "obeys R (subscribe_pdo api n k)" "obeys R (unsubscribe_pdo api n k)"
  "obeys R (subscribe_heartbeat api n)" "obeys R (unsubscribe_heartbeat api n)"
  unfolding subscribe_pdo_def unsubscribe_pdo_def subscribe_heartbeat_def unsubscribe_heartbeat_def
  by (auto intro!: obeys_co obeys_changes obeys_attribute_error split: option.split)

lemma obeys_monitor_menu:
  "obeys R (menu_subscribe_tpdo api)" "obeys R (menu_subscribe_heartbeat api)"
  "obeys R (menu_unsubscribe_tpdo api)" "obeys R (menu_unsubscribe_heartbeat api)"
  unfolding menu_subscribe_tpdo_def menu_subscribe_heartbeat_def menu_unsubscribe_tpdo_def
    menu_unsubscribe_heartbeat_def Let_def
  by (auto intro!: obeys_co obeys_subscriptions split: option.split prod.split)

lemmas obeys_changing_entries = obeys_add_node obeys_monitor_menu

end

subsection \<open>The two relations\<close>

definition no_disconnect :: "'d co_world \<Rightarrow> 'd co_world \<Rightarrow> bool" where
  "no_disconnect w w' \<longleftrightarrow> (\<exists>cs. cmds w' = cmds w @ cs \<and> C_disconnect \<notin> set cs)"

definition same_dictionaries :: "'d co_world \<Rightarrow> 'd co_world \<Rightarrow> bool" where
  "same_dictionaries w w' \<longleftrightarrow> nodes w' = nodes w \<and> nodes_meta w' = nodes_meta w \<and> monitor w' = monitor w"

lemma no_disconnectI: "cmds w' = cmds w @ cs \<Longrightarrow> C_disconnect \<notin> set cs \<Longrightarrow> no_disconnect w w'"
  by (auto simp: no_disconnect_def)

interpretation conn: menu_relation "no_disconnect :: 'd co_world \<Rightarrow> 'd co_world \<Rightarrow> bool"
proof (unfold_locales, goal_cases)
  case (2 u v w)
  then obtain as bs where "cmds v = cmds u @ as" "cmds w = cmds v @ bs" "C_disconnect \<notin> set as \<union> set bs"
    by (auto simp: no_disconnect_def)
  then show ?case by (intro no_disconnectI [of _ _ "as @ bs"]) auto
next
  case (3 w w')
  then show ?case by (auto simp: framed_fields intro: no_disconnectI [of _ _ "[]"])
qed (auto intro: no_disconnectI [of _ _ "[]"] no_disconnectI [of _ _ "[_]"])

interpretation dicts: tool_relation "same_dictionaries :: 'd co_world \<Rightarrow> 'd co_world \<Rightarrow> bool"
  by unfold_locales (auto simp: same_dictionaries_def framed_co)

end
