(* ===== verification/Co_Main.thy ===== *)
theory Co_Main
  imports Menu_Relations
begin

text \<open>
  \<open>main\<close> of \<open>co.py\<close>: the start dialogue, the main menu and its dispatch, and the ways out.  Only
  \<open>KeyboardInterrupt\<close> is handled around the menu loop.  The loop may go on for ever, so it is a
  \<open>partial_function (option)\<close>.  The events of the receive thread and the redrawing thread are not
  interleaved here; \<open>Co_Session\<close> does that.
\<close>

definition menu_lines :: "string list" where
  "menu_lines =
     [''=== Main Menu ==='', ''1) Add node'', ''2) Send NMT command'', ''3) Read SDO'', ''4) Write SDO'',
      ''5) Send PDO'', ''6) Subscribe to TPDO'', ''7) Subscribe to Heartbeat'', ''8) Unsubscribe from TPDO'',
      ''9) Unsubscribe from Heartbeat'', ''10) List added nodes'', ''11) Show node state'',
      ''12) Show node OD info'', ''13) Flash firmware'', ''14) Exit'', ''Choose an option: '']"

definition MENU_TEXT :: string where
  "MENU_TEXT = newline @ concat (map (\<lambda>l. l @ newline) menu_lines)"

text \<open>One entry of the menu; the result says whether the loop goes on.\<close>

definition dispatch :: "'d node_api \<Rightarrow> files \<Rightarrow> string list \<Rightarrow> string \<Rightarrow> ('d co_world, bool) py" where
  "dispatch api fs eds_files op =
     (if op = ''14'' then
        py_bind (command C_disconnect (api_disconnect (base api))) (\<lambda>_. py_return False)
      else
        py_bind
          (if op = ''1'' then add_node api eds_files
           else if op = ''2'' then send_nmt api
           else if op = ''3'' then with_node (read_sdo api)
           else if op = ''4'' then with_node (write_sdo api)
           else if op = ''5'' then send_pdo api
           else if op = ''6'' then menu_subscribe_tpdo api
           else if op = ''7'' then menu_subscribe_heartbeat api
           else if op = ''8'' then menu_unsubscribe_tpdo api
           else if op = ''9'' then menu_unsubscribe_heartbeat api
           else if op = ''10'' then list_nodes
           else if op = ''11'' then show_node_state api
           else if op = ''12'' then show_node_od_info
           else if op = ''13'' then co_flash_firmware api fs
           else say ''Invalid option.'')
          (\<lambda>_. py_return True))"

definition menu_turn :: "'d node_api \<Rightarrow> files \<Rightarrow> string list \<Rightarrow> ('d co_world, bool) py" where
  "menu_turn api fs eds_files =
     py_bind (render_full MENU_TEXT) (\<lambda>_.
       py_bind (py_input []) (\<lambda>s. dispatch api fs eds_files (strip s)))"

partial_function (option) main_loop :: "'d node_api \<Rightarrow> files \<Rightarrow> string list \<Rightarrow> ('d co_world, unit) py" where
  "main_loop api fs eds_files w =
     py_bind (menu_turn api fs eds_files) (\<lambda>go w1.
       if go then main_loop api fs eds_files w1 else py_return () w1) w"

text \<open>\<open>try: ... except KeyboardInterrupt: network.disconnect()\<close>.\<close>

definition co_session :: "'d node_api \<Rightarrow> files \<Rightarrow> string list \<Rightarrow> ('d co_world, unit) py" where
  "co_session api fs eds_files w =
     (case main_loop api fs eds_files w of
        Some (Inl e, w') \<Rightarrow>
          (if exn_kind e = KeyboardInterrupt then command C_disconnect (api_disconnect (base api)) w'
           else Some (Inl e, w'))
      | r \<Rightarrow> r)"

definition co_main :: "'d node_api \<Rightarrow> files \<Rightarrow> string option \<Rightarrow> ('d co_world, unit) py" where
  "co_main api fs argv1 =
     py_bind (case argv1 of None \<Rightarrow> py_return [] | Some a \<Rightarrow> load_eds_files fs (split_on CHR '','' a)) (\<lambda>eds_files.
     py_bind (py_input (''Enter CAN interface (default '' @ quoted ''vcan0'' @ ''): '')) (\<lambda>s.
     py_bind (py_input ''Enter baudrate (default 125000): '') (\<lambda>b.
       let interface = (if strip s = [] then ''vcan0'' else strip s);
           baud_str = strip b
       in py_bind (if baud_str \<noteq> [] then py_lift (py_int baud_str) else py_return 125000) (\<lambda>baudrate.
          py_block
            [command (C_connect (YStr interface) (YInt baudrate))
               (api_connect (base api) (YStr interface) (YInt baudrate)),
             say ''Connection established.'',
             py_effect (\<lambda>w. w\<lparr>nodes := [], nodes_meta := [], monitor := EventMonitor_init\<rparr>),
             co_session api fs eds_files]))))"

subsection \<open>What an entry keeps\<close>

definition changing_options :: "string list" where
  "changing_options = [''1'', ''6'', ''7'', ''8'', ''9'']"

context tool_relation
begin

lemma obeys_dispatch_unchanged:
  assumes "op \<notin> set changing_options" "op \<noteq> ''14''"
  shows "obeys R (dispatch api fs eds op)"
proof -
  have "op \<noteq> ''1'' \<and> op \<noteq> ''6'' \<and> op \<noteq> ''7'' \<and> op \<noteq> ''8'' \<and> op \<noteq> ''9''"
    using assms(1) by (simp add: changing_options_def)
  then show ?thesis
    unfolding dispatch_def if_not_P [OF assms(2)]
    by (intro obeys_bind obeys_basic) (auto intro!: obeys_entries)
qed

end

context menu_relation
begin

lemma obeys_dispatch: "op \<noteq> ''14'' \<Longrightarrow> obeys R (dispatch api fs eds op)"
  unfolding dispatch_def
  by (simp only: if_False, intro obeys_bind obeys_basic) (auto intro!: obeys_entries obeys_changing_entries)

end

lemma conn_emits: "obeys no_disconnect m \<Longrightarrow> emits m (\<lambda>r cs. C_disconnect \<notin> set cs)"
  unfolding obeys_def emits_def no_disconnect_def .

subsection \<open>The menu loop\<close>

text \<open>How a turn ends: going on, with option 14, or with an exception.\<close>

lemma menu_turn_emits:
  "emits (menu_turn api fs eds) (\<lambda>r cs.
     (C_disconnect \<notin> set cs \<and> r \<noteq> Inr False) \<or>
     (cs = [C_disconnect] \<and> r \<noteq> Inr True))"
proof -
  have render: "emits (render_full m) (\<lambda>r cs. cs = [] \<and> r = Inr ())" for m
    by (simp add: emits_def render_full_def py_effect_def)
  have disp: "emits (dispatch api fs eds op) (\<lambda>r cs.
     (C_disconnect \<notin> set cs \<and> r \<noteq> Inr False) \<or> (cs = [C_disconnect] \<and> r \<noteq> Inr True))" for op
  proof (cases "op = ''14''")
    case True
    show ?thesis
      unfolding dispatch_def if_P [OF True]
      by (rule emits_weaken, rule emits_bind [OF always_command [unfolded always_def] emits_return]) auto
  next
    case False
    have "\<exists>X :: (_, unit) py. dispatch api fs eds op = py_bind X (\<lambda>_. py_return True)"
      unfolding dispatch_def if_not_P [OF False] by (rule exI, rule refl)
    then obtain X :: "(_, unit) py" where X: "dispatch api fs eds op = py_bind X (\<lambda>_. py_return True)" by blast
    have no: "r \<noteq> Inr False" if "dispatch api fs eds op w = Some (r, w')" for w r w'
      using that unfolding X by (auto simp: py_bind_eq_Some py_return_def)
    show ?thesis
      unfolding emits_def
    proof (intro allI impI)
      fix w r w' assume run: "dispatch api fs eds op w = Some (r, w')"
      obtain cs where "cmds w' = cmds w @ cs" "C_disconnect \<notin> set cs"
        using emitsD [OF conn_emits [OF conn.obeys_dispatch [OF False]] run] by blast
      with no [OF run] show "\<exists>cs. cmds w' = cmds w @ cs \<and>
          ((C_disconnect \<notin> set cs \<and> r \<noteq> Inr False) \<or> (cs = [C_disconnect] \<and> r \<noteq> Inr True))" by blast
    qed
  qed
  show ?thesis
    unfolding menu_turn_def
    by (rule emits_weaken, rule emits_bind [OF render emits_bind [OF always_input [unfolded always_def] disp]]) auto
qed

text \<open>The loop as a whole: it ends with the command of option 14, or with an exception and no such command.\<close>

definition session_end :: "exn + unit \<Rightarrow> command list \<Rightarrow> bool" where
  "session_end r cs \<longleftrightarrow>
     (\<exists>before. cs = before @ [C_disconnect] \<and> C_disconnect \<notin> set before) \<or>
     (C_disconnect \<notin> set cs \<and> r \<noteq> Inr ())"

lemma session_end_Cons: "C_disconnect \<notin> set as \<Longrightarrow> session_end r bs \<Longrightarrow> session_end r (as @ bs)"
  unfolding session_end_def
proof (elim disjE exE conjE, goal_cases)
  case (1 before)
  then show ?case by (intro disjI1 exI [of _ "as @ before"]) simp
qed auto

lemma main_loop_emits: "emits (main_loop api fs eds) session_end"
  unfolding emits_def
proof (intro allI impI)
  fix w r w'
  assume run: "main_loop api fs eds w = Some (r, w')"
  let ?P = "\<lambda>api fs eds w y. \<exists>cs. cmds (snd y) = cmds w @ cs \<and> session_end (fst y) cs"
  have "?P api fs eds w (r, w')"
  proof (rule main_loop.raw_induct [where P = ?P, OF _ run], goal_cases)
    case (1 loop api fs eds w y)
    obtain r w' where y: "y = (r, w')" by fastforce
    from "1"(2) consider e where "menu_turn api fs eds w = Some (Inl e, w')" "r = Inl e"
      | w1 where "menu_turn api fs eds w = Some (Inr True, w1)" "loop api fs eds w1 = Some (r, w')"
      | "menu_turn api fs eds w = Some (Inr False, w')" "r = Inr ()"
      by (auto simp: y py_bind_eq_Some py_return_def split: if_splits)
    then show ?case
    proof cases
      case (1 e)
      then show ?thesis
        using emitsD [OF menu_turn_emits 1(1)] by (force simp: y session_end_def)
    next
      case (2 w1)
      obtain as where "cmds w1 = cmds w @ as" "C_disconnect \<notin> set as" using emitsD [OF menu_turn_emits 2(1)] by auto
      moreover obtain bs where "cmds w' = cmds w1 @ bs" "session_end r bs" using "1"(1) [OF 2(2)] by auto
      ultimately show ?thesis by (auto simp: y session_end_Cons intro!: exI [of _ "as @ bs"])
    next
      case 3
      then show ?thesis using emitsD [OF menu_turn_emits 3(1)] by (force simp: y session_end_def)
    qed
  qed
  then show "\<exists>cs. cmds w' = cmds w @ cs \<and> session_end r cs" by simp
qed

lemma co_session_emits: "emits (co_session api fs eds) (\<lambda>r cs.
    (\<exists>before. cs = before @ [C_disconnect] \<and> C_disconnect \<notin> set before) \<or>
    (\<exists>before. cs = before @ [C_disconnect, C_disconnect] \<and> C_disconnect \<notin> set before) \<or>
    (C_disconnect \<notin> set cs \<and> (\<exists>e. r = Inl e \<and> exn_kind e \<noteq> KeyboardInterrupt)))"
  unfolding emits_def
proof (intro allI impI)
  fix w r w'
  assume "co_session api fs eds w = Some (r, w')"
  then consider e w1 where "main_loop api fs eds w = Some (Inl e, w1)" "exn_kind e = KeyboardInterrupt"
      "command C_disconnect (api_disconnect (base api)) w1 = Some (r, w')"
    | e where "main_loop api fs eds w = Some (Inl e, w')" "exn_kind e \<noteq> KeyboardInterrupt" "r = Inl e"
    | "main_loop api fs eds w = Some (Inr (), w')" "r = Inr ()"
    by (auto simp: co_session_def split: option.splits sum.splits prod.splits if_splits)
  then show "\<exists>cs. cmds w' = cmds w @ cs \<and>
    ((\<exists>before. cs = before @ [C_disconnect] \<and> C_disconnect \<notin> set before) \<or>
     (\<exists>before. cs = before @ [C_disconnect, C_disconnect] \<and> C_disconnect \<notin> set before) \<or>
     (C_disconnect \<notin> set cs \<and> (\<exists>e. r = Inl e \<and> exn_kind e \<noteq> KeyboardInterrupt)))"
  proof cases
    case (1 e w1)
    then obtain cs where "cmds w1 = cmds w @ cs" "session_end (Inl e) cs" using emitsD [OF main_loop_emits] by blast
    moreover have "cmds w' = cmds w1 @ [C_disconnect]"
      using emitsD [OF always_command [unfolded always_def] 1(3)] by simp
    ultimately show ?thesis by (auto simp: session_end_def)
  next
    case (2 e)
    then show ?thesis using emitsD [OF main_loop_emits 2(1)] by (auto simp: session_end_def)
  next
    case 3
    then show ?thesis using emitsD [OF main_loop_emits 3(1)] by (auto simp: session_end_def)
  qed
qed

subsection \<open>Property of the session\<close>


lemma bad_node_id_ends_session:
  "\<exists>w'. co_session api fs eds (empty_co d [Line ''1'', Line ''abc'']) = Some (Inl (bad_int ''abc''), w') \<and> cmds w' = []"
proof -
  have abc: "int_of_str ''abc'' = None" and one: "strip ''1'' = ''1''" by code_simp+
  let ?w = "empty_co d [Line ''1'', Line ''abc'']"
  obtain w' where turn: "menu_turn api fs eds ?w = Some (Inl (bad_int ''abc''), w')" "cmds w' = []"
    by (simp add: menu_turn_def render_full_def py_bind_def py_effect_def input_Line empty_co_def one dispatch_def
        add_node_def py_int_def abc py_raise_def)
  then have "main_loop api fs eds ?w = Some (Inl (bad_int ''abc''), w')"
    by (subst main_loop.simps) (simp add: py_bind_def)
  then show ?thesis using turn(2) by (simp add: co_session_def bad_int_def)
qed

lemma exit_turn:
  "\<exists>w'. menu_turn (demo_api failing_read) (one_file [] []) [] (empty_co 0 [Line ''14'']) = Some (Inr False, w') \<and>
     cmds w' = [C_disconnect]"
proof -
  have fourteen: "strip ''14'' = ''14''" by code_simp
  show ?thesis
    by (simp add: menu_turn_def render_full_def py_bind_def py_effect_def input_Line empty_co_def fourteen dispatch_def
        command_def record_cmd_def dev_call_def demo_api_def prompt_node_def py_return_def)
qed


end
