(* ===== verification/Co_Session.thy ===== *)
theory Co_Session
  imports Co_Main
begin

text \<open>
  The interactive tool as a whole, with its three threads on one world: the menu of \<open>main\<close>, the
  receive thread of python-canopen that runs the callbacks, and the thread of \<open>refresh_loop\<close>.
  The menu takes a step for each statement of its loop; an entry of the menu is one step, so a
  callback that comes while an entry runs is taken to come before or after it.  A callback takes
  two steps, the block under the lock and \<open>force_refresh.set()\<close>.  Drawing the screen is one step.
\<close>

subsection \<open>The threads\<close>

definition keys_of :: "('k, 'v) dict \<Rightarrow> 'k set" where
  "keys_of d = set (dict_keys d)"

lemma keys_of_simps [simp]:
  "keys_of [] = {}" "keys_of (dict_put k v d) = insert k (keys_of d)" "keys_of (dict_pop k d) = keys_of d - {k}"
proof -
  show "keys_of [] = {}" by (simp add: keys_of_def)
  show "keys_of (dict_put k v d) = insert k (keys_of d)" unfolding keys_of_def dict_keys_put by auto
  show "keys_of (dict_pop k d) = keys_of d - {k}" unfolding keys_of_def by (rule dict_set_keys_pop)
qed

lemma keys_of_get: "k \<in> keys_of d \<longleftrightarrow> (\<exists>v. dict_get d k = Some v)"
  using dict_get_None_iff [of d k] by (auto simp: keys_of_def simp del: set_map)

text \<open>Where \<open>main\<close> is in its loop.\<close>

datatype menu_pc =
    M_top              \<comment> \<open>about to set \<open>in_main_menu\<close>\<close>
  | M_draw             \<comment> \<open>about to call \<open>manual_refresh\<close>\<close>
  | M_input            \<comment> \<open>in \<open>input("")\<close>\<close>
  | M_read string      \<comment> \<open>about to reset \<open>in_main_menu\<close>\<close>
  | M_op string        \<comment> \<open>about to run the entry\<close>
  | M_end "exn + unit" \<comment> \<open>out of the loop\<close>

text \<open>
  \<open>pdo_subs\<close> and \<open>hb_subs\<close> are the keys ever subscribed to: the library calls callbacks of these only,
  but perhaps also some that were unsubscribed from (\<open>double_subscription_leaks\<close>).  \<open>to_set\<close> counts
  the callbacks between their two steps, and \<open>raised\<close> remembers that a callback has raised.
\<close>

record 'd tool =
  wld :: "'d co_world"
  mpc :: menu_pc
  in_menu :: bool
  refr :: refresher
  to_set :: nat
  pdo_subs :: "pdo_key set"
  hb_subs :: "int set"
  raised :: bool

text \<open>The first half of the callbacks.\<close>

definition pdo_store :: "pdo_key \<Rightarrow> raw list \<Rightarrow> rat \<Rightarrow> ('d co_world, unit) py" where
  "pdo_store key values_read now =
     py_bind get_world (\<lambda>w.
       py_bind (py_lift (dict_index (nodes_meta w) (fst key))) (\<lambda>eds_name.
         on_monitor (pdo_event key (values_read, now, eds_name))))"

definition hb_store :: "int \<Rightarrow> raw \<Rightarrow> rat \<Rightarrow> ('d co_world, unit) py" where
  "hb_store node_id state now =
     py_bind get_world (\<lambda>w.
       py_bind (py_lift (dict_index (nodes_meta w) node_id)) (\<lambda>eds_name.
         on_monitor (hb_event node_id (state, now, eds_name))))"

lemma callback_halves:
  "pdo_callback key vs now = py_bind (pdo_store key vs now) (\<lambda>_. on_monitor set_refresh)"
  "hb_callback node_id state now = py_bind (hb_store node_id state now) (\<lambda>_. on_monitor set_refresh)"
  by (simp_all add: pdo_callback_def hb_callback_def pdo_store_def hb_store_def py_bind_assoc py_bind_return_unit)

definition after_entry :: "exn + bool \<Rightarrow> menu_pc" where
  "after_entry r = (case r of Inl e \<Rightarrow> M_end (Inl e) | Inr go \<Rightarrow> if go then M_top else M_end (Inr ()))"

definition after_input :: "exn + string \<Rightarrow> menu_pc" where
  "after_input r = (case r of Inl e \<Rightarrow> M_end (Inl e) | Inr s \<Rightarrow> M_read (strip s))"

text \<open>What the callback's first half does to the state: it stores an entry, or raises and is over.\<close>

definition stored :: "(exn + unit) \<times> 'd co_world \<Rightarrow> 'd tool \<Rightarrow> 'd tool" where
  "stored rw s =
     (if isl (fst rw) then s\<lparr>wld := snd rw, raised := True\<rparr> else s\<lparr>wld := snd rw, to_set := Suc (to_set s)\<rparr>)"

inductive menu_step :: "'d node_api \<Rightarrow> files \<Rightarrow> string list \<Rightarrow> 'd tool \<Rightarrow> 'd tool \<Rightarrow> bool"
  for api :: "'d node_api" and fs :: files and eds_files :: "string list" where
  menu_top: "mpc s = M_top \<Longrightarrow> menu_step api fs eds_files s (s\<lparr>in_menu := True, mpc := M_draw\<rparr>)"
| menu_draw:
    "mpc s = M_draw \<Longrightarrow> render_full MENU_TEXT (wld s) = Some (Inr (), w') \<Longrightarrow>
     menu_step api fs eds_files s (s\<lparr>wld := w', mpc := M_input\<rparr>)"
| menu_input:
    "mpc s = M_input \<Longrightarrow> py_input [] (wld s) = Some (r, w') \<Longrightarrow>
     menu_step api fs eds_files s (s\<lparr>wld := w', mpc := after_input r\<rparr>)"
| menu_read: "mpc s = M_read op \<Longrightarrow> menu_step api fs eds_files s (s\<lparr>in_menu := False, mpc := M_op op\<rparr>)"
| menu_entry:
    "mpc s = M_op op \<Longrightarrow> dispatch api fs eds_files op (wld s) = Some (r, w') \<Longrightarrow>
     menu_step api fs eds_files s
       (s\<lparr>wld := w', mpc := after_entry r,
          pdo_subs := pdo_subs s \<union> keys_of (pdo_callbacks (monitor w')),
          hb_subs := hb_subs s \<union> keys_of (hb_callbacks (monitor w'))\<rparr>)"

inductive event_step :: "'d tool \<Rightarrow> 'd tool \<Rightarrow> bool" where
  event_pdo: "key \<in> pdo_subs s \<Longrightarrow> pdo_store key vs now (wld s) = Some rw \<Longrightarrow> event_step s (stored rw s)"
| event_hb: "i \<in> hb_subs s \<Longrightarrow> hb_store i st now (wld s) = Some rw \<Longrightarrow> event_step s (stored rw s)"

text \<open>The second half of a callback, and the steps of \<open>refresh_loop\<close>.\<close>

inductive quiet_step :: "'d tool \<Rightarrow> 'd tool \<Rightarrow> bool" where
  quiet_set:
    "to_set s > 0 \<Longrightarrow> on_monitor set_refresh (wld s) = Some (Inr (), w') \<Longrightarrow>
     quiet_step s (s\<lparr>wld := w', to_set := to_set s - 1\<rparr>)"
| quiet_wake: "refr s = R_wait \<Longrightarrow> force_refresh (monitor (wld s)) \<Longrightarrow> quiet_step s (s\<lparr>refr := R_clear\<rparr>)"
| quiet_clear:
    "refr s = R_clear \<Longrightarrow> on_monitor (\<lambda>m. m\<lparr>force_refresh := False\<rparr>) (wld s) = Some (Inr (), w') \<Longrightarrow>
     quiet_step s (s\<lparr>wld := w', refr := R_check\<rparr>)"
| quiet_yes: "refr s = R_check \<Longrightarrow> in_menu s \<Longrightarrow> quiet_step s (s\<lparr>refr := R_render\<rparr>)"
| quiet_no: "refr s = R_check \<Longrightarrow> \<not> in_menu s \<Longrightarrow> quiet_step s (s\<lparr>refr := R_wait\<rparr>)"
| quiet_draw:
    "refr s = R_render \<Longrightarrow> render_full MENU_TEXT (wld s) = Some (Inr (), w') \<Longrightarrow>
     quiet_step s (s\<lparr>wld := w', refr := R_wait\<rparr>)"

text \<open>The state in which \<open>main\<close> enters its loop.\<close>

definition tool_start :: "'d co_world \<Rightarrow> 'd tool" where
  "tool_start w = \<lparr>wld = w\<lparr>nodes := [], nodes_meta := [], monitor := EventMonitor_init\<rparr>, mpc = M_top, in_menu = True,
     refr = R_wait, to_set = 0, pdo_subs = {}, hb_subs = {}, raised = False\<rparr>"

inductive tool_reach :: "'d node_api \<Rightarrow> files \<Rightarrow> string list \<Rightarrow> 'd tool \<Rightarrow> bool"
  for api :: "'d node_api" and fs :: files and eds_files :: "string list" where
  tool_init: "tool_reach api fs eds_files (tool_start w)"
| tool_menu: "tool_reach api fs eds_files s \<Longrightarrow> menu_step api fs eds_files s s' \<Longrightarrow> tool_reach api fs eds_files s'"
| tool_event: "tool_reach api fs eds_files s \<Longrightarrow> event_step s s' \<Longrightarrow> tool_reach api fs eds_files s'"
| tool_quiet: "tool_reach api fs eds_files s \<Longrightarrow> quiet_step s s' \<Longrightarrow> tool_reach api fs eds_files s'"

inductive_cases menu_stepE: "menu_step api fs eds_files s s'"
inductive_cases event_stepE: "event_step s s'"
inductive_cases quiet_stepE: "quiet_step s s'"

subsection \<open>What an entry of the menu does to the dictionaries\<close>

text \<open>Subscribing to node \<open>i\<close>: only its callbacks are added, and nothing is shown that was not.\<close>

definition subscribes :: "int set \<Rightarrow> 'd co_world \<Rightarrow> 'd co_world \<Rightarrow> bool" where
  "subscribes ids w w' \<longleftrightarrow>
     nodes w' = nodes w \<and> nodes_meta w' = nodes_meta w \<and>
     keys_of (pdo_callbacks (monitor w')) \<subseteq> keys_of (pdo_callbacks (monitor w)) \<union> ids \<times> UNIV \<and>
     keys_of (hb_callbacks (monitor w')) \<subseteq> keys_of (hb_callbacks (monitor w)) \<union> ids \<and>
     keys_of (subscribed_pdos (monitor w')) \<subseteq> keys_of (subscribed_pdos (monitor w)) \<and>
     keys_of (subscribed_hbs (monitor w')) \<subseteq> keys_of (subscribed_hbs (monitor w))"

interpretation subs: tool_relation "subscribes ids :: 'd co_world \<Rightarrow> 'd co_world \<Rightarrow> bool" for ids
proof (unfold_locales, goal_cases)
  case (2 u v w)
  then show ?case unfolding subscribes_def by (elim conjE, intro conjI) (simp, simp, blast+)
qed (simp_all add: subscribes_def framed_co)

lemma subscribes_mono: "subscribes ids w w' \<Longrightarrow> ids \<subseteq> ids' \<Longrightarrow> subscribes ids' w w'"
  unfolding subscribes_def by blast

lemma subscribes_steps:
  "obeys (subscribes ids) (new_callback i)" "obeys (subscribes ids) (on_monitor set_refresh)"
  "obeys (subscribes ids) (on_monitor (pdo_forget key))" "obeys (subscribes ids) (on_monitor (hb_forget i))"
  "n \<in> ids \<Longrightarrow> obeys (subscribes ids) (on_monitor (pdo_record (n, k) cb))"
  "n \<in> ids \<Longrightarrow> obeys (subscribes ids) (on_monitor (hb_record n cb))"
  by (auto simp: obeys_def subscribes_def new_callback_def on_monitor_def py_effect_def set_refresh_def pdo_forget_def
      hb_forget_def pdo_record_def hb_record_def)

lemma subscribes_ops:
  "obeys (subscribes ids) (unsubscribe_pdo api node k)" "obeys (subscribes ids) (unsubscribe_heartbeat api node)"
  "n_id node \<in> ids \<Longrightarrow> obeys (subscribes ids) (subscribe_pdo api node k)"
  "n_id node \<in> ids \<Longrightarrow> obeys (subscribes ids) (subscribe_heartbeat api node)"
  unfolding unsubscribe_pdo_def unsubscribe_heartbeat_def subscribe_pdo_def subscribe_heartbeat_def
  by (auto intro!: subs.obeys_co subs.obeys_attribute_error subscribes_steps split: option.split)

lemma unsubscribe_entries:
  "obeys (subscribes ids) (menu_unsubscribe_tpdo api)" "obeys (subscribes ids) (menu_unsubscribe_heartbeat api)"
  unfolding menu_unsubscribe_tpdo_def menu_unsubscribe_heartbeat_def Let_def
  by (auto intro!: subs.obeys_co subscribes_ops split: option.split prod.split)

text \<open>An entry on a node that the user chooses is run on one that has been added.\<close>

lemma with_node_subscribes:
  fixes w w' :: "'d co_world"
  assumes ok: "nodes_ok w" and run: "with_node f w = Some (r, w')"
    and f: "\<And>n. n_id n \<in> keys_of (nodes_meta w) \<Longrightarrow> obeys (subscribes (keys_of (nodes_meta w))) (f n)"
  shows "subscribes (keys_of (nodes_meta w)) w w'"
proof -
  obtain c v where c: "choose_node w = Some (c, v)"
    using run by (cases "choose_node w") (auto simp: with_node_def py_bind_def)
  note node = choose_node_result [OF ok c]
  have v: "subscribes (keys_of (nodes_meta w)) w v" using node subs.console by blast
  show ?thesis
  proof (cases "\<exists>n. c = Inr (Some n)")
    case True
    then obtain n where n: "c = Inr (Some n)" by blast
    then have "n_id n \<in> keys_of (nodes w)" using node by (simp add: keys_of_get)
    then have "n_id n \<in> keys_of (nodes_meta w)" using ok by (simp add: nodes_ok_def keys_of_def del: set_map)
    moreover have "f n v = Some (r, w')" using run c n by (simp add: with_node_def py_bind_def)
    ultimately show ?thesis using obeysD [OF f] subs.trans [OF v] by blast
  next
    case False
    then have "w' = v" using run c by (cases c) (auto simp: with_node_def py_bind_def py_return_def split: option.splits)
    with v show ?thesis by simp
  qed
qed

lemma subscribe_entries:
  fixes w w' :: "'d co_world"
  assumes "nodes_ok w" "menu_subscribe_tpdo api w = Some (r, w') \<or> menu_subscribe_heartbeat api w = Some (r, w')"
  shows "subscribes (keys_of (nodes_meta w)) w w'"
  using assms(2)
proof
  assume "menu_subscribe_tpdo api w = Some (r, w')"
  then show ?thesis
    unfolding menu_subscribe_tpdo_def
    by (rule with_node_subscribes [OF assms(1)]) (auto intro!: subs.obeys_co subscribes_ops)
next
  assume "menu_subscribe_heartbeat api w = Some (r, w')"
  then show ?thesis
    unfolding menu_subscribe_heartbeat_def
    by (rule with_node_subscribes [OF assms(1)]) (auto intro!: subs.obeys_co subscribes_ops)
qed

definition same_monitor :: "'d co_world \<Rightarrow> 'd co_world \<Rightarrow> bool" where
  "same_monitor w w' \<longleftrightarrow> monitor w' = monitor w"

interpretation mon: node_relation "same_monitor :: 'd co_world \<Rightarrow> 'd co_world \<Rightarrow> bool"
  by unfold_locales (auto simp: same_monitor_def framed_co)

lemma add_node_entry:
  assumes "nodes_ok w" "add_node api eds w = Some (r, w')"
  shows "nodes_ok w' \<and> keys_of (nodes_meta w) \<subseteq> keys_of (nodes_meta w') \<and> monitor w' = monitor w"
proof -
  have mon: "monitor w' = monitor w" using obeysD [OF mon.obeys_add_node assms(2)] by (simp add: same_monitor_def)
  from add_node_run [OF assms(2)] show ?thesis
  proof (elim disjE exE conjE)
    fix k ref od m
    assume eq: "nodes w' = dict_put k \<lparr>n_id = k, n_ref = ref, n_od = od\<rparr> (nodes w)"
      "nodes_meta w' = dict_put k m (nodes_meta w)"
    have "nodes_ok w'"
      using nodes_ok_put [OF assms(1), where k = k and ref = ref and od = od and m = m] eq by (simp add: nodes_ok_def)
    then show ?thesis using eq mon by auto
  qed (use assms(1) mon in \<open>simp add: nodes_ok_def\<close>)
qed

text \<open>All entries: either a node may have been added, or a subscription changed for an added node.\<close>

lemma dispatch_dictionaries:
  fixes w w' :: "'d co_world"
  assumes ok: "nodes_ok w" and run: "dispatch api fs eds op w = Some (r, w')"
  shows "nodes_ok w' \<and> keys_of (nodes_meta w) \<subseteq> keys_of (nodes_meta w') \<and> monitor w' = monitor w \<or>
     subscribes (keys_of (nodes_meta w)) w w'"
proof -
  consider "op = ''1''" | "op = ''6'' \<or> op = ''7''" | "op = ''8'' \<or> op = ''9''" | "op = ''14''"
    | "op \<notin> set changing_options" "op \<noteq> ''14''"
    unfolding changing_options_def by auto
  then show ?thesis
  proof cases
    case 1
    then obtain q where "add_node api eds w = Some (q, w')"
      using run by (auto simp: dispatch_def py_bind_eq_Some py_return_def)
    then show ?thesis using add_node_entry [OF ok] by blast
  next
    case 2
    then have "(\<exists>q. menu_subscribe_tpdo api w = Some (q, w')) \<or> (\<exists>q. menu_subscribe_heartbeat api w = Some (q, w'))"
      using run by (auto simp: dispatch_def py_bind_eq_Some py_return_def)
    then show ?thesis using subscribe_entries [OF ok] by blast
  next
    case 3
    then have "(\<exists>q. menu_unsubscribe_tpdo api w = Some (q, w')) \<or> (\<exists>q. menu_unsubscribe_heartbeat api w = Some (q, w'))"
      using run by (auto simp: dispatch_def py_bind_eq_Some py_return_def)
    then show ?thesis using obeysD [OF unsubscribe_entries(1)] obeysD [OF unsubscribe_entries(2)] by blast
  next
    case 4
    then have "subscribes (keys_of (nodes_meta w)) w w'"
      using run by (auto simp: dispatch_def command_def record_cmd_def dev_call_def py_simps subscribes_def
          split: prod.splits sum.splits)
    then show ?thesis by blast
  next
    case 5
    then show ?thesis using obeysD [OF subs.obeys_dispatch_unchanged run] by blast
  qed
qed

subsection \<open>The names of the nodes\<close>

text \<open>Everything subscribed to, recorded or shown belongs to a node that has a name.\<close>

definition names_inv :: "'d tool \<Rightarrow> bool" where
  "names_inv s \<longleftrightarrow>
     nodes_ok (wld s) \<and> \<not> raised s \<and>
     pdo_subs s \<subseteq> keys_of (nodes_meta (wld s)) \<times> UNIV \<and> hb_subs s \<subseteq> keys_of (nodes_meta (wld s)) \<and>
     keys_of (pdo_callbacks (monitor (wld s))) \<subseteq> pdo_subs s \<and> keys_of (hb_callbacks (monitor (wld s))) \<subseteq> hb_subs s \<and>
     keys_of (subscribed_pdos (monitor (wld s))) \<subseteq> pdo_subs s \<and> keys_of (subscribed_hbs (monitor (wld s))) \<subseteq> hb_subs s"

lemma render_run: "render_full m w = Some (r, w') \<Longrightarrow> framed w w' \<and> r = Inr ()"
  by (auto simp: render_full_def py_effect_def intro: framed_update)

lemma names_inv_framed:
  assumes "framed (wld s) w'"
  shows "names_inv (s\<lparr>wld := w'\<rparr>) = names_inv s"
  using assms by (simp add: names_inv_def framed_co framed_nodes_ok)

lemma nodes_ok_monitor [simp]: "nodes_ok (w\<lparr>monitor := m\<rparr>) = nodes_ok w"
  by (simp add: nodes_ok_def)

lemma names_inv_fields [simp]:
  "names_inv (s\<lparr>mpc := a\<rparr>) = names_inv s" "names_inv (s\<lparr>in_menu := b\<rparr>) = names_inv s"
  "names_inv (s\<lparr>refr := c\<rparr>) = names_inv s" "names_inv (s\<lparr>to_set := n\<rparr>) = names_inv s"
  by (simp_all add: names_inv_def)

lemma names_inv_entry:
  assumes inv: "names_inv s" and run: "dispatch api fs eds op (wld s) = Some (r, w')"
  shows "names_inv (s\<lparr>wld := w', mpc := pc, pdo_subs := pdo_subs s \<union> keys_of (pdo_callbacks (monitor w')),
     hb_subs := hb_subs s \<union> keys_of (hb_callbacks (monitor w'))\<rparr>)"
proof -
  have ok: "nodes_ok (wld s)" using inv by (simp add: names_inv_def)
  from dispatch_dictionaries [OF ok run] show ?thesis
  proof
    assume "nodes_ok w' \<and> keys_of (nodes_meta (wld s)) \<subseteq> keys_of (nodes_meta w') \<and> monitor w' = monitor (wld s)"
    then show ?thesis using inv by (auto simp: names_inv_def)
  next
    assume sub: "subscribes (keys_of (nodes_meta (wld s))) (wld s) w'"
    then have "nodes_ok w'" using ok by (simp add: nodes_ok_def subscribes_def)
    moreover have "keys_of (pdo_callbacks (monitor w')) \<subseteq> keys_of (nodes_meta (wld s)) \<times> UNIV"
      "keys_of (hb_callbacks (monitor w')) \<subseteq> keys_of (nodes_meta (wld s))"
      using sub inv unfolding subscribes_def names_inv_def by blast+
    ultimately show ?thesis using sub inv unfolding subscribes_def names_inv_def by simp blast
  qed
qed

lemma store_runs:
  assumes "names_inv s"
  shows "key \<in> pdo_subs s \<Longrightarrow> \<exists>name. dict_get (nodes_meta (wld s)) (fst key) = Some name \<and>
      pdo_store key vs now (wld s) =
        Some (Inr (), (wld s)\<lparr>monitor := pdo_event key (vs, now, name) (monitor (wld s))\<rparr>)"
    and "i \<in> hb_subs s \<Longrightarrow> \<exists>name. dict_get (nodes_meta (wld s)) i = Some name \<and>
      hb_store i st now (wld s) =
        Some (Inr (), (wld s)\<lparr>monitor := hb_event i (st, now, name) (monitor (wld s))\<rparr>)"
proof -
  have "fst key \<in> keys_of (nodes_meta (wld s))" if "key \<in> pdo_subs s" using that assms by (force simp: names_inv_def)
  then show "key \<in> pdo_subs s \<Longrightarrow> \<exists>name. dict_get (nodes_meta (wld s)) (fst key) = Some name \<and>
      pdo_store key vs now (wld s) =
        Some (Inr (), (wld s)\<lparr>monitor := pdo_event key (vs, now, name) (monitor (wld s))\<rparr>)"
    by (auto simp: keys_of_get pdo_store_def get_world_def dict_index_def on_monitor_def py_simps)
  have "i \<in> keys_of (nodes_meta (wld s))" if "i \<in> hb_subs s" using that assms by (auto simp: names_inv_def)
  then show "i \<in> hb_subs s \<Longrightarrow> \<exists>name. dict_get (nodes_meta (wld s)) i = Some name \<and>
      hb_store i st now (wld s) =
        Some (Inr (), (wld s)\<lparr>monitor := hb_event i (st, now, name) (monitor (wld s))\<rparr>)"
    by (auto simp: keys_of_get hb_store_def get_world_def dict_index_def on_monitor_def py_simps)
qed

lemma names_inv_event:
  assumes "names_inv s" "event_step s s'"
  shows "names_inv s'"
  using assms(2)
proof cases
  case (event_pdo key vs now rw)
  obtain name where "rw = (Inr (), (wld s)\<lparr>monitor := pdo_event key (vs, now, name) (monitor (wld s))\<rparr>)"
    using store_runs(1) [OF assms(1) event_pdo(2), of vs now] event_pdo(3) by auto
  then show ?thesis using assms(1) event_pdo by (auto simp: stored_def names_inv_def pdo_event_def)
next
  case (event_hb i st now rw)
  obtain name where "rw = (Inr (), (wld s)\<lparr>monitor := hb_event i (st, now, name) (monitor (wld s))\<rparr>)"
    using store_runs(2) [OF assms(1) event_hb(2), of st now] event_hb(3) by auto
  then show ?thesis using assms(1) event_hb by (auto simp: stored_def names_inv_def hb_event_def)
qed

lemma names_inv_quiet: "names_inv s \<Longrightarrow> quiet_step s s' \<Longrightarrow> names_inv s'"
proof (elim quiet_stepE, goal_cases)
  case (1 w')
  then show ?case by (auto simp: on_monitor_def py_effect_def set_refresh_def names_inv_def)
next
  case (3 w')
  then show ?case by (auto simp: on_monitor_def py_effect_def names_inv_def)
next
  case (6 w')
  then show ?case using names_inv_framed render_run by fastforce
qed simp_all

lemma names_inv_menu: "names_inv s \<Longrightarrow> menu_step api fs eds s s' \<Longrightarrow> names_inv s'"
proof (elim menu_stepE, goal_cases)
  case (2 w')
  then show ?case using names_inv_framed render_run by fastforce
next
  case (3 r w')
  have "framed (wld s) w'" by (rule console_onlyD [OF console_only_ask(2) 3(4)])
  then show ?case using 3 names_inv_framed by fastforce
next
  case (5 op r w')
  show ?case unfolding 5(2) by (rule names_inv_entry [OF 5(1,4)])
qed simp_all

lemma reach_names_inv: "tool_reach api fs eds s \<Longrightarrow> names_inv s"
proof (induction rule: tool_reach.induct)
  case (tool_init w)
  show ?case by (simp add: names_inv_def tool_start_def nodes_ok_def EventMonitor_init_def)
qed (auto intro: names_inv_menu names_inv_event names_inv_quiet)

subsection \<open>The screen\<close>

definition drawing :: "monitor \<Rightarrow> console_out list" where
  "drawing m = [Clear_screen] @ map Print (monitor_text m) @ [Print [Txt MENU_TEXT]]"

definition shows_current :: "'d co_world \<Rightarrow> bool" where
  "shows_current w \<longleftrightarrow> suffix (drawing (monitor w)) (out w)"

lemma monitor_text_refresh: "monitor_text (m\<lparr>force_refresh := b\<rparr>) = monitor_text m"
  by (simp add: monitor_text_def)

lemma render_shows: "render_full MENU_TEXT w = Some (r, w') \<Longrightarrow> shows_current w' \<and> monitor w' = monitor w"
  by (auto simp: render_full_def py_effect_def shows_current_def drawing_def intro: suffixI)

definition screen_inv :: "'d tool \<Rightarrow> bool" where
  "screen_inv s \<longleftrightarrow>
     (mpc s = M_draw \<or> mpc s = M_input \<longrightarrow> in_menu s) \<and>
     (mpc s = M_input \<longrightarrow>
        shows_current (wld s) \<or> force_refresh (monitor (wld s)) \<or> to_set s > 0 \<or> refr s = R_check \<or> refr s = R_render)"

lemma screen_inv_event: "screen_inv s \<Longrightarrow> names_inv s \<Longrightarrow> event_step s s' \<Longrightarrow> screen_inv s'"
proof (elim event_stepE, goal_cases)
  case (1 key vs now rw)
  then have "\<not> isl (fst rw)" using store_runs(1) [of s key vs now] by auto
  then show ?case using 1 by (simp add: screen_inv_def stored_def)
next
  case (2 i st now rw)
  then have "\<not> isl (fst rw)" using store_runs(2) [of s i st now] by auto
  then show ?case using 2 by (simp add: screen_inv_def stored_def)
qed

lemma screen_inv_quiet: "screen_inv s \<Longrightarrow> quiet_step s s' \<Longrightarrow> screen_inv s'"
proof (elim quiet_stepE, goal_cases)
  case (1 w')
  then show ?case by (auto simp: screen_inv_def on_monitor_def py_effect_def set_refresh_def)
next
  case (3 w')
  then show ?case
    by (auto simp: screen_inv_def on_monitor_def py_effect_def shows_current_def drawing_def monitor_text_refresh)
next
  case (6 w')
  then show ?case using render_shows by (auto simp: screen_inv_def)
qed (auto simp: screen_inv_def)

lemma screen_inv_menu: "screen_inv s \<Longrightarrow> menu_step api fs eds s s' \<Longrightarrow> screen_inv s'"
proof (elim menu_stepE, goal_cases)
  case (2 w')
  then show ?case using render_shows by (auto simp: screen_inv_def)
qed (auto simp: screen_inv_def after_input_def after_entry_def split: sum.split)

lemma reach_screen_inv: "tool_reach api fs eds s \<Longrightarrow> screen_inv s"
proof (induction rule: tool_reach.induct)
  case (tool_init w)
  show ?case by (simp add: screen_inv_def tool_start_def)
next
  case (tool_event s s')
  then show ?case using screen_inv_event reach_names_inv by blast
qed (auto intro: screen_inv_menu screen_inv_quiet)

text \<open>How many steps the receive and refresh threads can take without a new event.\<close>

fun rank :: "refresher \<Rightarrow> nat" where
  "rank R_wait = 0" | "rank R_clear = 3" | "rank R_check = 2" | "rank R_render = 1"

definition work_left :: "'d tool \<Rightarrow> nat" where
  "work_left s =
     5 * to_set s + (if force_refresh (monitor (wld s)) \<and> refr s \<noteq> R_clear then 4 else 0) + rank (refr s)"

lemma quiet_step_work: "quiet_step s s' \<Longrightarrow> work_left s' < work_left s"
proof (elim quiet_stepE, goal_cases)
  case (1 w')
  then show ?case by (auto simp: work_left_def on_monitor_def py_effect_def set_refresh_def)
next
  case (3 w')
  then show ?case by (auto simp: work_left_def on_monitor_def py_effect_def)
next
  case (6 w')
  then have "monitor w' = monitor (wld s)" using render_shows by blast
  then show ?case using 6 by (simp add: work_left_def)
qed (auto simp: work_left_def)

lemma quiet_step_text: "quiet_step s s' \<Longrightarrow> mpc s' = mpc s \<and> monitor_text (monitor (wld s')) = monitor_text (monitor (wld s))"
proof (elim quiet_stepE, goal_cases)
  case (6 w')
  then have "monitor w' = monitor (wld s)" using render_shows by blast
  then show ?case using 6 by simp
qed (auto simp: on_monitor_def py_effect_def set_refresh_def monitor_text_refresh)

lemma quiet_run:
  "quiet_step\<^sup>*\<^sup>* s s' \<Longrightarrow> mpc s' = mpc s \<and> monitor_text (monitor (wld s')) = monitor_text (monitor (wld s)) \<and>
     (tool_reach api fs eds s \<longrightarrow> tool_reach api fs eds s')"
  by (induction rule: rtranclp_induct) (auto dest: quiet_step_text intro: tool_quiet)

text \<open>When these threads can do nothing more, they have nothing left to do.\<close>

lemma quiet_stuck:
  assumes "\<And>s'. \<not> quiet_step s s'"
  shows "to_set s = 0" "refr s = R_wait" "\<not> force_refresh (monitor (wld s))"
proof -
  have run: "\<exists>w'. on_monitor f (wld s) = Some (Inr (), w')" "\<exists>w'. render_full MENU_TEXT (wld s) = Some (Inr (), w')" for f
    by (simp_all add: on_monitor_def render_full_def py_effect_def)
  show "to_set s = 0" using assms run(1) quiet_set [of s] by blast
  show refr: "refr s = R_wait"
    using assms run quiet_clear [of s] quiet_yes [of s] quiet_no [of s] quiet_draw [of s]
    by (cases "refr s"; cases "in_menu s") blast+
  show "\<not> force_refresh (monitor (wld s))" using assms refr quiet_wake [of s] by blast
qed

subsection \<open>The menu's thread alone\<close>

definition go_on :: "'d node_api \<Rightarrow> files \<Rightarrow> string list \<Rightarrow> bool \<Rightarrow> ('d co_world, unit) py" where
  "go_on api fs eds go = (if go then main_loop api fs eds else py_return ())"

text \<open>What is left of the loop, from each place in it.\<close>

fun rest_of :: "'d node_api \<Rightarrow> files \<Rightarrow> string list \<Rightarrow> menu_pc \<Rightarrow> ('d co_world, unit) py" where
  "rest_of api fs eds M_top = main_loop api fs eds"
| "rest_of api fs eds M_draw = main_loop api fs eds"
| "rest_of api fs eds M_input =
     py_bind (py_input []) (\<lambda>s. py_bind (dispatch api fs eds (strip s)) (go_on api fs eds))"
| "rest_of api fs eds (M_read op) = py_bind (dispatch api fs eds op) (go_on api fs eds)"
| "rest_of api fs eds (M_op op) = py_bind (dispatch api fs eds op) (go_on api fs eds)"
| "rest_of api fs eds (M_end r) = py_lift r"

lemma main_loop_unfold:
  "main_loop api fs eds =
     py_bind (render_full MENU_TEXT) (\<lambda>_. py_bind (py_input []) (\<lambda>s.
       py_bind (dispatch api fs eds (strip s)) (go_on api fs eds)))"
proof (rule ext)
  fix w
  have "(\<lambda>go w1. if go then main_loop api fs eds w1 else py_return () w1) = go_on api fs eds"
    by (auto simp: go_on_def fun_eq_iff)
  then show "main_loop api fs eds w = py_bind (render_full MENU_TEXT) (\<lambda>_. py_bind (py_input []) (\<lambda>s.
       py_bind (dispatch api fs eds (strip s)) (go_on api fs eds))) w"
    by (subst main_loop.simps) (simp add: menu_turn_def py_bind_assoc)
qed

lemma menu_step_rest: "menu_step api fs eds s s' \<Longrightarrow> rest_of api fs eds (mpc s) (wld s) = rest_of api fs eds (mpc s') (wld s')"
proof (elim menu_stepE, goal_cases)
  case (2 w')
  then show ?case by (simp add: main_loop_unfold py_bind_run)
next
  case (3 r w')
  then show ?case by (cases r) (simp_all add: after_input_def py_bind_run py_raise_def)
next
  case (5 op r w')
  then show ?case by (cases r) (auto simp: after_entry_def go_on_def py_bind_run py_raise_def)
qed simp_all

text \<open>One turn of the menu, as steps; the subscriptions it has recorded are known afterwards.\<close>

lemma menu_turn_steps:
  assumes pc: "mpc s = M_top" and turn: "menu_turn api fs eds (wld s) = Some (r, w')"
  shows "\<exists>s'. (menu_step api fs eds)\<^sup>*\<^sup>* s s' \<and> wld s' = w' \<and> mpc s' = after_entry r \<and>
     (isl r \<or> keys_of (pdo_callbacks (monitor w')) \<subseteq> pdo_subs s' \<and> keys_of (hb_callbacks (monitor w')) \<subseteq> hb_subs s')"
proof -
  obtain w1 where w1: "render_full MENU_TEXT (wld s) = Some (Inr (), w1)"
    by (simp add: render_full_def py_effect_def)
  let ?s1 = "s\<lparr>in_menu := True, mpc := M_draw\<rparr>"
  let ?s2 = "?s1\<lparr>wld := w1, mpc := M_input\<rparr>"
  have "menu_step api fs eds s ?s1" by (rule menu_top [OF pc])
  moreover have "menu_step api fs eds ?s1 ?s2" by (rule menu_draw) (simp_all add: w1)
  ultimately have to2: "(menu_step api fs eds)\<^sup>*\<^sup>* s ?s2" by (rule converse_rtranclp_into_rtranclp [OF _ r_into_rtranclp])
  have rest: "py_bind (py_input []) (\<lambda>s. dispatch api fs eds (strip s)) w1 = Some (r, w')"
    using turn w1 by (simp add: menu_turn_def py_bind_run)
  obtain q w2 where w2: "py_input [] w1 = Some (q, w2)"
    using rest by (cases "py_input [] w1") (auto simp: py_bind_def)
  let ?s3 = "?s2\<lparr>wld := w2, mpc := after_input q\<rparr>"
  have "menu_step api fs eds ?s2 ?s3" by (rule menu_input) (simp_all add: w2)
  with to2 have to3: "(menu_step api fs eds)\<^sup>*\<^sup>* s ?s3" by (rule rtranclp.rtrancl_into_rtrancl)
  show ?thesis
  proof (cases q)
    case (Inl e)
    then have "r = Inl e" "w' = w2" using rest w2 Inl by (simp_all add: py_bind_run)
    then show ?thesis using to3 Inl by (intro exI [of _ ?s3]) (simp add: after_input_def after_entry_def)
  next
    case (Inr x)
    then have disp: "dispatch api fs eds (strip x) w2 = Some (r, w')" using rest w2 Inr by (simp add: py_bind_run)
    let ?s4 = "?s3\<lparr>in_menu := False, mpc := M_op (strip x)\<rparr>"
    let ?s5 = "?s4\<lparr>wld := w', mpc := after_entry r, pdo_subs := pdo_subs ?s4 \<union> keys_of (pdo_callbacks (monitor w')),
      hb_subs := hb_subs ?s4 \<union> keys_of (hb_callbacks (monitor w'))\<rparr>"
    have "menu_step api fs eds ?s3 ?s4" by (rule menu_read) (simp add: Inr after_input_def)
    moreover have "menu_step api fs eds ?s4 ?s5" by (rule menu_entry [where op = "strip x"]) (simp_all add: disp)
    ultimately have "(menu_step api fs eds)\<^sup>*\<^sup>* s ?s5"
      using to3 by (blast intro: rtranclp.rtrancl_into_rtrancl)
    then show ?thesis by (intro exI [of _ ?s5]) auto
  qed
qed

lemma main_loop_steps:
  assumes "main_loop api fs eds w = Some (r, w')" "mpc s = M_top" "wld s = w"
  shows "\<exists>s'. (menu_step api fs eds)\<^sup>*\<^sup>* s s' \<and> mpc s' = M_end r \<and> wld s' = w'"
proof -
  let ?P = "\<lambda>api fs eds w y. \<forall>s. mpc s = M_top \<and> wld s = w \<longrightarrow>
     (\<exists>s'. (menu_step api fs eds)\<^sup>*\<^sup>* s s' \<and> mpc s' = M_end (fst y) \<and> wld s' = snd y)"
  have "?P api fs eds w (r, w')"
  proof (rule main_loop.raw_induct [where P = ?P, OF _ assms(1)], intro allI impI, elim conjE, goal_cases)
    case (1 loop api fs eds w y s)
    obtain r w' where y: "y = (r, w')" by fastforce
    from "1"(2) consider e where "menu_turn api fs eds w = Some (Inl e, w')" "r = Inl e"
      | w1 where "menu_turn api fs eds w = Some (Inr True, w1)" "loop api fs eds w1 = Some (r, w')"
      | "menu_turn api fs eds w = Some (Inr False, w')" "r = Inr ()"
      by (auto simp: y py_bind_eq_Some py_return_def split: if_splits)
    then show ?case
    proof cases
      case (1 e)
      then show ?thesis
        using menu_turn_steps [OF \<open>mpc s = M_top\<close>, of api fs eds "Inl e" w'] \<open>wld s = w\<close> by (auto simp: y after_entry_def)
    next
      case (2 w1)
      obtain s1 where s1: "(menu_step api fs eds)\<^sup>*\<^sup>* s s1" "wld s1 = w1" "mpc s1 = M_top"
        using menu_turn_steps [OF \<open>mpc s = M_top\<close>, of api fs eds "Inr True" w1] 2(1) \<open>wld s = w\<close>
        by (auto simp: after_entry_def)
      obtain s' where "(menu_step api fs eds)\<^sup>*\<^sup>* s1 s'" "mpc s' = M_end r" "wld s' = w'"
        using "1"(1) [OF 2(2)] s1(2,3) by auto
      then show ?thesis using s1(1) by (auto simp: y intro: rtranclp_trans)
    next
      case 3
      then show ?thesis
        using menu_turn_steps [OF \<open>mpc s = M_top\<close>, of api fs eds "Inr False" w'] \<open>wld s = w\<close>
        by (auto simp: y after_entry_def)
    qed
  qed
  then show ?thesis using assms(2,3) by simp
qed

subsection \<open>Properties\<close>



text \<open>Node 5 is added, its heartbeat subscribed to, and one arrives while the user is at the main menu.\<close>

lemma demo_turns:
  "\<exists>w1 w2. menu_turn (demo_api failing_read) (one_file [] []) [''eds/a.eds'']
       (empty_co 0 [Line ''1'', Line ''5'', Line ''1'', Line ''7'', Line ''1'']) = Some (Inr True, w1) \<and>
     menu_turn (demo_api failing_read) (one_file [] []) [''eds/a.eds''] w1 = Some (Inr True, w2) \<and>
     nodes_meta w2 = [(5, ''a.eds'')] \<and> hb_callbacks (monitor w2) = [(5, \<lparr>cb_id = 0, cb_node = 5\<rparr>)] \<and>
     subscribed_hbs (monitor w2) = []"
proof -
  have lines: "int_of_str ''5'' = Some 5" "strip ''1'' = ''1''" "strip ''7'' = ''7''" by code_simp+
  have base: "basename ''eds/a.eds'' = ''a.eds''" by (simp add: basename_def)
  obtain w1 where w1: "menu_turn (demo_api failing_read) (one_file [] []) [''eds/a.eds'']
       (empty_co 0 [Line ''1'', Line ''5'', Line ''1'', Line ''7'', Line ''1'']) = Some (Inr True, w1)"
    "nodes w1 = [(5, \<lparr>n_id = 5, n_ref = 0, n_od = []\<rparr>)]" "nodes_meta w1 = [(5, ''a.eds'')]"
    "inp w1 = [Line ''7'', Line ''1'']" "monitor w1 = EventMonitor_init"
    by (simp add: menu_turn_def render_full_def dispatch_def lines add_node_def choose_eds_def numbered_def enumerate_simps
        empty_co_def input_Line py_int_def base demo_api_def choose_number_Cons(2) [OF _ int_of_1] say_run dev_call_def
        command_def record_cmd_def py_return_def py_effect_def py_bind_def)
  obtain w2 where "menu_turn (demo_api failing_read) (one_file [] []) [''eds/a.eds''] w1 = Some (Inr True, w2)"
    "nodes_meta w2 = [(5, ''a.eds'')]" "hb_callbacks (monitor w2) = [(5, \<lparr>cb_id = 0, cb_node = 5\<rparr>)]"
    "subscribed_hbs (monitor w2) = []"
    using w1(2-5) by (simp add: menu_turn_def render_full_def dispatch_def lines menu_subscribe_heartbeat_def with_node_def
        choose_node_def list_choices_def enumerate_simps dict_index_def choose_number_Cons(2) [OF _ int_of_1]
        subscribe_heartbeat_def new_callback_def on_monitor_def hb_record_def EventMonitor_init_def
        input_Line demo_api_def say_run dev_call_def py_simps)
  with w1(1) show ?thesis by blast
qed

lemma reach_menu_steps: "(menu_step api fs eds)\<^sup>*\<^sup>* s s' \<Longrightarrow> tool_reach api fs eds s \<Longrightarrow> tool_reach api fs eds s'"
  by (induction rule: rtranclp_induct) (auto intro: tool_menu)

lemma demo_tool:
  "\<exists>s :: rat tool. tool_reach (demo_api failing_read) (one_file [] []) [''eds/a.eds''] s \<and> mpc s = M_input \<and> 5 \<in> hb_subs s \<and>
     subscribed_hbs (monitor (wld s)) = [(5, RInt 5, 10, ''a.eds'')]"
proof -
  let ?api = "demo_api failing_read" and ?fs = "one_file [] []" and ?eds = "[''eds/a.eds'']"
  let ?w = "empty_co (0 :: rat) [Line ''1'', Line ''5'', Line ''1'', Line ''7'', Line ''1'']"
  obtain w1 w2 where w: "menu_turn ?api ?fs ?eds ?w = Some (Inr True, w1)" "menu_turn ?api ?fs ?eds w1 = Some (Inr True, w2)"
    "nodes_meta w2 = [(5, ''a.eds'')]" "hb_callbacks (monitor w2) = [(5, \<lparr>cb_id = 0, cb_node = 5\<rparr>)]"
    "subscribed_hbs (monitor w2) = []" using demo_turns by blast
  have same: "wld (tool_start ?w) = ?w" "mpc (tool_start ?w) = M_top" by (simp_all add: tool_start_def empty_co_def)
  obtain s1 where s1: "(menu_step ?api ?fs ?eds)\<^sup>*\<^sup>* (tool_start ?w) s1" "wld s1 = w1" "mpc s1 = M_top"
    using menu_turn_steps [OF same(2), of ?api ?fs ?eds "Inr True" w1] w(1) same(1) by (auto simp: after_entry_def)
  obtain s2 where s2: "(menu_step ?api ?fs ?eds)\<^sup>*\<^sup>* s1 s2" "wld s2 = w2" "mpc s2 = M_top"
    "keys_of (hb_callbacks (monitor w2)) \<subseteq> hb_subs s2"
    using menu_turn_steps [OF s1(3), of ?api ?fs ?eds "Inr True" w2] w(2) s1(2) by (auto simp: after_entry_def)
  have five: "5 \<in> hb_subs s2" using s2(4) w(4) by (auto simp: keys_of_def)
  have r2: "tool_reach ?api ?fs ?eds s2" using reach_menu_steps s1(1) s2(1) tool_init by blast
  let ?s3 = "s2\<lparr>in_menu := True, mpc := M_draw\<rparr>"
  have r3: "tool_reach ?api ?fs ?eds ?s3" by (rule tool_menu [OF r2 menu_top [OF s2(3)]])
  obtain w3 where w3: "render_full MENU_TEXT w2 = Some (Inr (), w3)" "monitor w3 = monitor w2" "nodes_meta w3 = nodes_meta w2"
    by (simp add: render_full_def py_effect_def)
  let ?s4 = "?s3\<lparr>wld := w3, mpc := M_input\<rparr>"
  have "menu_step ?api ?fs ?eds ?s3 ?s4" by (rule menu_draw) (simp_all add: w3(1) s2(2))
  then have r4: "tool_reach ?api ?fs ?eds ?s4" by (rule tool_menu [OF r3])
  obtain w4 where w4: "hb_store 5 (RInt 5) 10 w3 = Some (Inr (), w4)" "subscribed_hbs (monitor w4) = [(5, RInt 5, 10, ''a.eds'')]"
    using w3 w(3,5) by (simp add: hb_store_def get_world_def dict_index_def on_monitor_def hb_event_def py_simps)
  have "event_step ?s4 (stored (Inr (), w4) ?s4)" by (rule event_hb [where i = 5 and st = "RInt 5" and now = 10]) (simp_all add: five w4(1))
  then have "tool_reach ?api ?fs ?eds (stored (Inr (), w4) ?s4)" by (rule tool_event [OF r4])
  then show ?thesis using five w4(2) by (intro exI [of _ "stored (Inr (), w4) ?s4"]) (simp add: stored_def)
qed

text \<open>(C12) Callbacks never fail.  In every state the tool can get into, with any interleaving of the menu,
  the callbacks and the redrawing, no callback has raised, and whatever callback the library runs
  next stores its entry under the name of an added node.  What is recorded and what is shown has
  been subscribed to.\<close>

theorem callbacks_never_fail:
  assumes "tool_reach api fs eds s"
  shows "\<not> raised s \<and>
     (\<forall>key\<in>pdo_subs s. \<forall>vs now. \<exists>name w'. dict_get (nodes_meta (wld s)) (fst key) = Some name \<and>
        pdo_callback key vs now (wld s) = Some (Inr (), w') \<and>
        dict_get (subscribed_pdos (monitor w')) key = Some (vs, now, name)) \<and>
     (\<forall>i\<in>hb_subs s. \<forall>st now. \<exists>name w'. dict_get (nodes_meta (wld s)) i = Some name \<and>
        hb_callback i st now (wld s) = Some (Inr (), w') \<and>
        dict_get (subscribed_hbs (monitor w')) i = Some (st, now, name)) \<and>
     keys_of (pdo_callbacks (monitor (wld s))) \<union> keys_of (subscribed_pdos (monitor (wld s))) \<subseteq> pdo_subs s \<and>
     keys_of (hb_callbacks (monitor (wld s))) \<union> keys_of (subscribed_hbs (monitor (wld s))) \<subseteq> hb_subs s"
proof (intro conjI ballI allI)
  note inv = reach_names_inv [OF assms]
  show "\<not> raised s"
    "keys_of (pdo_callbacks (monitor (wld s))) \<union> keys_of (subscribed_pdos (monitor (wld s))) \<subseteq> pdo_subs s"
    "keys_of (hb_callbacks (monitor (wld s))) \<union> keys_of (subscribed_hbs (monitor (wld s))) \<subseteq> hb_subs s"
    using inv by (simp_all add: names_inv_def)
  show "\<exists>name w'. dict_get (nodes_meta (wld s)) (fst key) = Some name \<and>
      pdo_callback key vs now (wld s) = Some (Inr (), w') \<and>
      dict_get (subscribed_pdos (monitor w')) key = Some (vs, now, name)" if "key \<in> pdo_subs s" for key vs now
    using store_runs(1) [OF inv that, of vs now]
    by (auto simp: callback_halves py_bind_run on_monitor_def py_effect_def set_refresh_def pdo_event_def dict_get_put)
  show "\<exists>name w'. dict_get (nodes_meta (wld s)) i = Some name \<and>
      hb_callback i st now (wld s) = Some (Inr (), w') \<and>
      dict_get (subscribed_hbs (monitor w')) i = Some (st, now, name)" if "i \<in> hb_subs s" for i st now
    using store_runs(2) [OF inv that, of st now]
    by (auto simp: callback_halves py_bind_run on_monitor_def py_effect_def set_refresh_def hb_event_def dict_get_put)
qed

theorem callbacks_never_fail_witness:
  "\<exists>(s :: rat tool) name w'. 5 \<in> hb_subs s \<and> hb_callback 5 (RInt 4) 11 (wld s) = Some (Inr (), w') \<and>
     subscribed_hbs (monitor (wld s)) = [(5, RInt 5, 10, ''a.eds'')] \<and>
     dict_get (subscribed_hbs (monitor w')) 5 = Some (RInt 4, 11, name)"
proof -
  obtain s :: "rat tool" where s: "tool_reach (demo_api failing_read) (one_file [] []) [''eds/a.eds''] s"
    "5 \<in> hb_subs s" "subscribed_hbs (monitor (wld s)) = [(5, RInt 5, 10, ''a.eds'')]" using demo_tool by blast
  then show ?thesis using callbacks_never_fail [OF s(1)] by blast
qed

text \<open>(C13) The main menu catches up.  From every state the tool can get into in which the user is at the
  main menu, the callbacks under way and the refresh thread come to rest after finitely many steps,
  in any order; once they rest, the last thing on the screen is the drawing of the present data
  with the menu below it.\<close>

theorem screen_catches_up:
  assumes "tool_reach api fs eds s" "mpc s = M_input"
  shows "wf {(t', t). quiet_step t t'} \<and>
     (\<exists>s'. quiet_step\<^sup>*\<^sup>* s s' \<and> (\<forall>s''. \<not> quiet_step s' s'')) \<and>
     (\<forall>s'. quiet_step\<^sup>*\<^sup>* s s' \<and> (\<forall>s''. \<not> quiet_step s' s'') \<longrightarrow>
        suffix (drawing (monitor (wld s))) (out (wld s')))"
proof (intro conjI allI impI)
  have sub: "{(t', t). quiet_step t t'} \<subseteq> measure work_left" by (auto dest: quiet_step_work)
  show "wf {(t', t). quiet_step t t'}" by (rule wf_subset [OF wf_measure sub])
  show "\<exists>s'. quiet_step\<^sup>*\<^sup>* s s' \<and> (\<forall>s''. \<not> quiet_step s' s'')"
  proof (induction s rule: measure_induct_rule [of work_left])
    case (less s)
    show ?case
    proof (cases "\<exists>t. quiet_step s t")
      case True
      then obtain t where t: "quiet_step s t" by blast
      obtain s' where "quiet_step\<^sup>*\<^sup>* t s'" "\<forall>s''. \<not> quiet_step s' s''"
        using less [OF quiet_step_work [OF t]] by blast
      then show ?thesis using t by (blast intro: converse_rtranclp_into_rtranclp)
    qed blast
  qed
  fix s'
  assume "quiet_step\<^sup>*\<^sup>* s s' \<and> (\<forall>s''. \<not> quiet_step s' s'')"
  then have run: "quiet_step\<^sup>*\<^sup>* s s'" and stuck: "\<And>s''. \<not> quiet_step s' s''" by auto
  note kept = quiet_run [OF run, of api fs eds]
  have "screen_inv s'" using kept assms(1) reach_screen_inv by blast
  then have "shows_current (wld s')"
    using quiet_stuck [OF stuck] kept assms(2) by (simp add: screen_inv_def)
  then show "suffix (drawing (monitor (wld s))) (out (wld s'))"
    using kept by (simp add: shows_current_def drawing_def)
qed

theorem screen_catches_up_witness:
  "\<exists>s s' :: rat tool. subscribed_hbs (monitor (wld s)) = [(5, RInt 5, 10, ''a.eds'')] \<and> quiet_step\<^sup>*\<^sup>* s s' \<and>
     suffix (drawing (monitor (wld s))) (out (wld s'))"
proof -
  obtain s :: "rat tool" where s: "tool_reach (demo_api failing_read) (one_file [] []) [''eds/a.eds''] s"
    "mpc s = M_input" "subscribed_hbs (monitor (wld s)) = [(5, RInt 5, 10, ''a.eds'')]" using demo_tool by blast
  then show ?thesis using screen_catches_up [OF s(1,2)] by blast
qed

end
