(* ===== verification/Monitor_Runs.thy ===== *)
theory Monitor_Runs
  imports Event_Monitor
begin

text \<open>
  The operations of \<open>EventMonitor\<close> take the steps of \<open>sub_run\<close>, for PDOs and for heartbeats.  A session
  is any sequence of subscribing, unsubscribing, callbacks run by the library's thread, and other
  code that touches neither these dictionaries nor the library's callback lists.  What the
  operations on a table have to do is stated once (\<open>table_ops_ok\<close>), and sessions that obey it are
  simulated by runs; the two tables are then instances.
\<close>

subsection \<open>Sessions of a table\<close>

text \<open>Which statements are operations on a key: subscribing, unsubscribing, the callback at work.\<close>

record ('w, 'k) table_ops =
  o_subscribe :: "'k \<Rightarrow> ('w, unit) py \<Rightarrow> bool"
  o_unsubscribe :: "'k \<Rightarrow> ('w, unit) py \<Rightarrow> bool"
  o_event :: "'k \<Rightarrow> ('w, unit) py \<Rightarrow> bool"

text \<open>\<open>lib w\<close> are the callbacks the library holds in \<open>w\<close>.\<close>

definition same_table ::
    "('k, 'v) table \<Rightarrow> ('d co_world \<Rightarrow> ('k \<times> nat) set) \<Rightarrow> 'd co_world \<Rightarrow> 'd co_world \<Rightarrow> bool" where
  "same_table T lib w w' \<longleftrightarrow>
     t_shown T (monitor w') = t_shown T (monitor w) \<and>
     t_callback T (monitor w') = t_callback T (monitor w) \<and> lib w' = lib w"

text \<open>
  Sessions.  \<open>in_call\<close> are the callbacks that have been called and have not got the lock yet, and
  \<open>tidy\<close> is as in \<open>sub_run\<close>.
\<close>

inductive session ::
    "('k, 'v) table \<Rightarrow> ('d co_world \<Rightarrow> ('k \<times> nat) set) \<Rightarrow> ('d co_world, 'k) table_ops \<Rightarrow> bool \<Rightarrow>
     'd co_world \<Rightarrow> ('k \<times> nat) set \<Rightarrow> bool"
  for T :: "('k, 'v) table" and lib :: "'d co_world \<Rightarrow> ('k \<times> nat) set" and ops :: "('d co_world, 'k) table_ops"
    and tidy :: bool where
  ses_init:
    "t_shown T (monitor w) = t_shown T EventMonitor_init \<Longrightarrow>
     t_callback T (monitor w) = t_callback T EventMonitor_init \<Longrightarrow> lib w = {} \<Longrightarrow> session T lib ops tidy w {}"
| ses_subscribe:
    "session T lib ops tidy w in_call \<Longrightarrow> o_subscribe ops k m \<Longrightarrow>
     (tidy \<longrightarrow> t_callback T (monitor w) k = None) \<Longrightarrow> m w = Some (r, w') \<Longrightarrow> session T lib ops tidy w' in_call"
| ses_unsubscribe:
    "session T lib ops tidy w in_call \<Longrightarrow> o_unsubscribe ops k m \<Longrightarrow>
     (tidy \<longrightarrow> (\<forall>c. (k, c) \<notin> in_call)) \<Longrightarrow> m w = Some (r, w') \<Longrightarrow> session T lib ops tidy w' in_call"
| ses_called:
    "session T lib ops tidy w in_call \<Longrightarrow> kc \<in> lib w \<Longrightarrow> session T lib ops tidy w (insert kc in_call)"
| ses_event:
    "session T lib ops tidy w in_call \<Longrightarrow> (k, c) \<in> in_call \<Longrightarrow> o_event ops k m \<Longrightarrow> m w = Some (r, w') \<Longrightarrow>
     session T lib ops tidy w' (in_call - {(k, c)})"
| ses_other:
    "session T lib ops tidy w in_call \<Longrightarrow> same_table T lib w w' \<Longrightarrow> session T lib ops tidy w' in_call"

text \<open>
  What the operations do: a subscription that fails changes nothing, one that succeeds records the
  callback the library has got; unsubscribing removes a callback the library holds from both, and
  does nothing when none is recorded; the callback stores an entry or raises before it does.
\<close>

definition table_subscribed ::
    "('k, 'v) table \<Rightarrow> ('d co_world \<Rightarrow> ('k \<times> nat) set) \<Rightarrow> 'k \<Rightarrow> 'd co_world \<Rightarrow> 'd co_world \<Rightarrow> bool" where
  "table_subscribed T lib k w w' \<longleftrightarrow>
     same_table T lib w w' \<or>
     (\<exists>cb. t_shown T (monitor w') = t_shown T (monitor w) \<and>
        t_callback T (monitor w') = (t_callback T (monitor w))(k \<mapsto> cb) \<and>
        lib w' = insert (k, cb_id cb) (lib w))"

definition table_forgotten ::
    "('k, 'v) table \<Rightarrow> ('d co_world \<Rightarrow> ('k \<times> nat) set) \<Rightarrow> 'k \<Rightarrow> 'd co_world \<Rightarrow> 'd co_world \<Rightarrow> bool" where
  "table_forgotten T lib k w w' \<longleftrightarrow>
     (case t_callback T (monitor w) k of
        None \<Rightarrow> same_table T lib w w'
      | Some cb \<Rightarrow> (k, cb_id cb) \<in> lib w \<longrightarrow>
          t_shown T (monitor w') = (t_shown T (monitor w))(k := None) \<and>
          t_callback T (monitor w') = (t_callback T (monitor w))(k := None) \<and>
          lib w' = lib w - {(k, cb_id cb)})"

definition table_stored ::
    "('k, 'v) table \<Rightarrow> ('d co_world \<Rightarrow> ('k \<times> nat) set) \<Rightarrow> 'k \<Rightarrow> 'd co_world \<Rightarrow> 'd co_world \<Rightarrow> bool" where
  "table_stored T lib k w w' \<longleftrightarrow>
     same_table T lib w w' \<or>
     (\<exists>v. t_shown T (monitor w') = (t_shown T (monitor w))(k \<mapsto> v) \<and>
        t_callback T (monitor w') = t_callback T (monitor w) \<and> lib w' = lib w)"

definition table_ops_ok ::
    "('k, 'v) table \<Rightarrow> ('d co_world \<Rightarrow> ('k \<times> nat) set) \<Rightarrow> ('d co_world, 'k) table_ops \<Rightarrow> bool" where
  "table_ops_ok T lib ops \<longleftrightarrow>
     (\<forall>k m w r w'. m w = Some (r, w') \<longrightarrow>
        (o_subscribe ops k m \<longrightarrow> table_subscribed T lib k w w') \<and>
        (o_unsubscribe ops k m \<longrightarrow> table_forgotten T lib k w w') \<and>
        (o_event ops k m \<longrightarrow> table_stored T lib k w w'))"

lemma table_ops_okD:
  assumes "table_ops_ok T lib ops" "m w = Some (r, w')"
  shows "o_subscribe ops k m \<Longrightarrow> table_subscribed T lib k w w'"
    and "o_unsubscribe ops k m \<Longrightarrow> table_forgotten T lib k w w'"
    and "o_event ops k m \<Longrightarrow> table_stored T lib k w w'"
  using assms by (auto simp: table_ops_ok_def)

text \<open>The run of a session: the same lookups, and the library's callbacks are those it holds.\<close>

definition abstracts ::
    "('k, 'v) table \<Rightarrow> ('d co_world \<Rightarrow> ('k \<times> nat) set) \<Rightarrow> 'd co_world \<Rightarrow> ('k \<times> nat) set \<Rightarrow> 'k sub_state \<Rightarrow> bool" where
  "abstracts T lib w in_call s \<longleftrightarrow>
     t_shown T (tbl s) = t_shown T (monitor w) \<and> t_callback T (tbl s) = t_callback T (monitor w) \<and>
     held s = lib w \<and> in_flight s = in_call"

lemma abstracts_same: "same_table T lib w w' \<Longrightarrow> abstracts T lib w' F s = abstracts T lib w F s"
  by (simp add: abstracts_def same_table_def)

subsection \<open>The simulation\<close>

context subscription_table
begin

lemma session_simulated:
  assumes ok: "table_ops_ok T lib ops"
  shows "session T lib ops tidy w in_call \<Longrightarrow> \<exists>s. sub_run T tidy s \<and> abstracts T lib w in_call s"
proof (induction rule: session.induct)
  case (ses_init w)
  show ?case by (intro exI conjI, rule sub_init) (use ses_init in \<open>simp add: abstracts_def\<close>)
next
  case (ses_subscribe w in_call k m r w')
  then obtain s where s: "sub_run T tidy s" "abstracts T lib w in_call s" by blast
  from table_ops_okD(1) [OF ok ses_subscribe.hyps(4,2)] show ?case
    unfolding table_subscribed_def
  proof (elim disjE exE conjE)
    assume "same_table T lib w w'"
    then show ?thesis using s abstracts_same by blast
  next
    fix cb
    assume run: "t_shown T (monitor w') = t_shown T (monitor w)"
      "t_callback T (monitor w') = (t_callback T (monitor w))(k \<mapsto> cb)" "lib w' = insert (k, cb_id cb) (lib w)"
    let ?s = "s\<lparr>tbl := t_record T k cb (tbl s), held := insert (k, cb_id cb) (held s)\<rparr>"
    have "sub_run T tidy ?s"
      using sub_subscribe [OF s(1), where k = k and cb = cb] ses_subscribe.hyps(3) s(2) by (simp add: abstracts_def)
    moreover have "abstracts T lib w' in_call ?s" using s(2) run by (simp add: abstracts_def laws)
    ultimately show ?thesis by blast
  qed
next
  case (ses_unsubscribe w in_call k m r w')
  then obtain s where s: "sub_run T tidy s" "abstracts T lib w in_call s" by blast
  show ?case
  proof (cases "t_callback T (monitor w) k")
    case None
    then show ?thesis using table_ops_okD(2) [OF ok ses_unsubscribe.hyps(4,2)] s abstracts_same by (fastforce simp: table_forgotten_def)
  next
    case (Some cb)
    have rec: "t_callback T (tbl s) k = Some cb" using Some s(2) by (simp add: abstracts_def)
    have "(k, cb_id cb) \<in> lib w" using recorded_held [OF s(1) rec] s(2) by (simp add: abstracts_def)
    with table_ops_okD(2) [OF ok ses_unsubscribe.hyps(4,2)] Some
    have run: "t_shown T (monitor w') = (t_shown T (monitor w))(k := None)"
      "t_callback T (monitor w') = (t_callback T (monitor w))(k := None)" "lib w' = lib w - {(k, cb_id cb)}"
      by (simp_all add: table_forgotten_def)
    let ?s = "s\<lparr>tbl := t_forget T k (tbl s), held := held s - {(k, cb_id cb)}\<rparr>"
    have "sub_run T tidy ?s"
      using sub_unsubscribe [OF s(1) rec] ses_unsubscribe.hyps(3) s(2) by (simp add: abstracts_def)
    moreover have "abstracts T lib w' in_call ?s" using s(2) run by (simp add: abstracts_def laws)
    ultimately show ?thesis by blast
  qed
next
  case (ses_called w in_call kc)
  then obtain s where s: "sub_run T tidy s" "abstracts T lib w in_call s" by blast
  then show ?case
    using sub_called [OF s(1), where kc = kc] ses_called.hyps(2)
    by (intro exI [of _ "s\<lparr>in_flight := insert kc (in_flight s)\<rparr>"]) (simp add: abstracts_def)
next
  case (ses_event w in_call k c m r w')
  then obtain s where s: "sub_run T tidy s" "abstracts T lib w in_call s" by blast
  then have fl: "(k, c) \<in> in_flight s" using ses_event.hyps(2) by (simp add: abstracts_def)
  from table_ops_okD(3) [OF ok ses_event.hyps(4,3)] show ?case
    unfolding table_stored_def
  proof (elim disjE exE conjE)
    assume "same_table T lib w w'"
    then show ?thesis
      using sub_dropped [OF s(1) fl] s(2)
      by (intro exI [of _ "s\<lparr>in_flight := in_flight s - {(k, c)}\<rparr>"]) (simp add: abstracts_def same_table_def)
  next
    fix v
    assume run: "t_shown T (monitor w') = (t_shown T (monitor w))(k \<mapsto> v)"
      "t_callback T (monitor w') = t_callback T (monitor w)" "lib w' = lib w"
    let ?s = "s\<lparr>tbl := t_event T k v (tbl s), in_flight := in_flight s - {(k, c)}\<rparr>"
    have "sub_run T tidy ?s" by (rule sub_event [OF s(1) fl])
    moreover have "abstracts T lib w' (in_call - {(k, c)}) ?s" using s(2) run by (simp add: abstracts_def laws)
    ultimately show ?thesis by blast
  qed
next
  case (ses_other w in_call w')
  then show ?case using abstracts_same by blast
qed

text \<open>In a tidy session the library holds exactly what is recorded, and what is shown is recorded.\<close>

lemma session_matches:
  assumes "table_ops_ok T lib ops" "session T lib ops True w in_call"
  shows "(k, c) \<in> lib w \<longleftrightarrow> (\<exists>cb. t_callback T (monitor w) k = Some cb \<and> cb_id cb = c)"
    and "t_callback T (monitor w) k = None \<Longrightarrow> t_shown T (monitor w) k = None"
proof -
  obtain s where s: "sub_run T True s" "abstracts T lib w in_call s"
    using session_simulated [OF assms] by blast
  note inv = tidy_inv [OF s(1)]
  have "(k, c) \<in> held s \<longleftrightarrow> (\<exists>cb. t_callback T (tbl s) k = Some cb \<and> cb_id cb = c)" using inv by blast
  then show "(k, c) \<in> lib w \<longleftrightarrow> (\<exists>cb. t_callback T (monitor w) k = Some cb \<and> cb_id cb = c)"
    using s(2) by (simp add: abstracts_def)
  have "t_callback T (tbl s) k = None \<Longrightarrow> t_shown T (tbl s) k = None" using inv by blast
  then show "t_callback T (monitor w) k = None \<Longrightarrow> t_shown T (monitor w) k = None"
    using s(2) by (simp add: abstracts_def)
qed

lemma session_unsubscribed:
  assumes ok: "table_ops_ok T lib ops" and ses: "session T lib ops True w in_call"
    and run: "o_unsubscribe ops k m" "m w = Some (r, w')" and quiet: "\<forall>c. (k, c) \<notin> in_call"
  shows "t_shown T (monitor w') k = None \<and> (\<forall>c. (k, c) \<notin> lib w')"
proof -
  have ses': "session T lib ops True w' in_call" by (rule ses_unsubscribe [OF ses run(1) _ run(2)]) (use quiet in simp)
  have none: "t_callback T (monitor w') k = None"
  proof (cases "t_callback T (monitor w) k")
    case None
    then show ?thesis using table_ops_okD(2) [OF ok run(2,1)] None by (simp add: table_forgotten_def same_table_def)
  next
    case (Some cb)
    then have "(k, cb_id cb) \<in> lib w" using session_matches(1) [OF ok ses] by blast
    with table_ops_okD(2) [OF ok run(2,1)] Some show ?thesis by (simp add: table_forgotten_def)
  qed
  then show ?thesis using session_matches [OF ok ses', of k] by simp
qed

end

subsection \<open>The operations on PDOs and on heartbeats\<close>

text \<open>
  What the library does with its callback lists (\<open>pcbs d\<close>: node reference, PDO number and callback;
  \<open>hcbs d\<close>: node reference and callback): adding appends, removing removes and raises only when the
  callback is not there.
\<close>

definition callback_lists ::
    "'d node_api \<Rightarrow> ('d \<Rightarrow> (nat \<times> nat \<times> nat) set) \<Rightarrow> ('d \<Rightarrow> (nat \<times> nat) set) \<Rightarrow> bool" where
  "callback_lists api pcbs hcbs \<longleftrightarrow>
     (\<forall>r k c d x d'. api_add_pdo_callback api r k c d = (x, d') \<longrightarrow>
        pcbs d' = (if isl x then pcbs d else insert (r, k, c) (pcbs d))) \<and>
     (\<forall>r k c d x d'. api_remove_pdo_callback api r k c d = (x, d') \<longrightarrow> (r, k, c) \<in> pcbs d \<longrightarrow>
        x = Inr () \<and> pcbs d' = pcbs d - {(r, k, c)}) \<and>
     (\<forall>r c d x d'. api_add_hb_callback api r c d = (x, d') \<longrightarrow>
        hcbs d' = (if isl x then hcbs d else insert (r, c) (hcbs d))) \<and>
     (\<forall>r c d x d'. api_append_callback api r c d = (x, d') \<longrightarrow>
        hcbs d' = (if isl x then hcbs d else insert (r, c) (hcbs d))) \<and>
     (\<forall>r c d x d'. (if api_has_remove_hb api r then api_remove_hb_callback api r c d
                    else api_remove_callback api r c d) = (x, d') \<longrightarrow> (r, c) \<in> hcbs d \<longrightarrow>
        x = Inr () \<and> hcbs d' = hcbs d - {(r, c)})"

lemma callback_listsD:
  assumes "callback_lists api pcbs hcbs"
  shows "api_add_pdo_callback api r k c d = (x, d') \<Longrightarrow> pcbs d' = (if isl x then pcbs d else insert (r, k, c) (pcbs d))"
    and "api_remove_pdo_callback api r k c d = (x, d') \<Longrightarrow> (r, k, c) \<in> pcbs d \<Longrightarrow>
       x = Inr () \<and> pcbs d' = pcbs d - {(r, k, c)}"
    and "api_add_hb_callback api r c d = (x, d') \<Longrightarrow> hcbs d' = (if isl x then hcbs d else insert (r, c) (hcbs d))"
    and "api_append_callback api r c d = (x, d') \<Longrightarrow> hcbs d' = (if isl x then hcbs d else insert (r, c) (hcbs d))"
    and "(if api_has_remove_hb api r then api_remove_hb_callback api r c d else api_remove_callback api r c d) = (x, d') \<Longrightarrow>
       (r, c) \<in> hcbs d \<Longrightarrow> x = Inr () \<and> hcbs d' = hcbs d - {(r, c)}"
proof -
  note laws = assms [unfolded callback_lists_def]
  show "api_add_pdo_callback api r k c d = (x, d') \<Longrightarrow> pcbs d' = (if isl x then pcbs d else insert (r, k, c) (pcbs d))"
    by (rule conjunct1 [OF laws, rule_format])
  show "api_remove_pdo_callback api r k c d = (x, d') \<Longrightarrow> (r, k, c) \<in> pcbs d \<Longrightarrow>
       x = Inr () \<and> pcbs d' = pcbs d - {(r, k, c)}"
    by (rule conjunct1 [OF conjunct2 [OF laws], rule_format])
  show "api_add_hb_callback api r c d = (x, d') \<Longrightarrow> hcbs d' = (if isl x then hcbs d else insert (r, c) (hcbs d))"
    by (rule conjunct1 [OF conjunct2 [OF conjunct2 [OF laws]], rule_format])
  show "api_append_callback api r c d = (x, d') \<Longrightarrow> hcbs d' = (if isl x then hcbs d else insert (r, c) (hcbs d))"
    by (rule conjunct1 [OF conjunct2 [OF conjunct2 [OF conjunct2 [OF laws]]], rule_format])
  show "(if api_has_remove_hb api r then api_remove_hb_callback api r c d else api_remove_callback api r c d) = (x, d') \<Longrightarrow>
       (r, c) \<in> hcbs d \<Longrightarrow> x = Inr () \<and> hcbs d' = hcbs d - {(r, c)}"
    by (rule conjunct2 [OF conjunct2 [OF conjunct2 [OF conjunct2 [OF laws]]], rule_format])
qed

text \<open>\<open>ref\<close> gives the node object of each node id: nodes are not replaced in a session.\<close>

definition pdo_lib :: "('d \<Rightarrow> (nat \<times> nat \<times> nat) set) \<Rightarrow> (int \<Rightarrow> nat) \<Rightarrow> 'd co_world \<Rightarrow> (pdo_key \<times> nat) set" where
  "pdo_lib pcbs ref w = {((i, n), c). 0 \<le> n \<and> (ref i, nat n, c) \<in> pcbs (dev w)}"

definition hb_lib :: "('d \<Rightarrow> (nat \<times> nat) set) \<Rightarrow> (int \<Rightarrow> nat) \<Rightarrow> 'd co_world \<Rightarrow> (int \<times> nat) set" where
  "hb_lib hcbs ref w = {(i, c). (ref i, c) \<in> hcbs (dev w)}"

definition pdo_ops :: "'d node_api \<Rightarrow> (int \<Rightarrow> nat) \<Rightarrow> ('d co_world, pdo_key) table_ops" where
  "pdo_ops api ref =
     \<lparr>o_subscribe = (\<lambda>key m. \<exists>node k. key = (n_id node, int k) \<and> n_ref node = ref (n_id node) \<and> m = subscribe_pdo api node k),
      o_unsubscribe = (\<lambda>key m. \<exists>node k. key = (n_id node, int k) \<and> n_ref node = ref (n_id node) \<and> m = unsubscribe_pdo api node k),
      o_event = (\<lambda>key m. \<exists>vs now. m = pdo_callback key vs now)\<rparr>"

definition hb_ops :: "'d node_api \<Rightarrow> (int \<Rightarrow> nat) \<Rightarrow> ('d co_world, int) table_ops" where
  "hb_ops api ref =
     \<lparr>o_subscribe = (\<lambda>key m. \<exists>node. key = n_id node \<and> n_ref node = ref (n_id node) \<and> m = subscribe_heartbeat api node),
      o_unsubscribe = (\<lambda>key m. \<exists>node. key = n_id node \<and> n_ref node = ref (n_id node) \<and> m = unsubscribe_heartbeat api node),
      o_event = (\<lambda>key m. \<exists>state now. m = hb_callback key state now)\<rparr>"

lemma pdo_lib_changes:
  assumes inj: "inj ref"
  shows "pcbs (dev w') = insert (ref i, k, c) (pcbs (dev w)) \<Longrightarrow> pdo_lib pcbs ref w' = insert ((i, int k), c) (pdo_lib pcbs ref w)"
    and "pcbs (dev w') = pcbs (dev w) - {(ref i, k, c)} \<Longrightarrow> pdo_lib pcbs ref w' = pdo_lib pcbs ref w - {((i, int k), c)}"
proof -
  have key: "0 \<le> n \<and> (ref j, nat n, e) = (ref i, k, c) \<longleftrightarrow> ((j, n), e) = ((i, int k), c)" for j n e
    by (auto simp: inj_eq [OF inj])
  show "pdo_lib pcbs ref w' = insert ((i, int k), c) (pdo_lib pcbs ref w)"
    if eq: "pcbs (dev w') = insert (ref i, k, c) (pcbs (dev w))"
    unfolding pdo_lib_def eq insert_iff using key by blast
  show "pdo_lib pcbs ref w' = pdo_lib pcbs ref w - {((i, int k), c)}"
    if eq: "pcbs (dev w') = pcbs (dev w) - {(ref i, k, c)}"
    unfolding pdo_lib_def eq using key by blast
qed

lemma hb_lib_changes:
  assumes inj: "inj ref"
  shows "hcbs (dev w') = insert (ref i, c) (hcbs (dev w)) \<Longrightarrow> hb_lib hcbs ref w' = insert (i, c) (hb_lib hcbs ref w)"
    and "hcbs (dev w') = hcbs (dev w) - {(ref i, c)} \<Longrightarrow> hb_lib hcbs ref w' = hb_lib hcbs ref w - {(i, c)}"
proof -
  have key: "(ref j, e) = (ref i, c) \<longleftrightarrow> (j, e) = (i, c)" for j e by (simp add: inj_eq [OF inj])
  show "hb_lib hcbs ref w' = insert (i, c) (hb_lib hcbs ref w)"
    if eq: "hcbs (dev w') = insert (ref i, c) (hcbs (dev w))"
    unfolding hb_lib_def eq insert_iff using key by blast
  show "hb_lib hcbs ref w' = hb_lib hcbs ref w - {(i, c)}"
    if eq: "hcbs (dev w') = hcbs (dev w) - {(ref i, c)}"
    unfolding hb_lib_def eq using key by blast
qed

lemma lib_cong:
  "pcbs (dev w') = pcbs (dev w) \<Longrightarrow> pdo_lib pcbs ref w' = pdo_lib pcbs ref w"
  "hcbs (dev w') = hcbs (dev w) \<Longrightarrow> hb_lib hcbs ref w' = hb_lib hcbs ref w"
  by (simp_all add: pdo_lib_def hb_lib_def)

lemma in_lib: "((i, int k), c) \<in> pdo_lib pcbs ref w \<longleftrightarrow> (ref i, k, c) \<in> pcbs (dev w)"
  "(i, c) \<in> hb_lib hcbs ref w \<longleftrightarrow> (ref i, c) \<in> hcbs (dev w)"
  by (simp_all add: pdo_lib_def hb_lib_def)

lemma subscribe_pdo_run:
  assumes "subscribe_pdo api node k w = Some (r, w')"
  obtains x d where "api_add_pdo_callback api (n_ref node) k (next_callback (monitor w)) (dev w) = (x, d)"
    "dev w' = d" "r = x" "subscribed_pdos (monitor w') = subscribed_pdos (monitor w)"
    "pdo_callbacks (monitor w') =
       (if isl x then pdo_callbacks (monitor w)
        else dict_put (n_id node, int k) \<lparr>cb_id = next_callback (monitor w), cb_node = n_id node\<rparr> (pdo_callbacks (monitor w)))"
proof -
  obtain x d where add: "api_add_pdo_callback api (n_ref node) k (next_callback (monitor w)) (dev w) = (x, d)" by fastforce
  show thesis
    by (rule that [OF add])
      (use assms add in \<open>cases x; auto simp: subscribe_pdo_def new_callback_def on_monitor_def pdo_record_def
        dev_call_def py_simps\<close>)+
qed

lemma unsubscribe_pdo_run:
  assumes "unsubscribe_pdo api node k w = Some (r, w')"
    and "dict_get (pdo_callbacks (monitor w)) (n_id node, int k) = Some cb"
    and "api_remove_pdo_callback api (n_ref node) k (cb_id cb) (dev w) = (Inr (), d)"
  shows "dev w' = d" "subscribed_pdos (monitor w') = dict_pop (n_id node, int k) (subscribed_pdos (monitor w))"
    "pdo_callbacks (monitor w') = dict_pop (n_id node, int k) (pdo_callbacks (monitor w))"
  using assms by (auto simp: unsubscribe_pdo_def get_world_def on_monitor_def pdo_forget_def set_refresh_def
      dev_call_def py_simps)

lemma unsubscribe_pdo_none:
  "dict_get (pdo_callbacks (monitor w)) (n_id node, int k) = None \<Longrightarrow>
     unsubscribe_pdo api node k w = Some (Inr (), w)"
  by (simp add: unsubscribe_pdo_def get_world_def py_simps)

lemma pdo_callback_run:
  assumes "pdo_callback key vs now w = Some (r, w')"
  obtains (stored) eds where "subscribed_pdos (monitor w') = dict_put key (vs, now, eds) (subscribed_pdos (monitor w))"
      "pdo_callbacks (monitor w') = pdo_callbacks (monitor w)" "dev w' = dev w" "r = Inr ()"
  | (raised) e where "w' = w" "r = Inl e"
proof (cases "dict_get (nodes_meta w) (fst key)")
  case None
  then show thesis
    using assms raised by (auto simp: pdo_callback_def get_world_def dict_index_def py_simps)
next
  case (Some eds)
  then show thesis
    using assms by (intro stored [of eds])
      (auto simp: pdo_callback_def get_world_def dict_index_def on_monitor_def pdo_event_def set_refresh_def py_simps)
qed

lemma subscribe_heartbeat_run:
  assumes "subscribe_heartbeat api node w = Some (r, w')" and lib: "callback_lists api pcbs hcbs"
  obtains (failed) "hcbs (dev w') = hcbs (dev w)" "subscribed_hbs (monitor w') = subscribed_hbs (monitor w)"
      "hb_callbacks (monitor w') = hb_callbacks (monitor w)"
  | (added) cb where "hcbs (dev w') = insert (n_ref node, cb_id cb) (hcbs (dev w))"
      "subscribed_hbs (monitor w') = subscribed_hbs (monitor w)"
      "hb_callbacks (monitor w') = dict_put (n_id node) cb (hb_callbacks (monitor w))"
proof -
  let ?cb = "\<lparr>cb_id = next_callback (monitor w), cb_node = n_id node\<rparr>"
  obtain x d where add: "api_add_hb_callback api (n_ref node) (cb_id ?cb) (dev w) = (x, d)" by fastforce
  note cbs = callback_listsD(3) [OF lib add]
  obtain y d2 where app: "api_append_callback api (n_ref node) (cb_id ?cb) d = (y, d2)" by fastforce
  note cbs2 = callback_listsD(4) [OF lib app]
  consider (ok) "x = Inr ()" | (other) e where "x = Inl e" "exn_kind e \<noteq> AttributeError"
    | (again) e where "x = Inl e" "exn_kind e = AttributeError" "y = Inr ()"
    | (twice) e e' where "x = Inl e" "exn_kind e = AttributeError" "y = Inl e'"
    by (cases x; cases y) auto
  then show thesis
  proof cases
    case ok
    then have "dev w' = d" "subscribed_hbs (monitor w') = subscribed_hbs (monitor w)"
      "hb_callbacks (monitor w') = dict_put (n_id node) ?cb (hb_callbacks (monitor w))"
      using assms(1) add by (auto simp: subscribe_heartbeat_def new_callback_def on_monitor_def hb_record_def
          dev_call_def py_simps)
    then show thesis using cbs ok by (intro added [of ?cb]) simp_all
  next
    case (other e)
    then have "dev w' = d" "subscribed_hbs (monitor w') = subscribed_hbs (monitor w)"
      "hb_callbacks (monitor w') = hb_callbacks (monitor w)"
      using assms(1) add by (auto simp: subscribe_heartbeat_def new_callback_def dev_call_def py_simps)
    then show thesis using cbs other by (intro failed) simp_all
  next
    case (again e)
    then have "dev w' = d2" "subscribed_hbs (monitor w') = subscribed_hbs (monitor w)"
      "hb_callbacks (monitor w') = dict_put (n_id node) ?cb (hb_callbacks (monitor w))"
      using assms(1) add app by (auto simp: subscribe_heartbeat_def new_callback_def on_monitor_def hb_record_def
          dev_call_def py_simps)
    then show thesis using cbs cbs2 again by (intro added [of ?cb]) simp_all
  next
    case (twice e e')
    then have "dev w' = d2" "subscribed_hbs (monitor w') = subscribed_hbs (monitor w)"
      "hb_callbacks (monitor w') = hb_callbacks (monitor w)"
      using assms(1) add app by (auto simp: subscribe_heartbeat_def new_callback_def dev_call_def py_simps)
    then show thesis using cbs cbs2 twice by (intro failed) simp_all
  qed
qed

lemma unsubscribe_heartbeat_run:
  assumes "unsubscribe_heartbeat api node w = Some (r, w')"
    and "dict_get (hb_callbacks (monitor w)) (n_id node) = Some cb"
    and "(if api_has_remove_hb api (n_ref node) then api_remove_hb_callback api (n_ref node) (cb_id cb) (dev w)
          else api_remove_callback api (n_ref node) (cb_id cb) (dev w)) = (Inr (), d)"
  shows "dev w' = d" "subscribed_hbs (monitor w') = dict_pop (n_id node) (subscribed_hbs (monitor w))"
    "hb_callbacks (monitor w') = dict_pop (n_id node) (hb_callbacks (monitor w))"
  using assms by (auto simp: unsubscribe_heartbeat_def get_world_def on_monitor_def hb_forget_def set_refresh_def
      dev_call_def py_simps split: if_splits)

lemma unsubscribe_heartbeat_none:
  "dict_get (hb_callbacks (monitor w)) (n_id node) = None \<Longrightarrow>
     unsubscribe_heartbeat api node w = Some (Inr (), w)"
  by (simp add: unsubscribe_heartbeat_def get_world_def py_simps)

lemma hb_callback_run:
  assumes "hb_callback key st now w = Some (r, w')"
  obtains (stored) eds where "subscribed_hbs (monitor w') = dict_put key (st, now, eds) (subscribed_hbs (monitor w))"
      "hb_callbacks (monitor w') = hb_callbacks (monitor w)" "dev w' = dev w" "r = Inr ()"
  | (raised) e where "w' = w" "r = Inl e"
proof (cases "dict_get (nodes_meta w) key")
  case None
  then show thesis
    using assms raised by (auto simp: hb_callback_def get_world_def dict_index_def py_simps)
next
  case (Some eds)
  then show thesis
    using assms by (intro stored [of eds])
      (auto simp: hb_callback_def get_world_def dict_index_def on_monitor_def hb_event_def set_refresh_def py_simps)
qed

lemma subscribe_pdo_ok:
  assumes lib: "callback_lists api pcbs hcbs" and inj: "inj ref" and ref: "n_ref node = ref (n_id node)"
    and run: "subscribe_pdo api node k w = Some (r, w')"
  shows "table_subscribed pdo_table (pdo_lib pcbs ref) (n_id node, int k) w w'"
proof -
  let ?cb = "\<lparr>cb_id = next_callback (monitor w), cb_node = n_id node\<rparr>"
  obtain x d where add: "api_add_pdo_callback api (n_ref node) k (next_callback (monitor w)) (dev w) = (x, d)"
    "dev w' = d" "r = x" "subscribed_pdos (monitor w') = subscribed_pdos (monitor w)"
    "pdo_callbacks (monitor w') =
       (if isl x then pdo_callbacks (monitor w) else dict_put (n_id node, int k) ?cb (pdo_callbacks (monitor w)))"
    using subscribe_pdo_run [OF run] .
  have cbs: "pcbs (dev w') = (if isl x then pcbs (dev w) else insert (ref (n_id node), k, cb_id ?cb) (pcbs (dev w)))"
    using callback_listsD(1) [OF lib add(1)] add(2) ref by simp
  show ?thesis
  proof (cases "isl x")
    case True
    then show ?thesis
      using add(4,5) cbs lib_cong(1) [of pcbs w' w ref] by (simp add: table_subscribed_def same_table_def fun_eq_iff)
  next
    case False
    then have "pdo_lib pcbs ref w' = insert ((n_id node, int k), cb_id ?cb) (pdo_lib pcbs ref w)"
      using cbs by (intro pdo_lib_changes(1) [OF inj]) simp
    then show ?thesis
      unfolding table_subscribed_def
      using add(4,5) False by (intro disjI2 exI [of _ ?cb]) (simp add: dict_get_put fun_eq_iff)
  qed
qed

lemma unsubscribe_pdo_ok:
  assumes lib: "callback_lists api pcbs hcbs" and inj: "inj ref" and ref: "n_ref node = ref (n_id node)"
    and run: "unsubscribe_pdo api node k w = Some (r, w')"
  shows "table_forgotten pdo_table (pdo_lib pcbs ref) (n_id node, int k) w w'"
proof (cases "dict_get (pdo_callbacks (monitor w)) (n_id node, int k)")
  case None
  then have "w' = w" using run unsubscribe_pdo_none [OF None, of api] by simp
  then show ?thesis using None by (simp add: table_forgotten_def same_table_def)
next
  case (Some cb)
  show ?thesis
    unfolding table_forgotten_def table.simps pdo_table_def Some option.case
  proof (rule impI)
    assume "((n_id node, int k), cb_id cb) \<in> pdo_lib pcbs ref w"
    then have there: "(n_ref node, k, cb_id cb) \<in> pcbs (dev w)" by (simp add: in_lib ref)
    obtain x d where rm: "api_remove_pdo_callback api (n_ref node) k (cb_id cb) (dev w) = (x, d)" by fastforce
    note cbs = callback_listsD(2) [OF lib rm there]
    note w' = unsubscribe_pdo_run [OF run Some rm [unfolded conjunct1 [OF cbs]]]
    have "pdo_lib pcbs ref w' = pdo_lib pcbs ref w - {((n_id node, int k), cb_id cb)}"
      using cbs w'(1) ref by (intro pdo_lib_changes(2) [OF inj]) simp
    then show "dict_get (subscribed_pdos (monitor w')) = (dict_get (subscribed_pdos (monitor w)))((n_id node, int k) := None) \<and>
        dict_get (pdo_callbacks (monitor w')) = (dict_get (pdo_callbacks (monitor w)))((n_id node, int k) := None) \<and>
        pdo_lib pcbs ref w' = pdo_lib pcbs ref w - {((n_id node, int k), cb_id cb)}"
      using w'(2,3) by (simp add: dict_get_pop fun_eq_iff)
  qed
qed

lemma pdo_callback_ok:
  "pdo_callback key vs now w = Some (r, w') \<Longrightarrow> table_stored pdo_table (pdo_lib pcbs ref) key w w'"
  by (erule pdo_callback_run)
    (use lib_cong(1) [of pcbs w' w ref] in \<open>auto simp: table_stored_def same_table_def dict_get_put fun_eq_iff\<close>)

lemma pdo_ops_ok:
  "callback_lists api pcbs hcbs \<Longrightarrow> inj ref \<Longrightarrow> table_ops_ok pdo_table (pdo_lib pcbs ref) (pdo_ops api ref)"
  by (auto simp: table_ops_ok_def pdo_ops_def intro: subscribe_pdo_ok unsubscribe_pdo_ok pdo_callback_ok)

lemma subscribe_heartbeat_ok:
  assumes lib: "callback_lists api pcbs hcbs" and inj: "inj ref" and ref: "n_ref node = ref (n_id node)"
    and run: "subscribe_heartbeat api node w = Some (r, w')"
  shows "table_subscribed hb_table (hb_lib hcbs ref) (n_id node) w w'"
proof (cases rule: subscribe_heartbeat_run [OF run lib])
  case 1
  then show ?thesis
    using lib_cong(2) [of hcbs w' w ref] by (simp add: table_subscribed_def same_table_def fun_eq_iff)
next
  case (2 cb)
  then have "hb_lib hcbs ref w' = insert (n_id node, cb_id cb) (hb_lib hcbs ref w)"
    using ref by (intro hb_lib_changes(1) [OF inj]) simp
  then show ?thesis
    unfolding table_subscribed_def
    using 2 by (intro disjI2 exI [of _ cb]) (simp add: dict_get_put fun_eq_iff)
qed

lemma unsubscribe_heartbeat_ok:
  assumes lib: "callback_lists api pcbs hcbs" and inj: "inj ref" and ref: "n_ref node = ref (n_id node)"
    and run: "unsubscribe_heartbeat api node w = Some (r, w')"
  shows "table_forgotten hb_table (hb_lib hcbs ref) (n_id node) w w'"
proof (cases "dict_get (hb_callbacks (monitor w)) (n_id node)")
  case None
  then have "w' = w" using run unsubscribe_heartbeat_none [OF None, of api] by simp
  then show ?thesis using None by (simp add: table_forgotten_def same_table_def)
next
  case (Some cb)
  show ?thesis
    unfolding table_forgotten_def table.simps hb_table_def Some option.case
  proof (rule impI)
    assume "(n_id node, cb_id cb) \<in> hb_lib hcbs ref w"
    then have there: "(n_ref node, cb_id cb) \<in> hcbs (dev w)" by (simp add: in_lib ref)
    obtain x d where rm: "(if api_has_remove_hb api (n_ref node) then api_remove_hb_callback api (n_ref node) (cb_id cb) (dev w)
        else api_remove_callback api (n_ref node) (cb_id cb) (dev w)) = (x, d)" by fastforce
    note cbs = callback_listsD(5) [OF lib rm there]
    note w' = unsubscribe_heartbeat_run [OF run Some rm [unfolded conjunct1 [OF cbs]]]
    have "hb_lib hcbs ref w' = hb_lib hcbs ref w - {(n_id node, cb_id cb)}"
      using cbs w'(1) ref by (intro hb_lib_changes(2) [OF inj]) simp
    then show "dict_get (subscribed_hbs (monitor w')) = (dict_get (subscribed_hbs (monitor w)))(n_id node := None) \<and>
        dict_get (hb_callbacks (monitor w')) = (dict_get (hb_callbacks (monitor w)))(n_id node := None) \<and>
        hb_lib hcbs ref w' = hb_lib hcbs ref w - {(n_id node, cb_id cb)}"
      using w'(2,3) by (simp add: dict_get_pop fun_eq_iff)
  qed
qed

lemma hb_callback_ok:
  "hb_callback key st now w = Some (r, w') \<Longrightarrow> table_stored hb_table (hb_lib hcbs ref) key w w'"
  by (erule hb_callback_run)
    (use lib_cong(2) [of hcbs w' w ref] in \<open>auto simp: table_stored_def same_table_def dict_get_put fun_eq_iff\<close>)

lemma hb_ops_ok:
  "callback_lists api pcbs hcbs \<Longrightarrow> inj ref \<Longrightarrow> table_ops_ok hb_table (hb_lib hcbs ref) (hb_ops api ref)"
  by (auto simp: table_ops_ok_def hb_ops_def intro: subscribe_heartbeat_ok unsubscribe_heartbeat_ok hb_callback_ok)

subsection \<open>Properties\<close>


text \<open>
  The library holds exactly what is recorded, what is shown is recorded, and after unsubscribing
  neither the entry nor a callback of its key is left.
\<close>

definition final_table ::
    "('k, 'v) table \<Rightarrow> ('d co_world \<Rightarrow> ('k \<times> nat) set) \<Rightarrow> ('d co_world, 'k) table_ops \<Rightarrow>
     'd co_world \<Rightarrow> ('k \<times> nat) set \<Rightarrow> bool" where
  "final_table T lib ops w in_call \<longleftrightarrow>
     lib w = {(k, c). \<exists>cb. t_callback T (monitor w) k = Some cb \<and> cb_id cb = c} \<and>
     (\<forall>k. t_callback T (monitor w) k = None \<longrightarrow> t_shown T (monitor w) k = None) \<and>
     (\<forall>k m r w'. o_unsubscribe ops k m \<and> m w = Some (r, w') \<and> (\<forall>c. (k, c) \<notin> in_call) \<longrightarrow>
        t_shown T (monitor w') k = None \<and> (\<forall>c. (k, c) \<notin> lib w'))"

context subscription_table
begin

lemma session_final:
  assumes "table_ops_ok T lib ops" "session T lib ops True w in_call"
  shows "final_table T lib ops w in_call"
  unfolding final_table_def
  using session_matches [OF assms] session_unsubscribed [OF assms] by (intro conjI) (auto 0 3)

end


subsection \<open>An example\<close>

text \<open>A library that keeps its callbacks in two sets and accepts everything.\<close>

type_synonym callback_sets = "(nat \<times> nat \<times> nat) set \<times> (nat \<times> nat) set"

definition list_can_api :: "callback_sets can_api" where
  "list_can_api = \<lparr>api_time = (\<lambda>d. (0, d)), api_sleep = (\<lambda>s d. (Inr (), d)), api_add_node = (\<lambda>i od d. (Inr 0, d)),
     api_timeouts = (\<lambda>n t r d. d), api_connect = (\<lambda>i b d. (Inr (), d)), api_disconnect = (\<lambda>d. (Inr (), d)),
     api_read = (\<lambda>n i s d. (Inr 0, d)), api_write = (\<lambda>n i s v d. (Inr (), d)), api_set_state = (\<lambda>n s d. (Inr (), d)),
     api_bootup = (\<lambda>n t d. (Inr (), d)), api_open = (\<lambda>n i s b z d. (Inr (), d)), api_chunk = (\<lambda>n c d. (Inr (), d)),
     api_close = (\<lambda>n d. (Inr (), d))\<rparr>"

definition list_api :: "callback_sets node_api" where
  "list_api = \<lparr>base = list_can_api, api_remote_node = (\<lambda>i eds d. (Inr (0, []), d)),
     api_register = (\<lambda>r d. (Inr (), d)), api_get_raw = (\<lambda>r i s d. (Inr RNone, d)),
     api_set_raw = (\<lambda>r i s v d. (Inr (), d)), api_nmt_command = (\<lambda>r c d. (Inr (), d)),
     api_nmt_state = (\<lambda>r d. (Inr (RInt 5), d)), api_rpdo_count = (\<lambda>r d. (Inr 1, d)),
     api_rpdo_maps = (\<lambda>r k d. (Inr [], d)), api_transmit = (\<lambda>r k vs d. (Inr (), d)),
     api_tpdo_count = (\<lambda>r d. (Inr 1, d)), api_add_pdo_callback = (\<lambda>r k c (p, h). (Inr (), insert (r, k, c) p, h)),
     api_remove_pdo_callback = (\<lambda>r k c (p, h). if (r, k, c) \<in> p then (Inr (), p - {(r, k, c)}, h)
        else (Inl (Exn ValueError ''list.remove(x): x not in list''), p, h)),
     api_add_hb_callback = (\<lambda>r c d. (Inl (Exn AttributeError ''add_heartbeat_callback''), d)),
     api_append_callback = (\<lambda>r c (p, h). (Inr (), p, insert (r, c) h)),
     api_has_remove_hb = (\<lambda>r. False), api_remove_hb_callback = (\<lambda>r c d. (Inr (), d)),
     api_remove_callback = (\<lambda>r c (p, h). if (r, c) \<in> h then (Inr (), p, h - {(r, c)})
        else (Inl (Exn ValueError ''list.remove(x): x not in list''), p, h))\<rparr>"

lemma list_api_lists: "callback_lists list_api fst snd"
  by (auto simp: callback_lists_def list_api_def split: if_splits)

text \<open>A node reference for every id; node 5 subscribed to, for its first PDO and its heartbeat.\<close>

definition demo_ref :: "int \<Rightarrow> nat" where
  "demo_ref i = (if 0 \<le> i then nat (2 * i) else nat (- 2 * i - 1))"

lemma demo_ref_inj: "inj demo_ref"
proof (rule injI)
  fix x y
  assume "demo_ref x = demo_ref y"
  then have "(if 0 \<le> x then 2 * x else - 2 * x - 1) = (if 0 \<le> y then 2 * y else - 2 * y - 1)"
    unfolding demo_ref_def by (auto split: if_splits)
  then show "x = y" by (cases "0 \<le> x"; cases "0 \<le> y"; simp; presburger)
qed

definition demo_node_5 :: node where
  "demo_node_5 = \<lparr>n_id = 5, n_ref = 10, n_od = []\<rparr>"

lemma demo_node_5_ref: "n_ref demo_node_5 = demo_ref (n_id demo_node_5)"
  by (simp add: demo_node_5_def demo_ref_def)

lemma demo_sessions:
  "\<exists>w v. subscribe_pdo list_api demo_node_5 1 (empty_co ({}, {}) []) = Some (Inr (), w) \<and>
     session pdo_table (pdo_lib fst demo_ref) (pdo_ops list_api demo_ref) tidy w {} \<and>
     dev w = ({(10, 1, 0)}, {}) \<and> dict_get (pdo_callbacks (monitor w)) (5, 1) = Some \<lparr>cb_id = 0, cb_node = 5\<rparr> \<and>
     subscribe_heartbeat list_api demo_node_5 (empty_co ({}, {}) []) = Some (Inr (), v) \<and>
     session hb_table (hb_lib snd demo_ref) (hb_ops list_api demo_ref) tidy v {} \<and>
     dev v = ({}, {(10, 0)}) \<and> dict_get (hb_callbacks (monitor v)) 5 = Some \<lparr>cb_id = 0, cb_node = 5\<rparr>"
proof -
  let ?w = "empty_co ({}, {}) [] :: callback_sets co_world"
  have 0: "session pdo_table (pdo_lib fst demo_ref) (pdo_ops list_api demo_ref) tidy ?w {}"
    "session hb_table (hb_lib snd demo_ref) (hb_ops list_api demo_ref) tidy ?w {}"
    by (rule ses_init; simp add: empty_co_def pdo_lib_def hb_lib_def)+
  obtain w where w: "subscribe_pdo list_api demo_node_5 1 ?w = Some (Inr (), w)" "dev w = ({(10, 1, 0)}, {})"
    "pdo_callbacks (monitor w) = [((5, 1), \<lparr>cb_id = 0, cb_node = 5\<rparr>)]"
    by (simp add: subscribe_pdo_def new_callback_def on_monitor_def pdo_record_def dev_call_def py_simps
        list_api_def demo_node_5_def empty_co_def EventMonitor_init_def)
  obtain v where v: "subscribe_heartbeat list_api demo_node_5 ?w = Some (Inr (), v)" "dev v = ({}, {(10, 0)})"
    "hb_callbacks (monitor v) = [(5, \<lparr>cb_id = 0, cb_node = 5\<rparr>)]"
    by (simp add: subscribe_heartbeat_def new_callback_def on_monitor_def hb_record_def dev_call_def py_simps
        list_api_def demo_node_5_def empty_co_def EventMonitor_init_def)
  have ops: "o_subscribe (pdo_ops list_api demo_ref) (5, 1) (subscribe_pdo list_api demo_node_5 1)"
    "o_subscribe (hb_ops list_api demo_ref) 5 (subscribe_heartbeat list_api demo_node_5)"
    unfolding pdo_ops_def hb_ops_def table_ops.simps
    by (rule exI [of _ demo_node_5], rule exI [of _ 1], use demo_node_5_ref in \<open>simp add: demo_node_5_def\<close>)
      (rule exI [of _ demo_node_5], use demo_node_5_ref in \<open>simp add: demo_node_5_def\<close>)
  have none: "t_callback pdo_table (monitor ?w) (5, 1) = None" "t_callback hb_table (monitor ?w) 5 = None"
    by (simp_all add: empty_co_def EventMonitor_init_def)
  have "session pdo_table (pdo_lib fst demo_ref) (pdo_ops list_api demo_ref) tidy w {}"
    by (rule ses_subscribe [OF 0(1) ops(1) _ w(1)]) (use none in blast)
  moreover have "session hb_table (hb_lib snd demo_ref) (hb_ops list_api demo_ref) tidy v {}"
    by (rule ses_subscribe [OF 0(2) ops(2) _ v(1)]) (use none in blast)
  ultimately show ?thesis using w v by auto
qed



end
