(* ===== verification/West_Install.thy ===== *)
theory West_Install
  imports Prelude Py_Text
begin

text \<open>
  The west extension command \<open>owl-install-canopen-tools\<close>
  (\<open>scripts/owl_install_canopen_tools.py\<close>): which set-up scripts \<open>do_run\<close> runs and where it stops.
  The file system and \<open>subprocess.run\<close> are parameters: \<open>run_script\<close> gives the exit code of
  \<open>bash script\<close> or raises.
\<close>

datatype west_event = Err string | Inf string | Ran string

record 'd west_world =
  w_dev :: 'd
  w_log :: "west_event list"

record 'd west_env =
  topdir :: string
  is_dir :: "string \<Rightarrow> bool"
  is_file :: "string \<Rightarrow> bool"
  run_script :: "string \<Rightarrow> 'd \<Rightarrow> (exn + int) \<times> 'd"

text \<open>\<open>os.path.join\<close> with a relative second part.\<close>

definition path_join :: "string \<Rightarrow> string \<Rightarrow> string" where
  "path_join a b = (if a = [] \<or> last a = CHR ''/'' then a @ b else a @ ''/'' @ b)"

definition repo_root :: "'d west_env \<Rightarrow> string" where
  "repo_root env = path_join (path_join (path_join (topdir env) ''modules'') ''tools'') ''canopen-tools''"

definition install_scripts :: "bool \<Rightarrow> string list" where
  "install_scripts only_canopen_gen =
     (if only_canopen_gen then [''setup-canopen-eds-generator.sh'']
      else [''setup-oze-canopen-viewer.sh'', ''setup-canopen-eds-generator.sh'', ''setup-canopen-eds-editor.sh''])"

definition log_event :: "west_event \<Rightarrow> ('d west_world, unit) py" where
  "log_event e = py_effect (\<lambda>w. w\<lparr>w_log := w_log w @ [e]\<rparr>)"

text \<open>\<open>subprocess.run(["bash", path], cwd=..., check=True)\<close>: an exit code other than 0 raises.\<close>

definition called_process_error :: "int \<Rightarrow> exn" where
  "called_process_error code = Exn CalledProcessError (int_str code)"

definition run_checked :: "'d west_env \<Rightarrow> string \<Rightarrow> ('d west_world, unit) py" where
  "run_checked env path w =
     (case run_script env path (w_dev w) of (r, d) \<Rightarrow>
       let w' = w\<lparr>w_dev := d, w_log := w_log w @ [Ran path]\<rparr>
       in case r of
            Inl e \<Rightarrow> Some (Inl e, w')
          | Inr code \<Rightarrow> if code = 0 then Some (Inr (), w') else Some (Inl (called_process_error code), w'))"

definition install_one :: "'d west_env \<Rightarrow> string \<Rightarrow> ('d west_world, unit) py" where
  "install_one env script =
     (let script_path = path_join (repo_root env) script
      in if \<not> is_file env script_path then
           py_bind (log_event (Err (''Script not found: '' @ script_path)))
             (\<lambda>_. py_raise (Exn (SystemExit 1) []))
         else
           py_bind (log_event (Inf (''Executing: '' @ script @ '' in '' @ repo_root env))) (\<lambda>_ w.
             case run_checked env script_path w of
               Some (Inl e, w') \<Rightarrow>
                 (if exn_kind e = CalledProcessError then
                    py_bind (log_event (Err (''Script '' @ script @ '' failed with code '' @ exn_str e)))
                      (\<lambda>_. py_raise e) w'
                  else Some (Inl e, w'))
             | r \<Rightarrow> r))"

text \<open>The last message is logged with a leading check mark, which is left out here.\<close>

definition do_run :: "'d west_env \<Rightarrow> bool \<Rightarrow> ('d west_world, unit) py" where
  "do_run env only_canopen_gen =
     (if \<not> is_dir env (repo_root env) then
        py_bind (log_event (Err (''Expected repo path not found: '' @ repo_root env)))
          (\<lambda>_. py_raise (Exn (SystemExit 1) []))
      else
        py_bind (py_for (install_scripts only_canopen_gen) (install_one env)) (\<lambda>_.
          log_event (Inf '' CANopen tools installation finished.'')))"

subsection \<open>Registration\<close>

text \<open>What the command tells west and argparse about itself: its names, and one option without a value.\<close>

record west_command =
  cmd_name :: string
  cmd_help :: string
  cmd_description :: string
  cmd_flags :: "(string \<times> string) list"   \<comment> \<open>flag (\<open>store_true\<close>) and its help\<close>

definition OwlInstallCanopenTools :: west_command where
  "OwlInstallCanopenTools =
     \<lparr>cmd_name = ''owl-install-canopen-tools'',
      cmd_help = ''Install all CANopen tools (OZE viewer, EDS generator, EDS editor)'',
      cmd_description = ''Runs the setup scripts in modules/tool/canopen-tools.'',
      cmd_flags = [(''--only-canopen-gen'', ''Run only the setup-canopen-eds-generator.sh script'')]\<rparr>"

subsection \<open>What is run\<close>

fun ran :: "west_event \<Rightarrow> string option" where
  "ran (Ran p) = Some p"
| "ran _ = None"

definition runs :: "'d west_world \<Rightarrow> string list" where
  "runs w = List.map_filter ran (w_log w)"

text \<open>How a run of some scripts may end at a script: it is missing, or it failed.\<close>

lemma install_one_cases:
  fixes w :: "'d west_world"
  assumes p: "p = path_join (repo_root env) script"
  shows "\<exists>r w'. install_one env script w = Some (r, w') \<and>
     ((r = Inr () \<and> is_file env p \<and> runs w' = runs w @ [p]) \<or>
      (r = Inl (Exn (SystemExit 1) []) \<and> \<not> is_file env p \<and> runs w' = runs w) \<or>
      (\<exists>e. r = Inl e \<and> is_file env p \<and> runs w' = runs w @ [p]))"
proof (cases "is_file env p")
  case False
  then show ?thesis
    by (simp add: install_one_def p Let_def log_event_def py_simps runs_def List.map_filter_def)
next
  case True
  obtain r d where "run_script env p (w_dev w) = (r, d)" by fastforce
  then show ?thesis
    using True
    by (cases r) (auto simp: install_one_def p Let_def log_event_def run_checked_def called_process_error_def
        py_simps runs_def List.map_filter_def)
qed

text \<open>
  Where the installation stopped with \<open>e\<close>: at a script \<open>s\<close> that is missing (and the ones before it
  were run), or that was run and failed; no later one was run.
\<close>

definition stopped_at :: "'d west_env \<Rightarrow> string list \<Rightarrow> exn \<Rightarrow> string list \<Rightarrow> bool" where
  "stopped_at env scripts e new_runs \<longleftrightarrow>
     (\<exists>pre s later. scripts = pre @ s # later \<and>
        (if is_file env (path_join (repo_root env) s)
         then new_runs = map (path_join (repo_root env)) (pre @ [s])
         else e = Exn (SystemExit 1) [] \<and> new_runs = map (path_join (repo_root env)) pre))"

lemma stopped_at_head:
  "(if is_file env (path_join (repo_root env) s) then new_runs = [path_join (repo_root env) s]
    else e = Exn (SystemExit 1) [] \<and> new_runs = []) \<Longrightarrow> stopped_at env (s # scripts) e new_runs"
  unfolding stopped_at_def by (rule exI [of _ "[]"], rule exI [of _ s], rule exI [of _ scripts]) (simp split: if_splits)

lemma stopped_at_Cons:
  assumes "stopped_at env scripts e new_runs"
  shows "stopped_at env (s # scripts) e (path_join (repo_root env) s # new_runs)"
proof -
  obtain pre t later where *: "scripts = pre @ t # later"
    "if is_file env (path_join (repo_root env) t) then new_runs = map (path_join (repo_root env)) (pre @ [t])
     else e = Exn (SystemExit 1) [] \<and> new_runs = map (path_join (repo_root env)) pre"
    using assms by (auto simp: stopped_at_def)
  show ?thesis
    unfolding stopped_at_def
    by (rule exI [of _ "s # pre"], rule exI [of _ t], rule exI [of _ later]) (use * in \<open>simp split: if_splits\<close>)
qed

lemma install_all:
  fixes w :: "'d west_world"
  shows "\<exists>r w' new_runs. py_for scripts (install_one env) w = Some (r, w') \<and> runs w' = runs w @ new_runs \<and>
     (case r of
        Inr _ \<Rightarrow> new_runs = map (path_join (repo_root env)) scripts \<and>
                  list_all (\<lambda>s. is_file env (path_join (repo_root env) s)) scripts
      | Inl e \<Rightarrow> stopped_at env scripts e new_runs)"
proof (induction scripts arbitrary: w)
  case Nil
  then show ?case by (simp add: py_return_def)
next
  case (Cons s scripts)
  let ?p = "path_join (repo_root env) s"
  obtain r w1 where one: "install_one env s w = Some (r, w1)"
    "(r = Inr () \<and> is_file env ?p \<and> runs w1 = runs w @ [?p]) \<or>
     (r = Inl (Exn (SystemExit 1) []) \<and> \<not> is_file env ?p \<and> runs w1 = runs w) \<or>
     (\<exists>e. r = Inl e \<and> is_file env ?p \<and> runs w1 = runs w @ [?p])"
    using install_one_cases [OF refl, of env s w] by blast
  show ?case
  proof (cases r)
    case (Inl e)
    then have "py_for (s # scripts) (install_one env) w = Some (Inl e, w1)" using one(1) by (simp add: py_bind_def)
    then show ?thesis using one(2) Inl by (auto simp: stopped_at_head)
  next
    case (Inr u)
    obtain r2 w2 new where rest: "py_for scripts (install_one env) w1 = Some (r2, w2)" "runs w2 = runs w1 @ new"
      "case r2 of
        Inr _ \<Rightarrow> new = map (path_join (repo_root env)) scripts \<and>
                  list_all (\<lambda>s. is_file env (path_join (repo_root env) s)) scripts
      | Inl e \<Rightarrow> stopped_at env scripts e new"
      using Cons.IH [of w1] by blast
    have run: "py_for (s # scripts) (install_one env) w = Some (r2, w2)" "runs w2 = runs w @ ?p # new"
      using one rest Inr by (simp_all add: py_bind_def)
    show ?thesis
      using run rest(3) one(2) Inr by (cases r2) (auto intro: stopped_at_Cons)
  qed
qed

subsection \<open>Property\<close>


end
