(* ===== verification/Spec2Isabelle.thy ===== *)
theory Spec2Isabelle
  imports Bridge_System Command_Lines Co_Session Monitor_Runs West_Install
begin

text \<open>
  \<^bold>\<open>canopen-tools, the Python part.\<close>  The repository holds tools for CANopen networks.  Its
  programs in Python are modelled and verified here:

  \<^item> \<open>can-tcp-bridge/can-tcp-bridge-server/can_tcp_bridge.py\<close> forwards CAN frames over TCP;
  \<^item> \<open>firmware-update/co-firmware-update.py\<close> updates the program of a CANopen node over SDO;
  \<^item> \<open>canopen-interactive/co.py\<close> is a menu for nodes, SDO, PDO, NMT, heartbeats and updates;
  \<^item> \<open>scripts/owl_install_canopen_tools.py\<close> is a west command that runs the set-up scripts.

  The bridge talks to another bridge (or to its C client) over TCP.  The script and the menu share
  the update procedure, which each has its own copy of.  Otherwise the programs are independent.

  \<^bold>\<open>How programs become definitions.\<close>  Statements are \<open>('w, 'a) py\<close>: from a world to \<open>None\<close> (never
  returns) or to an exception or a value, with the new world (\<open>Prelude\<close>).  An \<open>except Exception\<close>
  is \<open>py_except\<close>, which lets \<open>KeyboardInterrupt\<close> and \<open>SystemExit\<close> pass; a \<open>finally\<close> is
  \<open>py_finally\<close>.  Loops that may go on for ever (the wait for the flash status, the selection by
  number, the main menu) are \<open>partial_function (option)\<close>: for the first, that it ends is proved for
  a steady clock; for the second, exactly when it ends; no fuel is used anywhere.  Threads are step
  relations in which a block under a lock is one step.  Dictionaries are association lists in
  insertion order, bytes are \<open>8 word\<close>, Python's integers are \<open>int\<close>.

  \<^bold>\<open>The theories\<close>, in the order they build on each other:

  \<^item> \<open>Prelude\<close>: exceptions, statements, dictionaries, \<open>struct\<close> formats;
    \<open>Py_Text\<close>: \<open>strip\<close>, \<open>split\<close>, \<open>int\<close>, \<open>str\<close>, \<open>hex\<close>, UTF-8;
    \<open>Py_Value\<close>: the values of YAML files and of object dictionary variables, and conversions.
  \<^item> \<open>Frame_Codec\<close>: \<open>frame_from_can\<close>, \<open>can_from_frame\<close>.  Both round trips, every error of the
    decoder, stability of forwarding.
  \<^item> \<open>Tcp_Framer\<close>: class \<open>TCPFramer\<close>, against the specification \<open>split_records\<close> of a whole stream.
    Chunk boundaries do not matter, no byte is lost, the buffer is bounded.  The locale
    \<open>record_stream\<close> is its contract.
  \<^item> \<open>Bridge_Loops\<close>: \<open>_loop_can_to_tcp\<close>, \<open>_loop_tcp_to_can\<close>; a pass meets its environment as a tick.
    From bus to bus over one connection, survival of errors, the end of a connection.
  \<^item> \<open>Bridge_Threads\<close>: \<open>_tcp_manager\<close>, \<open>_accept_once\<close>, \<open>_connect_once\<close> and the main thread as an
    interleaving.  One connection at a time, connections do not mix, shut-down ends.
  \<^item> \<open>Bridge_System\<close>: passes of the loops are steps of the threads (refinement), and the safety of two
    bridges connected by TCP, whatever reconnections, failures and shut-downs happen.
  \<^item> \<open>Bridge_Config\<close>: \<open>DEFAULT_CONFIG\<close>, \<open>load_config\<close>, \<open>bring_up_interface\<close>, \<open>make_bus\<close>,
    \<open>set_tcp_keepalive\<close>, addresses.  What merging gives, which commands are run.
  \<^item> \<open>Bridge_Main\<close>: \<open>main\<close>, \<open>Bridge.start\<close>, \<open>Bridge.stop\<close>.  Clean-up on every way out.
  \<^item> \<open>Tool_World\<close>: console, files, network and the history of commands of the two CANopen tools, with
    a calculus (\<open>emits\<close>, \<open>does\<close>, \<open>issues\<close>) for which commands a statement sends.
  \<^item> \<open>Firmware_Update\<close>: \<open>co-firmware-update.py\<close>.  The exact command sequence, that a program is started
    and confirmed only after its complete image and a status of 0, termination, consent, exit.  The
    locale \<open>status_wait\<close> is the contract of the wait for the flash status.
  \<^item> \<open>Co_Console\<close>, \<open>Co_State\<close>, \<open>Sdo_Browser\<close>, \<open>Node_Menu\<close>: the dialogues of \<open>co.py\<close>, its state, reading and
    writing over SDO, nodes, NMT, PDO transmission.  \<open>Co_Flash\<close>: its update, proved equivalent to
    the script's.
  \<^item> \<open>Event_Monitor\<close>: class \<open>EventMonitor\<close>; the locale \<open>subscription_table\<close> is the contract of its two
    pairs of dictionaries; redrawing the screen.  \<open>Monitor_Runs\<close>: the operations on the world refine
    the runs of that contract, for PDOs and heartbeats, and unsubscribing is final.
  \<^item> \<open>Menu_Relations\<close>: what the entries of the menu keep, proved once for every relation that allows what
    they do (locales \<open>run_relation\<close>, \<open>tool_relation\<close>, \<open>node_relation\<close>, \<open>menu_relation\<close>).
    \<open>Co_Main\<close>: the main menu and \<open>main\<close>.  Disconnection at the end of a session.
  \<^item> \<open>Co_Session\<close>: the menu, the receive thread and the refresh thread as an interleaving on one world.
    Callbacks never fail, the screen catches up, and the menu's thread alone is the loop of \<open>main\<close>.
  \<^item> \<open>Arg_Parser\<close>: \<open>argparse\<close> as the programs use it: options without positional arguments, their
    abbreviations, joined short flags, \<open>--name=value\<close>, \<open>--\<close>, and the ways a command line is refused.
    \<open>Command_Lines\<close>: \<open>parse_args\<close> of the script, the parser of the bridge, and the two programs from
    their command lines on.  Arguments written as options are read back; what consent means.
  \<^item> \<open>West_Install\<close>: \<open>do_run\<close> of the west command.

  \<^bold>\<open>What is a parameter.\<close>  PyYAML, python-can, python-canopen, \<open>subprocess\<close>, sockets,
  the clock and the file system are arguments of the definitions (\<open>mk\<close> and \<open>send\<close> of the loops,
  \<open>can_api\<close>, \<open>node_api\<close>, \<open>bridge_os\<close>, \<open>west_env\<close>, \<open>files\<close>).  Hypotheses on them state documented
  behaviour and have names: \<open>keeps_content\<close> (\<open>can.Message\<close> stores what it is given),
  \<open>bus_tolerant\<close> (\<open>send\<close> raises only \<open>CanError\<close>), \<open>sdo_calm\<close> and \<open>os_calm\<close> (failures are
  \<open>Exception\<close>s), \<open>callback_lists\<close> (\<open>add_callback\<close> and \<open>remove_callback\<close> add and remove).  TCP
  delivers a prefix of what was written, and a connection on which \<open>sendall\<close> failed transmits
  nothing more.

  \<^bold>\<open>Where the model is coarser than Python.\<close>  Characters have code points below 256.  Times, and the
  fraction of the progress bar, are exact rationals instead of floating point numbers.  Log output
  is left out.  \<open>C_status\<close> marks in the history what a wait returned; it is not a command.  An
  exception at a place other than a library call or an input (Ctrl-C between two statements) is not
  considered.  In \<open>Co_Session\<close> an entry of the menu is one step, so that a callback comes before or
  after it, and so is drawing the screen.  In \<open>Monitor_Runs\<close> a node id keeps its node object.

  \<^bold>\<open>Not modelled.\<close>  The formatting of logs, usage and help texts (a refused command line is its exit
  status), how west hands \<open>--only-canopen-gen\<close> to \<open>do_run\<close>.  The C client (\<open>can-tcp-bridge-client\<close>), the Rust viewer
  (\<open>oze-canopen-viewer\<close>), the shell scripts and the packaging are not Python.
\<close>

end
